(* ===== verification/Prelude.thy ===== *)
theory Prelude
  imports Main "HOL-Library.Word" "HOL-Library.Monad_Syntax" "HOL-Library.Log_Nat"
begin

text \<open>
  Shared vocabulary of the development.

  The fixed-width integers of the source are words: \<open>uint64\<close> is \<^typ>\<open>64 word\<close>, a byte is
  \<^typ>\<open>8 word\<close>. The two array types of \<^verbatim>\<open>types/types.go\<close>, \<^verbatim>\<open>Hash [32]byte\<close> and
  \<^verbatim>\<open>Address [20]byte\<close>, are read as big-endian numbers, so they are \<^typ>\<open>256 word\<close> and
  \<^typ>\<open>160 word\<close>: equality of arrays is equality of words, \<^verbatim>\<open>BytesToHash(x.Bytes())\<close> keeps
  the low 256 bits of \<^verbatim>\<open>x\<close>, and \<^verbatim>\<open>x.SetBytes(h.Bytes())\<close> is \<^term>\<open>uint h\<close>.

  The second part is Go's \<^verbatim>\<open>math/big\<close>, as far as the sources use it: a \<^verbatim>\<open>*big.Int\<close> is an
  \<^typ>\<open>int\<close> (a nil pointer is the \<^const>\<open>None\<close> of an option where the code distinguishes it).
  \<^verbatim>\<open>And\<close>, \<^verbatim>\<open>Or\<close>, \<^verbatim>\<open>Xor\<close>, \<^verbatim>\<open>Not\<close>, \<^verbatim>\<open>Lsh\<close>, \<^verbatim>\<open>Rsh\<close> and \<^verbatim>\<open>Bit\<close> act on the two's
  complement of a \<^verbatim>\<open>big.Int\<close>, as HOL's bit operations on \<^typ>\<open>int\<close> do.
\<close>

unbundle bit_operations_syntax

type_synonym byte = "8 word"
type_synonym uint64 = "64 word"
type_synonym hash = "256 word"
type_synonym address = "160 word"

named_theorems big_defs "definitions of the math/big operations"
named_theorems word_bounds "bounds on words read as numbers"

subsection \<open>Go's \<^verbatim>\<open>math/big\<close>\<close>

definition big_BitLen :: "int \<Rightarrow> nat" where
  "big_BitLen x = floorlog 2 (nat \<bar>x\<bar>)"

definition big_Uint64 :: "int \<Rightarrow> uint64" where
  "big_Uint64 x = word_of_int \<bar>x\<bar>"

definition big_IsUint64 :: "int \<Rightarrow> bool" where
  "big_IsUint64 x \<longleftrightarrow> 0 \<le> x \<and> x < 2 ^ 64"

text \<open>\<^verbatim>\<open>Int64\<close> takes the low 64 bits of the magnitude as an int64 and negates it for a negative
  number, again in 64 bits.\<close>

definition big_Int64 :: "int \<Rightarrow> int" where
  "big_Int64 x = (let v = (word_of_int \<bar>x\<bar> :: uint64) in sint (if x < 0 then - v else v))"

definition big_IsInt64 :: "int \<Rightarrow> bool" where
  "big_IsInt64 x \<longleftrightarrow> - (2 ^ 63) \<le> x \<and> x < 2 ^ 63"

text \<open>\<^verbatim>\<open>Div\<close> and \<^verbatim>\<open>Mod\<close> are Euclidean (the remainder is never negative), \<^verbatim>\<open>Quo\<close> truncates.
  All three panic on a zero divisor, which the callers exclude or the model makes an error.\<close>

definition big_Div :: "int \<Rightarrow> int \<Rightarrow> int" where
  "big_Div a b = (if 0 < b then a div b else - (a div (- b)))"

definition big_Mod :: "int \<Rightarrow> int \<Rightarrow> int" where
  "big_Mod a b = a mod \<bar>b\<bar>"

definition big_Quo :: "int \<Rightarrow> int \<Rightarrow> int" where
  "big_Quo a b = sgn a * sgn b * (\<bar>a\<bar> div \<bar>b\<bar>)"

text \<open>\<^verbatim>\<open>Bits\<close> is the magnitude as little-endian 64-bit limbs without leading zero limbs.\<close>

fun big_limbs :: "nat \<Rightarrow> uint64 list" where
  "big_limbs n = (if n = 0 then [] else of_nat (n mod 2 ^ 64) # big_limbs (n div 2 ^ 64))"

declare big_limbs.simps [simp del]

definition big_Bits :: "int \<Rightarrow> uint64 list" where
  "big_Bits x = big_limbs (nat \<bar>x\<bar>)"

text \<open>\<^verbatim>\<open>SetBytes\<close> reads a big-endian byte string.\<close>

definition big_SetBytes :: "byte list \<Rightarrow> int" where
  "big_SetBytes bs = foldl (\<lambda>acc b. acc * 256 + uint b) 0 bs"

lemmas [big_defs] =
  big_BitLen_def big_Uint64_def big_IsUint64_def big_Int64_def big_IsInt64_def
  big_Div_def big_Mod_def big_Quo_def big_Bits_def big_SetBytes_def

text \<open>The converse for a fixed width: the \<open>n\<close> low bytes, most significant first.\<close>

definition be_bytes :: "nat \<Rightarrow> int \<Rightarrow> byte list" where
  "be_bytes n x = map (\<lambda>i. word_of_int (x div 256 ^ i)) (rev [0..<n])"

subsection \<open>Slices\<close>

text \<open>\<^verbatim>\<open>xs[i:j]\<close> panics outside its bounds; a copy into a slice writes at a position.\<close>

definition slice :: "'a list \<Rightarrow> nat \<Rightarrow> nat \<Rightarrow> 'a list option" where
  "slice xs i j = (if i \<le> j \<and> j \<le> length xs then Some (take (j - i) (drop i xs)) else None)"

definition overwrite :: "'a list \<Rightarrow> nat \<Rightarrow> 'a list \<Rightarrow> 'a list" where
  "overwrite xs i ys = take i xs @ ys @ drop (i + length ys) xs"

subsection \<open>Facts about them\<close>

lemma big_BitLen_le_iff: "big_BitLen x \<le> n \<longleftrightarrow> \<bar>x\<bar> < 2 ^ n"
  by (simp add: big_BitLen_def floorlog_le_iff nat_less_iff)

lemma big_BitLen_gt_iff: "n < big_BitLen x \<longleftrightarrow> 2 ^ n \<le> \<bar>x\<bar>"
  using big_BitLen_le_iff [of x n] by auto

lemma big_SetBytes_Nil [simp]: "big_SetBytes [] = 0"
  by (simp add: big_SetBytes_def)

lemma big_SetBytes_snoc [simp]: "big_SetBytes (bs @ [b]) = big_SetBytes bs * 256 + uint b"
  by (simp add: big_SetBytes_def)

lemma big_SetBytes_nonneg [simp]: "0 \<le> big_SetBytes bs"
  by (induction bs rule: rev_induct) auto

lemma uint_byte_less [word_bounds]: "uint (b :: byte) < 256"
  using uint_lt2p [of b] by simp

lemma big_SetBytes_less: "big_SetBytes bs < 256 ^ length bs"
proof (induction bs rule: rev_induct)
  case (snoc b bs)
  have "big_SetBytes bs * 256 + uint b < (big_SetBytes bs + 1) * 256"
    using uint_byte_less [of b] by simp
  also have "\<dots> \<le> 256 ^ length bs * 256"
    using snoc by simp
  finally show ?case by simp
qed simp

lemma be_bytes_0 [simp]: "be_bytes 0 x = []"
  by (simp add: be_bytes_def)

lemma be_bytes_Suc: "be_bytes (Suc n) x = be_bytes n (x div 256) @ [word_of_int x]"
proof -
  have "rev [0..<Suc n] = map Suc (rev [0..<n]) @ [0]"
    by (simp only: rev_map [symmetric] map_Suc_upt) (simp add: upt_conv_Cons del: upt_Suc)
  then show ?thesis
    by (simp add: be_bytes_def div_mult2_eq zdiv_zmult2_eq del: upt_Suc)
qed

lemma length_be_bytes [simp]: "length (be_bytes n x) = n"
  by (simp add: be_bytes_def)

text \<open>Reading the bytes back.\<close>

lemma big_SetBytes_be_bytes: "big_SetBytes (be_bytes n x) = x mod 256 ^ n"
proof (induction n arbitrary: x)
  case (Suc n)
  have "uint (word_of_int x :: byte) = x mod 256" by (simp add: uint_word_of_int)
  then show ?case
    by (simp add: be_bytes_Suc Suc zmod_zmult2_eq)
qed simp

lemma uint_big_Uint64: "big_IsUint64 x \<Longrightarrow> uint (big_Uint64 x) = x"
  by (simp add: big_defs uint_word_of_int)

lemma unat_big_Uint64: "big_IsUint64 x \<Longrightarrow> unat (big_Uint64 x) = nat x"
  by (simp add: uint_big_Uint64 unat_eq_nat_uint)

lemma slice_eq_Some_iff:
  "slice xs i j = Some ys \<longleftrightarrow> i \<le> j \<and> j \<le> length xs \<and> ys = take (j - i) (drop i xs)"
  by (auto simp: slice_def)

lemma length_overwrite [simp]: "i + length ys \<le> length xs \<Longrightarrow> length (overwrite xs i ys) = length xs"
  by (simp add: overwrite_def)

lemma big_Int64_id: "0 \<le> x \<Longrightarrow> x < 2 ^ 63 \<Longrightarrow> big_Int64 x = x"
  by (simp add: big_Int64_def Let_def sint_sbintrunc' signed_take_bit_int_eq_self)

subsection \<open>Words as numbers\<close>

lemma div_eq_minus_one: "- d \<le> x \<Longrightarrow> x < 0 \<Longrightarrow> (x :: int) div d = - 1"
  by (rule int_div_pos_eq [where r = "x + d"]) simp_all

lemma unat_word_of_int64: "0 \<le> k \<Longrightarrow> k < 2 ^ 64 \<Longrightarrow> unat (word_of_int k :: uint64) = nat k"
  by (simp add: unat_eq_nat_uint uint_word_of_int)

lemma unat_add_below:
  fixes a b c :: "'a::len word"
  shows "unat a + unat b \<le> unat c \<Longrightarrow> unat (a + b) = unat a + unat b"
  by (rule unat_add_lem [THEN iffD1]) (rule le_less_trans [OF _ unsigned_less])

lemma unat_plus: "unat (a :: uint64) + unat b < 2 ^ 64 \<Longrightarrow> unat (a + b) = unat a + unat b"
  by (rule unat_add_lem [THEN iffD1]) simp

lemma int_unat: "int (unat w) = uint w"
  by simp

lemma unat_div_two_le: "unat ((w :: uint64) div 2) \<le> unat w"
  by (simp add: unat_div)

end
