(* ===== verification/Runtime.thy ===== *)
theory Runtime
  imports Prelude
begin

text \<open>
  The vocabulary of \<^verbatim>\<open>state/runtime/runtime.go\<close> and \<^verbatim>\<open>chain/params.go\<close>: the fork schedule, the
  transaction context, a contract frame, an execution result with its gas bookkeeping, and the
  \<^verbatim>\<open>Host\<close> interface through which the virtual machine reaches the state.

  The host is a record of operations over a host state \<open>'h\<close>: the methods that may change the host
  return its next state. \<open>Callx\<close> runs a nested frame; its result is \<^const>\<open>None\<close> where the nested
  run does not return. The tracer of the context only observes a run and is left out.
\<close>

subsection \<open>Forks\<close>

record Forks =
  f_Homestead :: "uint64 option"
  f_Byzantium :: "uint64 option"
  f_Constantinople :: "uint64 option"
  f_Petersburg :: "uint64 option"
  f_Istanbul :: "uint64 option"
  f_London :: "uint64 option"
  f_EIP150 :: "uint64 option"
  f_EIP158 :: "uint64 option"
  f_EIP155 :: "uint64 option"

record ForksInTime =
  Homestead :: bool
  Byzantium :: bool
  Constantinople :: bool
  Petersburg :: bool
  Istanbul :: bool
  London :: bool
  EIP150 :: bool
  EIP158 :: bool
  EIP155 :: bool

definition Fork_Active :: "uint64 \<Rightarrow> uint64 \<Rightarrow> bool" where
  "Fork_Active f block \<longleftrightarrow> f \<le> block"

definition Forks_active :: "uint64 option \<Rightarrow> uint64 \<Rightarrow> bool" where
  "Forks_active ff block = (case ff of None \<Rightarrow> False | Some f \<Rightarrow> Fork_Active f block)"

definition Forks_At :: "Forks \<Rightarrow> uint64 \<Rightarrow> ForksInTime" where
  "Forks_At f block =
    \<lparr> Homestead = Forks_active (f_Homestead f) block,
      Byzantium = Forks_active (f_Byzantium f) block,
      Constantinople = Forks_active (f_Constantinople f) block,
      Petersburg = Forks_active (f_Petersburg f) block,
      Istanbul = Forks_active (f_Istanbul f) block,
      London = Forks_active (f_London f) block,
      EIP150 = Forks_active (f_EIP150 f) block,
      EIP158 = Forks_active (f_EIP158 f) block,
      EIP155 = Forks_active (f_EIP155 f) block \<rparr>"

definition AllForksEnabled :: Forks where
  "AllForksEnabled =
    \<lparr> f_Homestead = Some 0, f_Byzantium = Some 0, f_Constantinople = Some 0,
      f_Petersburg = Some 0, f_Istanbul = Some 0, f_London = Some 0,
      f_EIP150 = Some 0, f_EIP158 = Some 0, f_EIP155 = Some 0 \<rparr>"

subsection \<open>Errors, contexts, frames and results\<close>

datatype error =
    ErrOutOfGas | ErrStackOverflow | ErrStackUnderflow | ErrNotEnoughFunds
  | ErrInsufficientBalance | ErrMaxCodeSizeExceeded | ErrContractAddressCollision
  | ErrDepth | ErrExecutionReverted | ErrCodeStoreOutOfGas | ErrUnauthorizedCaller
  | ErrInvalidInputData | ErrNotAuth
  | errGasUintOverflow | errWriteProtection | errInvalidJump | errOpCodeNotFound
  | errReturnDataOutOfBounds
  | errNoFunctionSignature | errInputTooShort | errFunctionNotFound
  | errCallerNotAuthorized | errRuntimeNotFound
  | errPrecompile string

record TxContext =
  GasPrice :: hash
  Origin :: address
  Coinbase :: address
  Number :: int
  Timestamp :: int
  GasLimit :: int
  ChainID :: int
  Difficulty :: hash

datatype StorageStatus =
  StorageUnchanged | StorageModified | StorageModifiedAgain | StorageAdded | StorageDeleted

datatype CallType = Call | CallCode | DelegateCall | StaticCall | Create | Create2

record Contract =
  c_Code :: "byte list"
  c_Type :: CallType
  c_CodeAddress :: address
  c_Address :: address
  c_Origin :: address
  c_Caller :: address
  c_Depth :: int
  c_Value :: "int option"
  c_Input :: "byte list"
  c_Gas :: uint64
  c_Static :: bool

definition NewContract ::
  "int \<Rightarrow> address \<Rightarrow> address \<Rightarrow> address \<Rightarrow> int option \<Rightarrow> uint64 \<Rightarrow> byte list \<Rightarrow> Contract" where
  "NewContract depth origin from to val gs code =
    \<lparr> c_Code = code, c_Type = Call, c_CodeAddress = to, c_Address = to, c_Origin = origin,
      c_Caller = from, c_Depth = depth, c_Value = val, c_Input = [], c_Gas = gs,
      c_Static = False \<rparr>"

definition NewContractCreation ::
  "int \<Rightarrow> address \<Rightarrow> address \<Rightarrow> address \<Rightarrow> int option \<Rightarrow> uint64 \<Rightarrow> byte list \<Rightarrow> Contract" where
  "NewContractCreation depth origin from to val gs code =
    NewContract depth origin from to val gs code"

definition NewContractCall ::
  "int \<Rightarrow> address \<Rightarrow> address \<Rightarrow> address \<Rightarrow> int option \<Rightarrow> uint64 \<Rightarrow> byte list \<Rightarrow> byte list
    \<Rightarrow> Contract" where
  "NewContractCall depth origin from to val gs code inp =
    (NewContract depth origin from to val gs code)\<lparr>c_Input := inp\<rparr>"

record ExecutionResult =
  ReturnValue :: "byte list"
  GasLeft :: uint64
  GasUsed :: uint64
  Err :: "error option"
  ResAddress :: address

definition Succeeded :: "ExecutionResult \<Rightarrow> bool" where
  "Succeeded r \<longleftrightarrow> Err r = None"

definition Failed :: "ExecutionResult \<Rightarrow> bool" where
  "Failed r \<longleftrightarrow> Err r \<noteq> None"

definition Reverted :: "ExecutionResult \<Rightarrow> bool" where
  "Reverted r \<longleftrightarrow> Err r = Some ErrExecutionReverted"

text \<open>\<^verbatim>\<open>UpdateGasUsed\<close> settles a transaction: what was not left is used, and half of it at most is
  refunded.\<close>

definition UpdateGasUsed :: "ExecutionResult \<Rightarrow> uint64 \<Rightarrow> uint64 \<Rightarrow> ExecutionResult" where
  "UpdateGasUsed r gasLimit refund =
    (let used = gasLimit - GasLeft r;
         maxRefund = used div 2;
         refund' = (if maxRefund < refund then maxRefund else refund)
     in r\<lparr>GasLeft := GasLeft r + refund', GasUsed := used - refund'\<rparr>)"

text \<open>A result literal of the source that names only \<open>GasLeft\<close> and \<open>Err\<close>.\<close>

abbreviation result_err :: "uint64 \<Rightarrow> error \<Rightarrow> ExecutionResult" where
  "result_err left e \<equiv>
    \<lparr> ReturnValue = [], GasLeft = left, GasUsed = 0, Err = Some e, ResAddress = 0 \<rparr>"

subsection \<open>The host interface\<close>

record 'h Host =
  h_AccountExists :: "'h \<Rightarrow> address \<Rightarrow> bool"
  h_GetStorage :: "'h \<Rightarrow> address \<Rightarrow> hash \<Rightarrow> hash"
  h_SetStorage :: "'h \<Rightarrow> address \<Rightarrow> hash \<Rightarrow> hash \<Rightarrow> ForksInTime \<Rightarrow> StorageStatus \<times> 'h"
  h_GetBalance :: "'h \<Rightarrow> address \<Rightarrow> int"
  h_GetCodeSize :: "'h \<Rightarrow> address \<Rightarrow> nat \<times> 'h"
  h_GetCodeHash :: "'h \<Rightarrow> address \<Rightarrow> hash"
  h_GetCode :: "'h \<Rightarrow> address \<Rightarrow> byte list \<times> 'h"
  h_Selfdestruct :: "'h \<Rightarrow> address \<Rightarrow> address \<Rightarrow> 'h"
  h_GetTxContext :: "'h \<Rightarrow> TxContext"
  h_GetBlockHash :: "'h \<Rightarrow> int \<Rightarrow> hash"
  h_EmitLog :: "'h \<Rightarrow> address \<Rightarrow> hash list \<Rightarrow> byte list \<Rightarrow> 'h"
  h_Callx :: "'h \<Rightarrow> Contract \<Rightarrow> (ExecutionResult \<times> 'h) option"
  h_Empty :: "'h \<Rightarrow> address \<Rightarrow> bool"
  h_GetNonce :: "'h \<Rightarrow> address \<Rightarrow> uint64"

lemma Forks_At_AllForksEnabled [simp]:
  "Forks_At AllForksEnabled n = \<lparr> Homestead = True, Byzantium = True, Constantinople = True,
     Petersburg = True, Istanbul = True, London = True, EIP150 = True, EIP158 = True, EIP155 = True \<rparr>"
  by (simp add: Forks_At_def AllForksEnabled_def Forks_active_def Fork_Active_def)

subsection \<open>The gas settlement\<close>

lemma UpdateGasUsed_conserves:
  assumes "GasLeft r \<le> gasLimit"
  shows "unat (GasLeft (UpdateGasUsed r gasLimit refund))
    + unat (GasUsed (UpdateGasUsed r gasLimit refund)) = unat gasLimit"
proof -
  define used where "used = gasLimit - GasLeft r"
  define ref where "ref = (if used div 2 < refund then used div 2 else refund)"
  have used: "unat used = unat gasLimit - unat (GasLeft r)"
    using assms by (simp add: used_def unat_sub)
  have left: "unat (GasLeft r) \<le> unat gasLimit"
    using assms by (simp add: word_le_nat_alt)
  have "unat ref \<le> unat (used div 2)"
    by (auto simp: ref_def word_le_nat_alt [symmetric])
  then have ref: "unat ref \<le> unat used"
    using unat_div_two_le [of used] by linarith
  then have "unat (GasLeft r + ref) = unat (GasLeft r) + unat ref"
    using used left by (intro unat_add_below [where c = gasLimit]) linarith
  moreover have "unat (used - ref) = unat used - unat ref"
    using ref by (simp add: unat_sub word_le_nat_alt)
  moreover have "UpdateGasUsed r gasLimit refund
      = r\<lparr>GasLeft := GasLeft r + ref, GasUsed := used - ref\<rparr>"
    by (simp only: UpdateGasUsed_def Let_def ref_def used_def)
  ultimately show ?thesis
    using ref used left by simp
qed

end
