(* ===== verification/EvmState.thy ===== *)
theory EvmState
  imports Runtime
begin

text \<open>
  The machine state of the virtual machine: \<^verbatim>\<open>state/runtime/evm/state.go\<close> and \<^verbatim>\<open>bitmap.go\<close>.

  The operand stack of the source is a slice with a stack pointer \<^verbatim>\<open>sp\<close>; slots above \<^verbatim>\<open>sp\<close> are
  spare \<^verbatim>\<open>big.Int\<close>s that every push overwrites before anything reads them. The model keeps the live
  part, \<^verbatim>\<open>stack[:sp]\<close>, top first, so \<^verbatim>\<open>sp\<close> is its length. The scratch buffer \<^verbatim>\<open>tmp\<close> is a local
  value of the instructions that use it. A Go panic (a nil operand, an index out of range) is the
  result \<^const>\<open>None\<close>.
\<close>

subsection \<open>The jump-destination bitmap (\<^verbatim>\<open>bitmap.go\<close>)\<close>

definition isPushOp :: "byte \<Rightarrow> bool" where
  "isPushOp i \<longleftrightarrow> drop_bit 5 i = 3"

definition bitmap_isSet :: "byte list \<Rightarrow> nat \<Rightarrow> bool option" where
  "bitmap_isSet buf i =
    (if i div 8 < length buf then Some (buf ! (i div 8) AND push_bit (i mod 8) 1 \<noteq> 0) else None)"

definition bitmap_set :: "byte list \<Rightarrow> nat \<Rightarrow> byte list option" where
  "bitmap_set buf i =
    (if i div 8 < length buf
     then Some (buf[i div 8 := buf ! (i div 8) OR push_bit (i mod 8) 1]) else None)"

definition ExtendByteSlice :: "byte list \<Rightarrow> nat \<Rightarrow> byte list" where
  "ExtendByteSlice b needLength = take needLength (b @ replicate (needLength - length b) 0)"

function setCode_loop :: "byte list \<Rightarrow> nat \<Rightarrow> byte list \<Rightarrow> byte list option" where
  "setCode_loop code i buf =
    (if i < length code then
       (let c = code ! i in
        if isPushOp c then setCode_loop code (i + (unat c - 0x60 + 2)) buf
        else if c = 0x5B then
          (case bitmap_set buf i of None \<Rightarrow> None | Some buf' \<Rightarrow> setCode_loop code (i + 1) buf')
        else setCode_loop code (i + 1) buf)
     else Some buf)"
  by pat_completeness auto
termination
  by (relation "measure (\<lambda>(code, i, buf). length code - i)") auto

declare setCode_loop.simps [simp del]

definition setCode :: "byte list \<Rightarrow> byte list \<Rightarrow> byte list option" where
  "setCode buf code = setCode_loop code 0 (ExtendByteSlice buf (length code div 8 + 1))"

subsection \<open>The state\<close>

definition stackSize :: nat where
  "stackSize = 1024"

record 'h state =
  ip :: int
  code :: "byte list"
  host :: 'h
  msg :: Contract
  config :: ForksInTime
  memory :: "byte list"
  lastGasCost :: uint64
  stack :: "int list"
  err :: "error option"
  stop :: bool
  gas :: uint64
  currentConsumedGas :: uint64
  bitmap :: "byte list"
  returnData :: "byte list"
  ret :: "byte list"

text \<open>The state in which the runtime starts a frame (\<^verbatim>\<open>acquireState\<close> and the assignments of
  \<^verbatim>\<open>evm.go\<close>), and such a state for examples: no code, a thousand gas, every fork active.\<close>

definition acquireState :: "'h \<Rightarrow> Contract \<Rightarrow> ForksInTime \<Rightarrow> byte list \<Rightarrow> 'h state" where
  "acquireState h k f bm =
    \<lparr> ip = 0, code = c_Code k, host = h, msg = k, config = f, memory = [], lastGasCost = 0,
      stack = [], err = None, stop = False, gas = c_Gas k, currentConsumedGas = 0, bitmap = bm,
      returnData = [], ret = [] \<rparr>"

abbreviation fresh :: "unit state" where
  "fresh \<equiv> acquireState () (NewContract 1 0 0 0 None 1000 []) (Forks_At AllForksEnabled 0) []"

abbreviation sp :: "'h state \<Rightarrow> nat" where
  "sp c \<equiv> length (stack c)"

definition Halt :: "'h state \<Rightarrow> 'h state" where
  "Halt c = c\<lparr>stop := True\<rparr>"

definition exit :: "error option \<Rightarrow> 'h state \<Rightarrow> 'h state" where
  "exit e c = (case e of None \<Rightarrow> c | Some _ \<Rightarrow> c\<lparr>stop := True, err := e\<rparr>)"

definition push :: "int \<Rightarrow> 'h state \<Rightarrow> 'h state" where
  "push v c = c\<lparr>stack := v # stack c\<rparr>"

definition stackAtLeast :: "nat \<Rightarrow> 'h state \<Rightarrow> bool" where
  "stackAtLeast n c \<longleftrightarrow> n \<le> sp c"

definition state_top :: "'h state \<Rightarrow> int option" where
  "state_top c = (case stack c of [] \<Rightarrow> None | v # _ \<Rightarrow> Some v)"

definition pop :: "'h state \<Rightarrow> int option \<times> 'h state" where
  "pop c = (case stack c of [] \<Rightarrow> (None, c) | v # vs \<Rightarrow> (Some v, c\<lparr>stack := vs\<rparr>))"

text \<open>A popped operand that the code goes on to dereference: a nil one panics.\<close>

definition popv :: "'h state \<Rightarrow> (int \<times> 'h state) option" where
  "popv c = (case pop c of (None, _) \<Rightarrow> None | (Some v, c') \<Rightarrow> Some (v, c'))"

text \<open>Writing through the pointer that \<open>top\<close> returned.\<close>

definition set_top :: "int \<Rightarrow> 'h state \<Rightarrow> 'h state" where
  "set_top v c = c\<lparr>stack := v # tl (stack c)\<rparr>"

definition bigToHash :: "int \<Rightarrow> hash" where
  "bigToHash b = word_of_int \<bar>b\<bar>"

definition popHash :: "'h state \<Rightarrow> (hash \<times> 'h state) option" where
  "popHash c = do { (b, c) \<leftarrow> popv c; Some (bigToHash b, c) }"

definition popAddr :: "'h state \<Rightarrow> address \<times> 'h state" where
  "popAddr c =
    (case pop c of (None, c') \<Rightarrow> (0, c') | (Some b, c') \<Rightarrow> (word_of_int \<bar>b\<bar>, c'))"

definition peekAt :: "nat \<Rightarrow> 'h state \<Rightarrow> int option" where
  "peekAt n c = (if 0 < n \<and> n \<le> sp c then Some (stack c ! (n - 1)) else None)"

definition state_swap :: "nat \<Rightarrow> 'h state \<Rightarrow> 'h state option" where
  "state_swap n c =
    (if n < sp c
     then Some (c\<lparr>stack := (stack c)[0 := stack c ! n, n := stack c ! 0]\<rparr>) else None)"

definition validJumpdest :: "int \<Rightarrow> 'h state \<Rightarrow> bool option" where
  "validJumpdest dest c =
    (let udest = unat (big_Uint64 dest) in
     if 63 \<le> big_BitLen dest \<or> length (code c) \<le> udest then Some False
     else bitmap_isSet (bitmap c) udest)"

definition consumeGas :: "uint64 \<Rightarrow> 'h state \<Rightarrow> bool \<times> 'h state" where
  "consumeGas g c =
    (let c' = c\<lparr>currentConsumedGas := currentConsumedGas c + g\<rparr> in
     if gas c' < g then (False, exit (Some ErrOutOfGas) c')
     else (True, c'\<lparr>gas := gas c' - g\<rparr>))"

definition resetReturnData :: "'h state \<Rightarrow> 'h state" where
  "resetReturnData c = c\<lparr>returnData := []\<rparr>"

definition inStaticCall :: "'h state \<Rightarrow> bool" where
  "inStaticCall c = c_Static (msg c)"

subsection \<open>Memory\<close>

definition memory_cost :: "uint64 \<Rightarrow> uint64" where
  "memory_cost w = 3 * w + w * w div 512"

definition allocateMemory :: "int \<Rightarrow> int \<Rightarrow> 'h state \<Rightarrow> bool \<times> 'h state" where
  "allocateMemory offset sz c =
    (if \<not> big_IsUint64 offset \<or> \<not> big_IsUint64 sz
     then (False, exit (Some errReturnDataOutOfBounds) c)
     else if sz = 0 then (True, c)
     else
       (let o' = big_Uint64 offset; s = big_Uint64 sz in
        if 0xffffffffe0 < o' \<or> 0xffffffffe0 < s
        then (False, exit (Some errReturnDataOutOfBounds) c)
        else
          (let newSize = o' + s; currentSize = of_nat (length (memory c)) in
           if currentSize < newSize then
             (let w = (newSize + 31) div 32;
                  newCost = memory_cost w;
                  cost = newCost - lastGasCost c;
                  (ok, c') = consumeGas cost (c\<lparr>lastGasCost := newCost\<rparr>)
              in if \<not> ok then (False, exit (Some ErrOutOfGas) c')
                 else (True, c'\<lparr>memory := ExtendByteSlice (memory c') (unat (w * 32))\<rparr>))
           else (True, c))))"

definition get2 :: "byte list \<Rightarrow> int \<Rightarrow> int \<Rightarrow> 'h state \<Rightarrow> (byte list \<times> bool \<times> 'h state) option"
  where
  "get2 dst offset len c =
    (if len = 0 then Some ([], True, c)
     else
       (let (ok, c') = allocateMemory offset len c in
        if \<not> ok then Some ([], False, c')
        else do {
          bs \<leftarrow> slice (memory c') (unat (big_Uint64 offset))
                 (unat (big_Uint64 offset + big_Uint64 len));
          Some (dst @ bs, True, c') }))"

definition CurrentOpCode :: "'h state \<Rightarrow> (nat \<times> bool) option" where
  "CurrentOpCode c =
    (if int (length (code c)) \<le> ip c then Some (0, False)
     else if ip c < 0 then None
     else Some (unat (code c ! nat (ip c)), True))"

end
