(* ===== verification/EvmArith.thy ===== *)
theory EvmArith
  imports EvmState "HOL-Library.Signed_Division"
begin

text \<open>
  The arithmetic, comparison, bitwise and shift instructions of
  \<^verbatim>\<open>state/runtime/evm/instructions.go\<close>. The source computes on unbounded \<^verbatim>\<open>big.Int\<close>s and folds
  every result back with \<^verbatim>\<open>toU256\<close> and \<^verbatim>\<open>to256\<close>; each instruction is a value function on
  integers (\<open>u_\<dots>\<close>) run on the operand stack. The specification is a machine over \<^typ>\<open>256 word\<close>:
  the locale \<open>u256_binop\<close> is the contract between a value function and its word operation, and
  carries the stack behaviour of every binary instruction.
\<close>

subsection \<open>Folding into 256 bits\<close>

definition tt256 :: int where
  "tt256 = push_bit 256 1"

definition tt256m1 :: int where
  "tt256m1 = tt256 - 1"

definition toU256 :: "int \<Rightarrow> int" where
  "toU256 x = (if x < 0 \<or> 256 < big_BitLen x then x AND tt256m1 else x)"

definition to256 :: "int \<Rightarrow> int" where
  "to256 x = (if 255 < big_BitLen x then x - tt256 else x)"

subsection \<open>Running a value function on the stack\<close>

definition unop :: "(int \<Rightarrow> int) \<Rightarrow> 'h state \<Rightarrow> 'h state option" where
  "unop f c = do { a \<leftarrow> state_top c; Some (set_top (f a) c) }"

definition binop :: "(int \<Rightarrow> int \<Rightarrow> int) \<Rightarrow> 'h state \<Rightarrow> 'h state option" where
  "binop f c = do { (a, c) \<leftarrow> popv c; b \<leftarrow> state_top c; Some (set_top (f a b) c) }"

definition ternop :: "(int \<Rightarrow> int \<Rightarrow> int \<Rightarrow> int) \<Rightarrow> 'h state \<Rightarrow> 'h state option" where
  "ternop f c =
    do { (a, c) \<leftarrow> popv c; (b, c) \<leftarrow> popv c; z \<leftarrow> state_top c; Some (set_top (f a b z) c) }"

subsection \<open>Arithmetic\<close>

definition u_Add :: "int \<Rightarrow> int \<Rightarrow> int" where
  "u_Add a b = toU256 (a + b)"

definition u_Mul :: "int \<Rightarrow> int \<Rightarrow> int" where
  "u_Mul a b = toU256 (a * b)"

definition u_Sub :: "int \<Rightarrow> int \<Rightarrow> int" where
  "u_Sub a b = toU256 (a - b)"

definition u_Div :: "int \<Rightarrow> int \<Rightarrow> int" where
  "u_Div a b = (if b = 0 then 0 else toU256 (big_Div a b))"

definition u_SDiv :: "int \<Rightarrow> int \<Rightarrow> int" where
  "u_SDiv x y =
    (let a = to256 x; b = to256 y in
     if b = 0 then 0
     else (let neg = (sgn a \<noteq> sgn b); q = big_Div \<bar>a\<bar> \<bar>b\<bar> in toU256 (if neg then - q else q)))"

definition u_Mod :: "int \<Rightarrow> int \<Rightarrow> int" where
  "u_Mod a b = (if b = 0 then 0 else toU256 (big_Mod a b))"

definition u_SMod :: "int \<Rightarrow> int \<Rightarrow> int" where
  "u_SMod x y =
    (let a = to256 x; b = to256 y in
     if b = 0 then 0
     else (let neg = (sgn a < 0); r = big_Mod \<bar>a\<bar> \<bar>b\<bar> in toU256 (if neg then - r else r)))"

definition u_AddMod :: "int \<Rightarrow> int \<Rightarrow> int \<Rightarrow> int" where
  "u_AddMod a b z = (if z = 0 then 0 else toU256 (big_Mod (a + b) z))"

definition u_MulMod :: "int \<Rightarrow> int \<Rightarrow> int \<Rightarrow> int" where
  "u_MulMod a b z = (if z = 0 then 0 else toU256 (big_Mod (a * b) z))"

definition opAdd :: "'h state \<Rightarrow> 'h state option" where "opAdd = binop u_Add"
definition opMul :: "'h state \<Rightarrow> 'h state option" where "opMul = binop u_Mul"
definition opSub :: "'h state \<Rightarrow> 'h state option" where "opSub = binop u_Sub"
definition opDiv :: "'h state \<Rightarrow> 'h state option" where "opDiv = binop u_Div"
definition opSDiv :: "'h state \<Rightarrow> 'h state option" where "opSDiv = binop u_SDiv"
definition opMod :: "'h state \<Rightarrow> 'h state option" where "opMod = binop u_Mod"
definition opSMod :: "'h state \<Rightarrow> 'h state option" where "opSMod = binop u_SMod"
definition opAddMod :: "'h state \<Rightarrow> 'h state option" where "opAddMod = ternop u_AddMod"
definition opMulMod :: "'h state \<Rightarrow> 'h state option" where "opMulMod = ternop u_MulMod"

text \<open>\<open>EXP\<close> squares and multiplies over the 64-bit limbs of the exponent.\<close>

fun exp_bits :: "nat \<Rightarrow> uint64 \<Rightarrow> int \<Rightarrow> int \<Rightarrow> int \<times> int" where
  "exp_bits 0 d z x = (z, x)"
| "exp_bits (Suc i) d z x =
    exp_bits i (drop_bit 1 d) (if d AND 1 = 1 then toU256 (z * x) else z) (toU256 (x * x))"

fun exp_limbs :: "uint64 list \<Rightarrow> int \<Rightarrow> int \<Rightarrow> int" where
  "exp_limbs [] z x = z"
| "exp_limbs (d # ds) z x = (case exp_bits 64 d z x of (z', x') \<Rightarrow> exp_limbs ds z' x')"

definition u_Exp :: "int \<Rightarrow> int \<Rightarrow> int" where
  "u_Exp x y = exp_limbs (big_Bits y) 1 x"

definition opExp :: "'h state \<Rightarrow> 'h state option" where
  "opExp c = do {
     (x, c) \<leftarrow> popv c;
     y \<leftarrow> state_top c;
     (let g = (if EIP158 (config c) then 50 else 10);
          (ok, c) = consumeGas (of_nat ((big_BitLen y + 7) div 8) * g) c
      in if \<not> ok then Some c else Some (set_top (u_Exp x y) c)) }"

subsection \<open>Comparison and bitwise operations\<close>

definition u_bool :: "bool \<Rightarrow> int" where
  "u_bool p = (if p then 1 else 0)"

definition u_Byte :: "int \<Rightarrow> int \<Rightarrow> int" where
  "u_Byte x y =
    (let indx = big_Int64 x in
     if 31 < indx then 0
     else (let sh = (word_of_int ((31 - indx) * 8) :: uint64) in drop_bit (unat sh) y AND 255))"

definition opAnd :: "'h state \<Rightarrow> 'h state option" where "opAnd = binop (\<lambda>a b. a AND b)"
definition opOr :: "'h state \<Rightarrow> 'h state option" where "opOr = binop (\<lambda>a b. a OR b)"
definition opXor :: "'h state \<Rightarrow> 'h state option" where "opXor = binop (\<lambda>a b. a XOR b)"
definition opByte :: "'h state \<Rightarrow> 'h state option" where "opByte = binop u_Byte"
definition opNot :: "'h state \<Rightarrow> 'h state option" where "opNot = unop (\<lambda>a. toU256 (NOT a))"
definition opIsZero :: "'h state \<Rightarrow> 'h state option" where "opIsZero = unop (\<lambda>a. u_bool (a = 0))"
definition opEq :: "'h state \<Rightarrow> 'h state option" where "opEq = binop (\<lambda>a b. u_bool (a = b))"
definition opLt :: "'h state \<Rightarrow> 'h state option" where "opLt = binop (\<lambda>a b. u_bool (a < b))"
definition opGt :: "'h state \<Rightarrow> 'h state option" where "opGt = binop (\<lambda>a b. u_bool (b < a))"
definition opSlt :: "'h state \<Rightarrow> 'h state option" where
  "opSlt = binop (\<lambda>a b. u_bool (to256 a < to256 b))"
definition opSgt :: "'h state \<Rightarrow> 'h state option" where
  "opSgt = binop (\<lambda>a b. u_bool (to256 b < to256 a))"

definition u_SignExtension :: "int \<Rightarrow> int \<Rightarrow> int" where
  "u_SignExtension ext x =
    (let n = unat (big_Uint64 ext * 8 + 7);
         mask = push_bit n 1 - 1
     in toU256 (if bit x n then x OR NOT mask else x AND mask))"

text \<open>\<open>SIGNEXTEND\<close> reads its second operand with \<^verbatim>\<open>top\<close> and tolerates that there is none.\<close>

definition opSignExtension :: "'h state \<Rightarrow> 'h state option" where
  "opSignExtension c = do {
     (ext, c) \<leftarrow> popv c;
     (if 32 < ext then Some c
      else (case state_top c of
              None \<Rightarrow> Some c
            | Some x \<Rightarrow> Some (set_top (u_SignExtension ext x) c))) }"

subsection \<open>Shifts\<close>

definition equalOrOverflowsUint256 :: "int \<Rightarrow> bool" where
  "equalOrOverflowsUint256 b \<longleftrightarrow> 8 < big_BitLen b"

definition u_Shl :: "int \<Rightarrow> int \<Rightarrow> int" where
  "u_Shl shift v =
    (if equalOrOverflowsUint256 shift then 0 else toU256 (push_bit (unat (big_Uint64 shift)) v))"

definition u_Shr :: "int \<Rightarrow> int \<Rightarrow> int" where
  "u_Shr shift v =
    (if equalOrOverflowsUint256 shift then 0 else toU256 (drop_bit (unat (big_Uint64 shift)) v))"

definition u_Sar :: "int \<Rightarrow> int \<Rightarrow> int" where
  "u_Sar shift v0 =
    (let v = to256 v0 in
     if equalOrOverflowsUint256 shift then (if 0 \<le> v then 0 else tt256m1)
     else toU256 (drop_bit (unat (big_Uint64 shift)) v))"

definition constantinople_op :: "('h state \<Rightarrow> 'h state option) \<Rightarrow> 'h state \<Rightarrow> 'h state option" where
  "constantinople_op f c =
    (if \<not> Constantinople (config c) then Some (exit (Some errOpCodeNotFound) c) else f c)"

definition opShl :: "'h state \<Rightarrow> 'h state option" where "opShl = constantinople_op (binop u_Shl)"
definition opShr :: "'h state \<Rightarrow> 'h state option" where "opShr = constantinople_op (binop u_Shr)"
definition opSar :: "'h state \<Rightarrow> 'h state option" where "opSar = constantinople_op (binop u_Sar)"

subsection \<open>The folds are the two readings of a 256-bit word\<close>

lemma tt256_eq: "tt256 = 2 ^ 256"
  by (simp add: tt256_def push_bit_eq_mult)

lemma tt256m1_eq: "tt256m1 = mask 256"
  by (simp add: tt256m1_def tt256_eq mask_eq_exp_minus_1)

lemma toU256_mod: "toU256 x = x mod 2 ^ 256"
proof (cases "x < 0 \<or> 256 < big_BitLen x")
  case True
  then have "toU256 x = take_bit 256 x"
    by (simp add: toU256_def tt256m1_eq take_bit_eq_mask)
  then show ?thesis by (simp only: take_bit_eq_mod)
next
  case False
  then have "0 \<le> x" "x < 2 ^ 256"
    using big_BitLen_le_iff [of x 256] by auto
  with False show ?thesis by (simp add: toU256_def)
qed

lemma toU256_uint: "toU256 x = uint (word_of_int x :: hash)"
  by (simp add: toU256_mod uint_word_of_int)

lemma uint_hash_less [word_bounds]: "uint (w :: hash) < 2 ^ 256"
  using uint_lt2p [of w] by simp

lemma take_bit_uint_hash [simp]: "take_bit 256 (uint (w :: hash)) = uint w"
  using uint_hash_less [of w] by (intro take_bit_int_eq_self) simp_all

lemma sint_hash: "sint (w :: hash) = (if uint w < 2 ^ 255 then uint w else uint w - 2 ^ 256)"
proof -
  have "bit (uint w) 255 \<longleftrightarrow> \<not> uint w < 2 ^ 255"
  proof -
    have "bit (uint w) 255 \<longleftrightarrow> odd (uint w div 2 ^ 255)"
      by (simp only: bit_iff_odd)
    moreover have "uint w div 2 ^ 255 = (if uint w < 2 ^ 255 then 0 else 1)"
      using uint_hash_less [of w]
      by (auto intro!: div_pos_pos_trivial int_div_pos_eq [where r = "uint w - 2 ^ 255"])
    ultimately show ?thesis by simp
  qed
  moreover have "sint w = take_bit 256 (uint w) - 2 ^ 256 * of_bool (bit (uint w) 255)"
    by (simp add: sint_uint signed_take_bit_eq_take_bit_minus)
  ultimately show ?thesis by simp
qed

lemma to256_sint: "to256 (uint (w :: hash)) = sint w"
proof -
  have "255 < big_BitLen (uint w) \<longleftrightarrow> 2 ^ 255 \<le> uint w"
    by (simp add: big_BitLen_gt_iff)
  then show ?thesis
    by (auto simp: to256_def tt256_eq sint_hash)
qed

text \<open>A value function in range: every operand is the unsigned reading of a word.\<close>

lemmas fold256 = toU256_uint to256_sint

subsection \<open>The contract of a binary instruction\<close>

locale u256_binop =
  fixes f :: "int \<Rightarrow> int \<Rightarrow> int"
    and g :: "hash \<Rightarrow> hash \<Rightarrow> hash"
  assumes refines: "f (uint a) (uint b) = uint (g a b)"
begin

lemma run:
  assumes "stack c = map uint (a # b # ws :: hash list)"
  shows "binop f c = Some (c\<lparr>stack := map uint (g a b # ws)\<rparr>)"
  using assms
  by (simp add: binop_def popv_def pop_def state_top_def set_top_def refines)

lemma run_in_range:
  assumes "stack c = map uint (ws :: hash list)" "2 \<le> length ws"
  shows "\<exists>ws' :: hash list. length ws' = length ws - 1 \<and> binop f c = Some (c\<lparr>stack := map uint ws'\<rparr>)"
proof -
  from assms(2) obtain a b vs where ws: "ws = a # b # vs"
    by (metis Suc_le_length_iff numeral_2_eq_2)
  with assms(1) have "binop f c = Some (c\<lparr>stack := map uint (g a b # vs)\<rparr>)"
    by (intro run) simp
  with ws show ?thesis by (intro exI [of _ "g a b # vs"]) simp
qed

end

lemma uint_bool [simp]: "u_bool p = uint (if p then 1 else 0 :: hash)"
  by (simp add: u_bool_def)

interpretation op_add: u256_binop u_Add "(+)"
  by unfold_locales (simp add: u_Add_def fold256)

interpretation op_mul: u256_binop u_Mul "(*)"
  by unfold_locales (simp add: u_Mul_def fold256)

interpretation op_sub: u256_binop u_Sub "(-)"
  by unfold_locales (simp add: u_Sub_def fold256)

interpretation op_and: u256_binop "\<lambda>a b. a AND b" "\<lambda>a b. a AND b"
  by unfold_locales (simp add: unsigned_and_eq)

interpretation op_or: u256_binop "\<lambda>a b. a OR b" "\<lambda>a b. a OR b"
  by unfold_locales (simp add: unsigned_or_eq)

interpretation op_xor: u256_binop "\<lambda>a b. a XOR b" "\<lambda>a b. a XOR b"
  by unfold_locales (simp add: unsigned_xor_eq)

interpretation op_eq: u256_binop "\<lambda>a b. u_bool (a = b)" "\<lambda>a b. if a = b then 1 else 0"
  by unfold_locales (simp add: word_uint_eq_iff)

interpretation op_lt: u256_binop "\<lambda>a b. u_bool (a < b)" "\<lambda>a b. if a < b then 1 else 0"
  by unfold_locales (simp add: word_less_def)

interpretation op_gt: u256_binop "\<lambda>a b. u_bool (b < a)" "\<lambda>a b. if b < a then 1 else 0"
  by unfold_locales (simp add: word_less_def)

interpretation op_slt: u256_binop "\<lambda>a b. u_bool (to256 a < to256 b)" "\<lambda>a b. if a <s b then 1 else 0"
  by unfold_locales (simp add: word_sless_alt fold256)

interpretation op_sgt: u256_binop "\<lambda>a b. u_bool (to256 b < to256 a)" "\<lambda>a b. if b <s a then 1 else 0"
  by unfold_locales (simp add: word_sless_alt fold256)

lemma toU256_of_uint [simp]: "toU256 (uint (w :: hash)) = uint w"
  by (simp add: toU256_uint)

lemma uint_hash_pos_iff: "0 < uint (w :: hash) \<longleftrightarrow> w \<noteq> 0"
  using uint_0_iff [of w] uint_ge_0 [of w] by linarith

interpretation op_div: u256_binop u_Div "(div)"
proof
  fix a b :: hash
  have "u_Div (uint a) (uint b) = (if b = 0 then 0 else toU256 (uint (a div b)))"
    by (simp only: u_Div_def big_Div_def uint_0_iff uint_hash_pos_iff uint_div_distrib) simp
  then show "u_Div (uint a) (uint b) = uint (a div b)"
    by (simp only: toU256_of_uint split: if_split) simp
qed

interpretation op_mod: u256_binop u_Mod "\<lambda>a b. if b = 0 then 0 else a mod b"
proof
  fix a b :: hash
  have "u_Mod (uint a) (uint b) = (if b = 0 then 0 else toU256 (uint (a mod b)))"
    by (simp only: u_Mod_def big_Mod_def uint_0_iff uint_mod_distrib) simp
  then show "u_Mod (uint a) (uint b) = uint (if b = 0 then 0 else a mod b)"
    by (simp only: toU256_of_uint split: if_split) simp
qed

lemma sint_eq_0_iff: "sint (w :: hash) = 0 \<longleftrightarrow> w = 0"
  by (rule signed_eq_0_iff)

interpretation op_sdiv: u256_binop u_SDiv "\<lambda>a b. word_of_int (sint a sdiv sint b)"
proof
  fix a b :: hash
  have "big_Div \<bar>sint a\<bar> \<bar>sint b\<bar> = \<bar>sint a\<bar> div \<bar>sint b\<bar>"
    by (simp add: big_Div_def)
  then show "u_SDiv (uint a) (uint b) = uint (word_of_int (sint a sdiv sint b) :: hash)"
    by (auto simp: u_SDiv_def Let_def fold256 signed_divide_int_def sgn_if)
qed

interpretation op_smod: u256_binop u_SMod "\<lambda>a b. if b = 0 then 0 else word_of_int (sint a smod sint b)"
proof
  fix a b :: hash
  have "(if sgn (sint a) < 0 then - big_Mod \<bar>sint a\<bar> \<bar>sint b\<bar> else big_Mod \<bar>sint a\<bar> \<bar>sint b\<bar>)
      = sint a smod sint b"
    by (simp add: signed_modulo_int_def big_Mod_def sgn_if)
  then have "u_SMod (uint a) (uint b) = (if sint b = 0 then 0 else toU256 (sint a smod sint b))"
    by (simp only: u_SMod_def Let_def to256_sint)
  then show "u_SMod (uint a) (uint b)
      = uint (if b = 0 then 0 else word_of_int (sint a smod sint b) :: hash)"
    by (simp only: toU256_uint sint_eq_0_iff) simp
qed

subsection \<open>Shifts, bytes and sign extension\<close>

lemma equalOrOverflowsUint256_iff: "equalOrOverflowsUint256 (uint (s :: hash)) \<longleftrightarrow> 256 \<le> uint s"
  by (simp add: equalOrOverflowsUint256_def big_BitLen_gt_iff)

lemma unat_shift: "uint (s :: hash) < 256 \<Longrightarrow> unat (big_Uint64 (uint s)) = unat s"
  by (simp add: unat_big_Uint64 big_IsUint64_def)

lemma unat_ge_256: "256 \<le> uint (s :: hash) \<Longrightarrow> 256 \<le> unat s"
  using int_unat [of s] by linarith

interpretation op_shl: u256_binop u_Shl "\<lambda>s v. push_bit (unat s) v"
proof
  fix s v :: hash
  show "u_Shl (uint s) (uint v) = uint (push_bit (unat s) v)"
  proof (cases "256 \<le> uint s")
    case True
    then have "push_bit (unat s) v = 0"
      using unat_ge_256 [of s] by (intro push_bit_word_beyond) simp
    with True show ?thesis by (simp add: u_Shl_def equalOrOverflowsUint256_iff)
  next
    case False
    have "push_bit (unat s) (word_of_int (uint v) :: hash) = word_of_int (push_bit (unat s) (uint v))"
      by (rule push_bit_of_int)
    then have "toU256 (push_bit (unat s) (uint v)) = uint (push_bit (unat s) v)"
      by (simp only: toU256_uint word_of_int_uint)
    with False show ?thesis
      by (simp add: u_Shl_def equalOrOverflowsUint256_iff unat_shift)
  qed
qed

interpretation op_shr: u256_binop u_Shr "\<lambda>s v. drop_bit (unat s) v"
proof
  fix s v :: hash
  show "u_Shr (uint s) (uint v) = uint (drop_bit (unat s) v)"
  proof (cases "256 \<le> uint s")
    case True
    then have "drop_bit (unat s) v = 0"
      using unat_ge_256 [of s] by (intro drop_bit_word_beyond) simp
    with True show ?thesis by (simp add: u_Shr_def equalOrOverflowsUint256_iff)
  next
    case False
    have "uint (drop_bit (unat s) v) = drop_bit (unat s) (uint v)"
      by (simp add: unsigned_drop_bit_eq)
    then have "toU256 (drop_bit (unat s) (uint v)) = uint (drop_bit (unat s) v)"
      by (metis toU256_of_uint)
    with False show ?thesis
      by (simp add: u_Shr_def equalOrOverflowsUint256_iff unat_shift)
  qed
qed

interpretation op_sar: u256_binop u_Sar "\<lambda>s v. signed_drop_bit (unat s) v"
proof
  fix s v :: hash
  have fold: "toU256 (drop_bit (unat s) (sint v)) = uint (signed_drop_bit (unat s) v)"
    by (simp add: toU256_uint flip: sint_signed_drop_bit_eq)
  show "u_Sar (uint s) (uint v) = uint (signed_drop_bit (unat s) v)"
  proof (cases "256 \<le> uint s")
    case False
    with fold show ?thesis
      by (simp add: u_Sar_def to256_sint equalOrOverflowsUint256_iff unat_shift)
  next
    case True
    have range: "- (2 ^ 256) \<le> sint v" "sint v < 2 ^ 256"
      using sint_ge [of v] sint_lt [of v] by simp_all
    have "2 ^ 256 \<le> (2 :: int) ^ unat s"
      using unat_ge_256 [OF True] by (intro power_increasing) simp_all
    then have "drop_bit (unat s) (sint v) = (if 0 \<le> sint v then 0 else - 1)"
      using range by (auto simp: drop_bit_eq_div intro!: div_pos_pos_trivial div_eq_minus_one)
    with fold have "uint (signed_drop_bit (unat s) v) = (if 0 \<le> sint v then 0 else tt256m1)"
      by (auto simp: toU256_mod tt256m1_def tt256_eq)
    with True show ?thesis
      by (simp add: u_Sar_def to256_sint equalOrOverflowsUint256_iff)
  qed
qed

text \<open>
  \<open>SIGNEXTEND\<close>: byte \<open>e\<close> of \<open>x\<close>, counted from the low end, holds the sign; from byte 31 on
  there is nothing to extend.
\<close>

definition signextend_word :: "hash \<Rightarrow> hash \<Rightarrow> hash" where
  "signextend_word e x =
    (if 31 \<le> e then x else word_of_int (signed_take_bit (8 * unat e + 7) (uint x)))"

lemma or_not_mask: "(x :: int) OR NOT (mask n) = take_bit n x OR NOT (mask n)"
  by (rule bit_eqI) (auto simp: bit_simps)

lemma unat_signextend_bit:
  assumes "uint (e :: hash) \<le> 32"
  shows "unat (big_Uint64 (uint e) * 8 + 7) = 8 * unat e + 7"
proof -
  have "unat (big_Uint64 (uint e)) = unat e"
    using assms by (intro unat_shift) simp
  moreover have "unat e \<le> 32"
    using assms int_unat [of e] by linarith
  ultimately show ?thesis
    by (simp add: unat_word_ariths)
qed

lemma u_SignExtension_word:
  assumes "uint (e :: hash) \<le> 32"
  shows "u_SignExtension (uint e) (uint x) = uint (signextend_word e x)"
proof -
  let ?n = "8 * unat e + 7"
  have mask: "push_bit ?n 1 - 1 = (mask ?n :: int)"
    by (simp add: push_bit_eq_mult mask_eq_exp_minus_1)
  have "u_SignExtension (uint e) (uint x)
      = toU256 (if bit (uint x) ?n then uint x OR NOT (mask ?n) else uint x AND mask ?n)"
    by (simp only: u_SignExtension_def Let_def unat_signextend_bit [OF assms] mask)
  also have "\<dots> = toU256 (signed_take_bit ?n (uint x))"
    by (simp add: signed_take_bit_def or_not_mask [of "uint x"] take_bit_eq_mask [symmetric])
  finally have eq: "u_SignExtension (uint e) (uint x) = toU256 (signed_take_bit ?n (uint x))" .
  show ?thesis
  proof (cases "31 \<le> e")
    case False
    with eq show ?thesis by (simp add: signextend_word_def toU256_uint)
  next
    case True
    then have "255 \<le> ?n" by (simp add: word_le_nat_alt)
    then have "take_bit 256 (signed_take_bit ?n (uint x)) = take_bit 256 (uint x)"
      by (intro take_bit_signed_take_bit) simp
    then have "toU256 (signed_take_bit ?n (uint x)) = uint x"
      by (simp only: toU256_mod flip: take_bit_eq_mod) simp
    with eq True show ?thesis by (simp add: signextend_word_def)
  qed
qed

text \<open>\<open>BYTE\<close> on an index that fits an int64.\<close>

definition byte_word :: "hash \<Rightarrow> hash \<Rightarrow> hash" where
  "byte_word i v = (if i < 32 then drop_bit (8 * (31 - unat i)) v AND 255 else 0)"

lemma u_Byte_word:
  assumes "uint (i :: hash) < 2 ^ 63"
  shows "u_Byte (uint i) (uint v) = uint (byte_word i v)"
proof -
  have idx: "big_Int64 (uint i) = uint i"
    using assms by (intro big_Int64_id) simp_all
  show ?thesis
  proof (cases "31 < uint i")
    case True
    with idx show ?thesis by (simp add: u_Byte_def byte_word_def word_less_def)
  next
    case False
    then have lt: "unat i \<le> 31" using int_unat [of i] by linarith
    have "unat (word_of_int ((31 - uint i) * 8) :: uint64) = 8 * (31 - unat i)"
    proof -
      have "(31 - uint i) * 8 = int (8 * (31 - unat i))"
        using lt by (simp add: of_nat_diff)
      then show ?thesis
        by (simp only:) (subst unat_word_of_int64, simp_all)
    qed
    moreover have "i < 32" using False by (simp add: word_less_def)
    ultimately show ?thesis
      using idx False
      by (simp add: u_Byte_def byte_word_def unsigned_and_eq unsigned_drop_bit_eq)
  qed
qed

subsection \<open>Exponentiation\<close>

lemma odd_word64_iff: "(d :: uint64) AND 1 = 1 \<longleftrightarrow> odd (unat d)"
proof -
  have "unat (d AND 1) = unat d mod 2"
    by (simp add: and_one_eq unat_mod_distrib)
  then show ?thesis
    by (metis odd_iff_mod_2_eq_one unsigned_1 word_unat_eq_iff)
qed

lemma exp_bits_word:
  fixes z x :: hash
  shows "exp_bits n d (uint z) (uint x)
    = (uint (z * x ^ (unat d mod 2 ^ n)), uint (x ^ (2 ^ n)))"
proof (induction n arbitrary: d z x)
  case 0
  show ?case by simp
next
  case (Suc n)
  let ?z = "if d AND 1 = 1 then z * x else z"
  have "exp_bits (Suc n) d (uint z) (uint x) = exp_bits n (drop_bit 1 d) (uint ?z) (uint (x * x))"
    by (simp add: toU256_uint)
  also have "\<dots> = (uint (?z * (x * x) ^ (unat (drop_bit 1 d) mod 2 ^ n)), uint ((x * x) ^ 2 ^ n))"
    by (rule Suc.IH)
  also have "(x * x) ^ 2 ^ n = x ^ 2 ^ Suc n"
    by (simp add: power_mult_distrib flip: power_add mult_2)
  also have "?z * (x * x) ^ (unat (drop_bit 1 d) mod 2 ^ n) = z * x ^ (unat d mod 2 ^ Suc n)"
  proof -
    have "unat d mod 2 ^ Suc n = 2 * (unat d div 2 mod 2 ^ n) + unat d mod 2"
      by (simp add: mod_mult2_eq)
    moreover have "unat (drop_bit 1 d) = unat d div 2"
      by (simp add: unat_drop_bit_eq drop_bit_eq_div unat_div)
    moreover have "(x * x) ^ k = x ^ (2 * k)" for k
      by (simp add: power_mult power2_eq_square)
    ultimately show ?thesis
      by (auto simp: odd_word64_iff power_add mult_ac odd_iff_mod_2_eq_one even_iff_mod_2_eq_zero)
  qed
  finally show ?case .
qed

fun limbs_val :: "uint64 list \<Rightarrow> nat" where
  "limbs_val [] = 0"
| "limbs_val (d # ds) = unat d + 2 ^ 64 * limbs_val ds"

lemma limbs_val_big_limbs: "limbs_val (big_limbs n) = n"
proof (induction n rule: big_limbs.induct)
  case (1 n)
  then show ?case
    by (subst big_limbs.simps) (simp add: unat_of_nat)
qed

lemma exp_limbs_word:
  fixes z x :: hash
  shows "exp_limbs ds (uint z) (uint x) = uint (z * x ^ limbs_val ds)"
proof (induction ds arbitrary: z x)
  case (Cons d ds)
  have "unat d mod 2 ^ 64 = unat d"
    using unsigned_less [of d] by (intro mod_less) simp
  then have "exp_bits 64 d (uint z) (uint x) = (uint (z * x ^ unat d), uint (x ^ 2 ^ 64))"
    by (simp only: exp_bits_word)
  with Cons show ?case
    by (simp add: power_add power_mult mult.assoc)
qed simp

interpretation op_exp: u256_binop u_Exp "\<lambda>a b. a ^ unat b"
proof
  fix a b :: hash
  have "exp_limbs (big_Bits (uint b)) (uint (1 :: hash)) (uint a) = uint (a ^ unat b)"
    by (subst exp_limbs_word) (simp add: big_Bits_def limbs_val_big_limbs)
  then show "u_Exp (uint a) (uint b) = uint (a ^ unat b)"
    by (simp add: u_Exp_def)
qed

subsection \<open>The ternary instructions\<close>

definition addmod_word :: "hash \<Rightarrow> hash \<Rightarrow> hash \<Rightarrow> hash" where
  "addmod_word a b z = (if z = 0 then 0 else of_nat ((unat a + unat b) mod unat z))"

definition mulmod_word :: "hash \<Rightarrow> hash \<Rightarrow> hash \<Rightarrow> hash" where
  "mulmod_word a b z = (if z = 0 then 0 else of_nat (unat a * unat b mod unat z))"

lemma u_AddMod_word: "u_AddMod (uint a) (uint b) (uint (z :: hash)) = uint (addmod_word a b z)"
proof -
  have "(uint a + uint b) mod uint z = int ((unat a + unat b) mod unat z)"
    by (simp add: zmod_int)
  then show ?thesis
    by (simp add: u_AddMod_def addmod_word_def big_Mod_def uint_0_iff toU256_uint)
qed

lemma u_MulMod_word: "u_MulMod (uint a) (uint b) (uint (z :: hash)) = uint (mulmod_word a b z)"
proof -
  have "(uint a * uint b) mod uint z = int (unat a * unat b mod unat z)"
    by (simp add: zmod_int)
  then show ?thesis
    by (simp add: u_MulMod_def mulmod_word_def big_Mod_def uint_0_iff toU256_uint)
qed


subsection \<open>The instructions are the word operations\<close>

text \<open>C32. Two's-complement division and remainder: on operands that are 256-bit words, \<open>SDIV\<close> and
  \<open>SMOD\<close> of \<^verbatim>\<open>instructions.go\<close>, which work on unbounded integers and fold the sign in and out, leave
  the truncated signed quotient and the remainder with the sign of the dividend, with a zero divisor
  giving zero; the other stack slots and the rest of the state are kept.\<close>

theorem signed_division_refines:
  "opSDiv (c\<lparr>stack := map uint (a # b # ws)\<rparr>)
     = Some (c\<lparr>stack := map uint ((word_of_int (sint a sdiv sint b) :: hash) # ws)\<rparr>)
   \<and> opSMod (c\<lparr>stack := map uint (a # b # ws)\<rparr>)
     = Some (c\<lparr>stack := map uint ((if b = 0 then 0 else word_of_int (sint a smod sint b) :: hash) # ws)\<rparr>)"
  using op_sdiv.run [of "c\<lparr>stack := map uint (a # b # ws)\<rparr>" a b ws]
    op_smod.run [of "c\<lparr>stack := map uint (a # b # ws)\<rparr>" a b ws]
  by (simp add: opSDiv_def opSMod_def)

text \<open>C33. \<open>EXP\<close>, which squares and multiplies over the limbs of the exponent, computes the power of
  256-bit words, and charges 50 gas (10 before EIP-158) for each byte of the exponent, or runs out of
  gas and leaves the operand.\<close>

theorem exp_refines:
  "opExp (c\<lparr>stack := map uint (a # b # ws)\<rparr>) = Some
    (let (ok, c') = consumeGas (of_nat ((big_BitLen (uint b) + 7) div 8) * (if EIP158 (config c) then 50 else 10))
                      (c\<lparr>stack := map uint (b # ws)\<rparr>)
     in if ok then c'\<lparr>stack := map uint ((a ^ unat b :: hash) # ws)\<rparr> else c')"
  by (simp add: opExp_def popv_def pop_def state_top_def set_top_def Let_def op_exp.refines consumeGas_def)

text \<open>The shifts of the Constantinople fork: \<open>SHL\<close>, \<open>SHR\<close> and \<open>SAR\<close> are the shifts of 256-bit
  words by any shift amount, an amount of 256 or more included, with the sign bit copied by \<open>SAR\<close>.\<close>

theorem shifts_refine:
  assumes "Constantinople (config c)"
  shows "opShl (c\<lparr>stack := map uint (n # v # ws)\<rparr>)
      = Some (c\<lparr>stack := map uint ((push_bit (unat n) v :: hash) # ws)\<rparr>)
    \<and> opShr (c\<lparr>stack := map uint (n # v # ws)\<rparr>)
      = Some (c\<lparr>stack := map uint ((drop_bit (unat n) v :: hash) # ws)\<rparr>)
    \<and> opSar (c\<lparr>stack := map uint (n # v # ws)\<rparr>)
      = Some (c\<lparr>stack := map uint ((signed_drop_bit (unat n) v :: hash) # ws)\<rparr>)"
  using assms op_shl.run [of "c\<lparr>stack := map uint (n # v # ws)\<rparr>" n v ws]
    op_shr.run [of "c\<lparr>stack := map uint (n # v # ws)\<rparr>" n v ws]
    op_sar.run [of "c\<lparr>stack := map uint (n # v # ws)\<rparr>" n v ws]
  by (simp_all add: opShl_def opShr_def opSar_def constantinople_op_def)

theorem shifts_refine_witness:
  "opSar (fresh\<lparr>stack := map uint [4 :: hash, - 256]\<rparr>) = Some (fresh\<lparr>stack := [uint (- 16 :: hash)]\<rparr>)"
proof -
  have "signed_drop_bit 4 (- 256 :: hash) = - 16"
    by code_simp
  then show ?thesis
    using shifts_refine [of fresh 4 "- 256" "[]"] by (simp add: acquireState_def)
qed

end
