(* ===== verification/Types.thy ===== *)
theory Types
  imports Prelude
begin

text \<open>
  Transactions, logs, receipts and bloom filters (\<^verbatim>\<open>types/transaction.go\<close>, \<^verbatim>\<open>types/receipt.go\<close>) and
  the derivation of contract addresses (\<^verbatim>\<open>crypto/crypto.go\<close>).

  \<open>Crypto\<close> holds the code outside the repository: the Keccak permutation
  (\<^verbatim>\<open>golang.org/x/crypto/sha3\<close>) and the RLP encoding of an address and a nonce (\<^verbatim>\<open>fastrlp\<close>).
\<close>

subsection \<open>Hashing\<close>

record Crypto =
  Keccak256 :: "byte list \<Rightarrow> hash"
  rlp_addr_nonce :: "address \<Rightarrow> uint64 \<Rightarrow> byte list"

definition CreateAddress :: "Crypto \<Rightarrow> address \<Rightarrow> uint64 \<Rightarrow> address" where
  "CreateAddress K addr nonce = ucast (Keccak256 K (rlp_addr_nonce K addr nonce))"

definition CreateAddress2 :: "Crypto \<Rightarrow> address \<Rightarrow> hash \<Rightarrow> byte list \<Rightarrow> address" where
  "CreateAddress2 K addr salt inithash =
    ucast (Keccak256 K ([0xff] @ be_bytes 20 (uint addr) @ be_bytes 32 (uint salt)
             @ be_bytes 32 (uint (Keccak256 K inithash))))"

text \<open>Addresses of \<^verbatim>\<open>contracts/system_addresses.go\<close>.\<close>

definition SystemCaller :: address where
  "SystemCaller = 0xfffffffffffffffffffffffffffffffffffffffe"

definition ValidatorSetContract :: address where
  "ValidatorSetContract = 0x101"

definition StateReceiverContract :: address where
  "StateReceiverContract = 0x1001"

subsection \<open>Transactions\<close>

datatype TxType = LegacyTx | StateTx

definition StateTransactionGasLimit :: uint64 where
  "StateTransactionGasLimit = 1000000"

record Transaction =
  tx_Nonce :: uint64
  tx_GasPrice :: int
  tx_Gas :: uint64
  tx_To :: "address option"
  tx_Value :: int
  tx_Input :: "byte list"
  tx_V :: int
  tx_R :: int
  tx_S :: int
  tx_Hash :: hash
  tx_From :: address
  tx_Type :: TxType

definition IsContractCreation :: "Transaction \<Rightarrow> bool" where
  "IsContractCreation t \<longleftrightarrow> tx_To t = None"

definition Cost :: "Transaction \<Rightarrow> int" where
  "Cost t = tx_GasPrice t * uint (tx_Gas t) + tx_Value t"

definition ExceedsBlockGasLimit :: "Transaction \<Rightarrow> uint64 \<Rightarrow> bool" where
  "ExceedsBlockGasLimit t blockGasLimit \<longleftrightarrow> blockGasLimit < tx_Gas t"

definition IsUnderpriced :: "Transaction \<Rightarrow> uint64 \<Rightarrow> bool" where
  "IsUnderpriced t priceLimit \<longleftrightarrow> tx_GasPrice t < uint priceLimit"

subsection \<open>Logs, receipts and bloom filters\<close>

record Log =
  log_Address :: address
  log_Topics :: "hash list"
  log_Data :: "byte list"

type_synonym ReceiptStatus = uint64

definition ReceiptFailed :: ReceiptStatus where "ReceiptFailed = 0"
definition ReceiptSuccess :: ReceiptStatus where "ReceiptSuccess = 1"

record Receipt =
  rc_Root :: hash
  rc_CumulativeGasUsed :: uint64
  rc_LogsBloom :: "byte list"
  rc_Logs :: "Log list"
  rc_Status :: "ReceiptStatus option"
  rc_GasUsed :: uint64
  rc_ContractAddress :: "address option"
  rc_TxHash :: hash
  rc_TransactionType :: TxType

text \<open>The bit that the pair of hash bytes at \<open>i\<close> selects, and the byte of the filter it lies in.\<close>

definition bloom_bit :: "byte list \<Rightarrow> nat \<Rightarrow> nat" where
  "bloom_bit buf i = (unat (buf ! (i + 1)) + unat (buf ! i) * 2 ^ 8) mod 2048"

definition setEncode :: "Crypto \<Rightarrow> byte list \<Rightarrow> byte list \<Rightarrow> byte list" where
  "setEncode K h b =
    (let buf = be_bytes 32 (uint (Keccak256 K h)) in
     foldl (\<lambda>b i.
       let bt = bloom_bit buf i; byteLocation = 256 - 1 - bt div 8; bitLocation = bt mod 8
       in b[byteLocation := b ! byteLocation OR push_bit bitLocation 1]) b [0, 2, 4])"

definition bloom_log :: "Crypto \<Rightarrow> byte list \<Rightarrow> Log \<Rightarrow> byte list" where
  "bloom_log K b l =
    foldl (\<lambda>b topic. setEncode K (be_bytes 32 (uint topic)) b)
      (setEncode K (be_bytes 20 (uint (log_Address l))) b) (log_Topics l)"

definition CreateBloom :: "Crypto \<Rightarrow> Receipt list \<Rightarrow> byte list" where
  "CreateBloom K receipts =
    foldl (\<lambda>b receipt. foldl (bloom_log K) b (rc_Logs receipt)) (replicate 256 0) receipts"

text \<open>The shift of the membership test is \<^verbatim>\<open>1 << (bitLocation - 1)\<close> on an unsigned count: for the lowest
  bit of a byte the count wraps and the mask is zero.\<close>

definition isByteArrPresent :: "Crypto \<Rightarrow> byte list \<Rightarrow> byte list \<Rightarrow> bool" where
  "isByteArrPresent K data b =
    (let buf = be_bytes 32 (uint (Keccak256 K data)) in
     list_all (\<lambda>i.
       let bt = bloom_bit buf i; byteLocation = 256 - 1 - bt div 8; bitLocation = bt mod 8;
           shift = unat (of_nat bitLocation - 1 :: uint64)
       in b ! byteLocation AND push_bit shift 1 \<noteq> 0) [0, 2, 4])"

definition IsLogInBloom :: "Crypto \<Rightarrow> byte list \<Rightarrow> Log \<Rightarrow> bool" where
  "IsLogInBloom K b l \<longleftrightarrow>
    isByteArrPresent K (be_bytes 20 (uint (log_Address l))) b
    \<and> list_all (\<lambda>topic. isByteArrPresent K (be_bytes 32 (uint topic)) b) (log_Topics l)"

subsection \<open>What the filter holds\<close>

text \<open>The filter as a set of 2048 bits, the data that a log is found by, and the bits that data selects.\<close>

definition bloom_set :: "byte list \<Rightarrow> nat \<Rightarrow> bool" where
  "bloom_set b n \<longleftrightarrow> bit (b ! (255 - n div 8)) (n mod 8)"

definition log_entries :: "Log \<Rightarrow> byte list list" where
  "log_entries l = be_bytes 20 (uint (log_Address l)) # map (\<lambda>t. be_bytes 32 (uint t)) (log_Topics l)"

definition bloom_bits :: "Crypto \<Rightarrow> byte list \<Rightarrow> nat list" where
  "bloom_bits K data = map (bloom_bit (be_bytes 32 (uint (Keccak256 K data)))) [0, 2, 4]"

lemma bloom_bit_less: "bloom_bit buf i < 2048"
  by (simp add: bloom_bit_def)

lemma bloom_set_update:
  assumes "length b = 256" "m < 2048" "n < 2048"
  shows "bloom_set (b[255 - m div 8 := b ! (255 - m div 8) OR push_bit (m mod 8) 1]) n \<longleftrightarrow> n = m \<or> bloom_set b n"
proof -
  have "n div 8 < 256" "m div 8 < 256" using assms by auto
  then have "255 - n div 8 = 255 - m div 8 \<longleftrightarrow> n div 8 = m div 8" by linarith
  moreover have "n = m \<longleftrightarrow> n div 8 = m div 8 \<and> n mod 8 = m mod 8" by (metis div_mult_mod_eq)
  ultimately show ?thesis
    using assms(1) by (auto simp: bloom_set_def nth_list_update bit_simps)
qed

lemma setEncode_bits:
  assumes "length b = 256"
  shows "length (setEncode K h b) = 256"
    and "n < 2048 \<Longrightarrow> bloom_set (setEncode K h b) n \<longleftrightarrow> n \<in> set (bloom_bits K h) \<or> bloom_set b n"
  using assms
  by (auto simp: setEncode_def Let_def bloom_bits_def bloom_set_update bloom_bit_less
      simp del: push_bit_of_1)

lemma bloom_log_entries: "bloom_log K b l = foldl (\<lambda>b h. setEncode K h b) b (log_entries l)"
  by (simp add: bloom_log_def log_entries_def foldl_map)

lemma foldl_setEncode_bits:
  assumes "length b = 256"
  shows "length (foldl (\<lambda>b h. setEncode K h b) b hs) = 256
    \<and> (n < 2048 \<longrightarrow> bloom_set (foldl (\<lambda>b h. setEncode K h b) b hs) n
          = (n \<in> (\<Union>h \<in> set hs. set (bloom_bits K h)) \<or> bloom_set b n))"
  using assms by (induction hs arbitrary: b) (auto simp: setEncode_bits)

lemma CreateBloom_foldl:
  "CreateBloom K rs = foldl (\<lambda>b h. setEncode K h b) (replicate 256 0)
     (concat (map (\<lambda>r. concat (map log_entries (rc_Logs r))) rs))"
proof -
  have logs: "foldl (bloom_log K) b ls = foldl (\<lambda>b h. setEncode K h b) b (concat (map log_entries ls))" for b ls
    by (induction ls arbitrary: b) (simp_all add: bloom_log_entries)
  show ?thesis
    unfolding CreateBloom_def logs
    by (induction rs rule: rev_induct) simp_all
qed

text \<open>C34. A bloom filter holds exactly what was put into it: bit \<open>n\<close> of the filter that \<^verbatim>\<open>CreateBloom\<close>
  builds for the receipts of a block is set if and only if the address or a topic of one of their logs
  selects \<open>n\<close> as one of the three bits its hash gives.\<close>

theorem CreateBloom_exact:
  assumes "n < 2048"
  shows "bloom_set (CreateBloom K rs) n \<longleftrightarrow>
    (\<exists>r \<in> set rs. \<exists>l \<in> set (rc_Logs r). \<exists>h \<in> set (log_entries l). n \<in> set (bloom_bits K h))"
proof -
  have "\<not> bloom_set (replicate 256 0) n"
    using assms by (simp add: bloom_set_def del: replicate.simps)
  with foldl_setEncode_bits [of "replicate 256 0"] assms show ?thesis
    unfolding CreateBloom_foldl by (auto simp del: replicate.simps)
qed

definition demo_hash :: Crypto where
  "demo_hash = \<lparr> Keccak256 = (\<lambda>bs. 0), rlp_addr_nonce = (\<lambda>a n. be_bytes 20 (uint a)) \<rparr>"

definition demo_receipt :: Receipt where
  "demo_receipt = \<lparr> rc_Root = 0, rc_CumulativeGasUsed = 0, rc_LogsBloom = [],
     rc_Logs = [\<lparr> log_Address = 7, log_Topics = [], log_Data = [] \<rparr>], rc_Status = None, rc_GasUsed = 0,
     rc_ContractAddress = None, rc_TxHash = 0, rc_TransactionType = LegacyTx \<rparr>"

lemma demo_bits: "bloom_bits demo_hash data = [0, 0, 0]"
  by (simp add: bloom_bits_def demo_hash_def bloom_bit_def be_bytes_def)

theorem CreateBloom_exact_witness:
  "bloom_set (CreateBloom demo_hash [demo_receipt]) 0 \<and> \<not> bloom_set (CreateBloom demo_hash [demo_receipt]) 9"
  using CreateBloom_exact [of 0 demo_hash "[demo_receipt]"] CreateBloom_exact [of 9 demo_hash "[demo_receipt]"]
  by (simp add: demo_bits demo_receipt_def log_entries_def)

text \<open>C37. The membership test has false negatives: it probes the bit below the one that \<^verbatim>\<open>setEncode\<close> sets,
  and when the selected bit is the lowest of its byte its mask is zero, so that a log is reported absent
  from every filter, the filter built from that very log included.\<close>

theorem IsLogInBloom_false_negative:
  assumes "h \<in> set (log_entries l)" "n \<in> set (bloom_bits K h)" "8 dvd n"
  shows "\<not> IsLogInBloom K (CreateBloom K [r\<lparr>rc_Logs := [l]\<rparr>]) l"
proof -
  have "push_bit m (1 :: byte) = 0" if "8 \<le> m" for m
    using that by (intro bit_word_eqI) (auto simp: bit_simps)
  moreover have "8 \<le> unat (of_nat (n mod 8) - 1 :: uint64)"
    unfolding dvd_imp_mod_0 [OF assms(3)] by (simp add: unsigned_minus_1_eq_mask mask_eq_exp_minus_1)
  ultimately have "push_bit (unat (of_nat (n mod 8) - 1 :: uint64)) (1 :: byte) = 0" by blast
  then have "\<not> isByteArrPresent K h b" for b
    using assms(2) unfolding isByteArrPresent_def bloom_bits_def Let_def list_all_iff
    by (auto simp del: push_bit_of_1)
  then show ?thesis
    using assms(1) by (auto simp: IsLogInBloom_def log_entries_def list_all_iff)
qed

theorem IsLogInBloom_false_negative_witness:
  "\<not> IsLogInBloom demo_hash (CreateBloom demo_hash
      [demo_receipt\<lparr>rc_Logs := [\<lparr> log_Address = 7, log_Topics = [], log_Data = [] \<rparr>]\<rparr>])
      \<lparr> log_Address = 7, log_Topics = [], log_Data = [] \<rparr>"
  by (rule IsLogInBloom_false_negative [where n = 0]) (auto simp: demo_bits log_entries_def)

end
