(* ===== verification/EvmInstr.thy ===== *)
theory EvmInstr
  imports EvmArith Types
begin

text \<open>
  The memory, storage, context, copy, block, control-flow, log, create, call and halting
  instructions of \<^verbatim>\<open>state/runtime/evm/instructions.go\<close>, in the order of the file.

  \<open>K\<close> holds the hash function and \<open>H\<close> is the host.
\<close>

subsection \<open>Memory\<close>

definition opMload :: "'h state \<Rightarrow> 'h state option" where
  "opMload c = do {
     (offset, c) \<leftarrow> popv c;
     (tmp, ok, c) \<leftarrow> get2 [] offset 32 c;
     (if \<not> ok then Some c else Some (push (big_SetBytes tmp) c)) }"

fun mstore_limb :: "nat \<Rightarrow> uint64 \<Rightarrow> nat \<Rightarrow> byte list \<Rightarrow> (nat \<times> byte list) option" where
  "mstore_limb 0 d i buf = Some (i, buf)"
| "mstore_limb (Suc j) d i buf =
    (case i of 0 \<Rightarrow> None
     | Suc i' \<Rightarrow> mstore_limb j (drop_bit 8 d) i' (buf[i' := ucast d]))"

fun mstore_limbs :: "uint64 list \<Rightarrow> nat \<Rightarrow> byte list \<Rightarrow> (nat \<times> byte list) option" where
  "mstore_limbs [] i buf = Some (i, buf)"
| "mstore_limbs (d # ds) i buf =
    do { (i, buf) \<leftarrow> mstore_limb 8 d i buf; mstore_limbs ds i buf }"

fun mstore_zeros :: "nat \<Rightarrow> byte list \<Rightarrow> byte list" where
  "mstore_zeros 0 buf = buf"
| "mstore_zeros (Suc i) buf = mstore_zeros i (buf[i := 0])"

definition mstore_buf :: "int \<Rightarrow> byte list \<Rightarrow> byte list option" where
  "mstore_buf val buf =
    do { (i, buf) \<leftarrow> mstore_limbs (big_Bits val) 32 buf; Some (mstore_zeros i buf) }"

definition opMStore :: "'h state \<Rightarrow> 'h state option" where
  "opMStore c = do {
     (offset, c) \<leftarrow> popv c;
     (val, c) \<leftarrow> popv c;
     (let (ok, c) = allocateMemory offset 32 c in
      if \<not> ok then Some c
      else do {
        (let o' = unat (big_Uint64 offset) in do {
           buf \<leftarrow> slice (memory c) o' (o' + 32);
           buf' \<leftarrow> mstore_buf val buf;
           Some (c\<lparr>memory := overwrite (memory c) o' buf'\<rparr>) }) }) }"

definition opMStore8 :: "'h state \<Rightarrow> 'h state option" where
  "opMStore8 c = do {
     (offset, c) \<leftarrow> popv c;
     (val, c) \<leftarrow> popv c;
     (let (ok, c) = allocateMemory offset 1 c in
      if \<not> ok then Some c
      else (let o' = unat (big_Uint64 offset) in
            if o' < length (memory c)
            then Some (c\<lparr>memory := (memory c)[o' := ucast (big_Uint64 val AND 0xff)]\<rparr>)
            else None)) }"

subsection \<open>Storage\<close>

definition sload_gas :: "ForksInTime \<Rightarrow> uint64" where
  "sload_gas f = (if Istanbul f then 800 else if EIP150 f then 200 else 50)"

definition opSload :: "'h Host \<Rightarrow> 'h state \<Rightarrow> 'h state option" where
  "opSload H c = do {
     loc \<leftarrow> state_top c;
     (let (ok, c) = consumeGas (sload_gas (config c)) c in
      if \<not> ok then Some c
      else Some (set_top (uint (h_GetStorage H (host c) (c_Address (msg c)) (bigToHash loc))) c)) }"

definition sstore_cost :: "ForksInTime \<Rightarrow> StorageStatus \<Rightarrow> uint64" where
  "sstore_cost f status =
    (let legacyGasMetering = (\<not> Istanbul f \<and> (Petersburg f \<or> \<not> Constantinople f)) in
     case status of
       StorageUnchanged \<Rightarrow>
         if Istanbul f then 800 else if legacyGasMetering then 5000 else 200
     | StorageModified \<Rightarrow> 5000
     | StorageModifiedAgain \<Rightarrow>
         if Istanbul f then 800 else if legacyGasMetering then 5000 else 200
     | StorageAdded \<Rightarrow> 20000
     | StorageDeleted \<Rightarrow> 5000)"

definition opSStore :: "'h Host \<Rightarrow> 'h state \<Rightarrow> 'h state option" where
  "opSStore H c =
    (if inStaticCall c then Some (exit (Some errWriteProtection) c)
     else if Istanbul (config c) \<and> gas c \<le> 2300 then Some (exit (Some ErrOutOfGas) c)
     else do {
       (key, c) \<leftarrow> popHash c;
       (val, c) \<leftarrow> popHash c;
       (let (status, h') = h_SetStorage H (host c) (c_Address (msg c)) key val (config c);
            c = c\<lparr>host := h'\<rparr>;
            (ok, c) = consumeGas (sstore_cost (config c) status) c
        in Some c) })"

definition sha3WordGas :: uint64 where
  "sha3WordGas = 6"

definition opSha3 :: "Crypto \<Rightarrow> 'h state \<Rightarrow> 'h state option" where
  "opSha3 K c = do {
     (offset, c) \<leftarrow> popv c;
     (len, c) \<leftarrow> popv c;
     (tmp, ok, c) \<leftarrow> get2 [] offset len c;
     (if \<not> ok then Some c
      else (let (ok, c) = consumeGas ((big_Uint64 len + 31) div 32 * sha3WordGas) c in
            if \<not> ok then Some c else Some (push (uint (Keccak256 K tmp)) c))) }"

definition opPop :: "'h state \<Rightarrow> 'h state option" where
  "opPop c = Some (snd (pop c))"

subsection \<open>Context\<close>

definition opAddress :: "'h state \<Rightarrow> 'h state option" where
  "opAddress c = Some (push (uint (c_Address (msg c))) c)"

definition opBalance :: "'h Host \<Rightarrow> 'h state \<Rightarrow> 'h state option" where
  "opBalance H c =
    (let (addr, c) = popAddr c;
         g = (if Istanbul (config c) then 700 else if EIP150 (config c) then 400 else 20);
         (ok, c) = consumeGas g c
     in if \<not> ok then Some c else Some (push (h_GetBalance H (host c) addr) c))"

definition opSelfBalance :: "'h Host \<Rightarrow> 'h state \<Rightarrow> 'h state option" where
  "opSelfBalance H c =
    (if \<not> Istanbul (config c) then Some (exit (Some errOpCodeNotFound) c)
     else Some (push (h_GetBalance H (host c) (c_Address (msg c))) c))"

definition opChainID :: "'h Host \<Rightarrow> 'h state \<Rightarrow> 'h state option" where
  "opChainID H c =
    (if \<not> Istanbul (config c) then Some (exit (Some errOpCodeNotFound) c)
     else Some (push (uint (word_of_int (ChainID (h_GetTxContext H (host c))) :: uint64)) c))"

definition opOrigin :: "'h Host \<Rightarrow> 'h state \<Rightarrow> 'h state option" where
  "opOrigin H c = Some (push (uint (Origin (h_GetTxContext H (host c)))) c)"

definition opCaller :: "'h state \<Rightarrow> 'h state option" where
  "opCaller c = Some (push (uint (c_Caller (msg c))) c)"

definition opCallValue :: "'h state \<Rightarrow> 'h state option" where
  "opCallValue c = Some (push (case c_Value (msg c) of Some v \<Rightarrow> v | None \<Rightarrow> 0) c)"

text \<open>\<open>setBytes\<close> fills \<open>sz\<close> bytes of a destination from an input, padding with zeros; the offset
  into the input may lie beyond it or not fit a uint64.\<close>

definition setBytes :: "byte list \<Rightarrow> byte list \<Rightarrow> nat \<Rightarrow> int \<Rightarrow> byte list option" where
  "setBytes dst inp sz dataOffset =
    (if \<not> big_IsUint64 dataOffset then
       (if length dst < sz then None else Some (replicate sz 0 @ drop sz dst))
     else
       (let inputSize = length inp;
            begin' = min (unat (big_Uint64 dataOffset)) inputSize;
            copySize = min sz (inputSize - begin')
        in if 0 < sz - copySize \<and> length dst < sz then None
           else Some (take (length dst) (take copySize (drop begin' inp))
                        @ replicate (sz - copySize) 0 @ drop sz dst)))"

definition opCallDataLoad :: "'h state \<Rightarrow> 'h state option" where
  "opCallDataLoad c = do {
     offset \<leftarrow> state_top c;
     buf \<leftarrow> setBytes (replicate 32 0) (c_Input (msg c)) 32 offset;
     Some (set_top (big_SetBytes buf) c) }"

definition opCallDataSize :: "'h state \<Rightarrow> 'h state option" where
  "opCallDataSize c = Some (push (uint (of_nat (length (c_Input (msg c))) :: uint64)) c)"

definition opCodeSize :: "'h state \<Rightarrow> 'h state option" where
  "opCodeSize c = Some (push (uint (of_nat (length (code c)) :: uint64)) c)"

definition opExtCodeSize :: "'h Host \<Rightarrow> 'h state \<Rightarrow> 'h state option" where
  "opExtCodeSize H c =
    (let (addr, c) = popAddr c;
         g = (if EIP150 (config c) then 700 else 20);
         (ok, c) = consumeGas g c
     in if \<not> ok then Some c
        else (let (n, h') = h_GetCodeSize H (host c) addr in
              Some (push (uint (of_nat n :: uint64)) (c\<lparr>host := h'\<rparr>))))"

definition opGasPrice :: "'h Host \<Rightarrow> 'h state \<Rightarrow> 'h state option" where
  "opGasPrice H c = Some (push (uint (GasPrice (h_GetTxContext H (host c)))) c)"

definition opReturnDataSize :: "'h state \<Rightarrow> 'h state option" where
  "opReturnDataSize c =
    (if \<not> Byzantium (config c) then Some (exit (Some errOpCodeNotFound) c)
     else Some (push (uint (of_nat (length (returnData c)) :: uint64)) c))"

definition opExtCodeHash :: "'h Host \<Rightarrow> 'h state \<Rightarrow> 'h state option" where
  "opExtCodeHash H c =
    (if \<not> Constantinople (config c) then Some (exit (Some errOpCodeNotFound) c)
     else
       (let (addr, c) = popAddr c;
            g = (if Istanbul (config c) then 700 else 400);
            (ok, c) = consumeGas g c
        in if \<not> ok then Some c
           else if h_Empty H (host c) addr then Some (push 0 c)
           else Some (push (uint (h_GetCodeHash H (host c) addr)) c)))"

definition opPC :: "'h state \<Rightarrow> 'h state option" where
  "opPC c = Some (push (uint (word_of_int (ip c) :: uint64)) c)"

definition opMSize :: "'h state \<Rightarrow> 'h state option" where
  "opMSize c = Some (push (uint (of_nat (length (memory c)) :: uint64)) c)"

definition opGas :: "'h state \<Rightarrow> 'h state option" where
  "opGas c = Some (push (uint (gas c)) c)"

subsection \<open>Copies into memory\<close>

definition copyGas :: uint64 where
  "copyGas = 3"

definition memSetBytes :: "int \<Rightarrow> byte list \<Rightarrow> uint64 \<Rightarrow> int \<Rightarrow> 'h state \<Rightarrow> 'h state option" where
  "memSetBytes memOffset inp sz dataOffset c =
    (let o' = unat (big_Uint64 memOffset) in
     if length (memory c) < o' then None
     else do {
       dst \<leftarrow> setBytes (drop o' (memory c)) inp (unat sz) dataOffset;
       Some (c\<lparr>memory := take o' (memory c) @ dst\<rparr>) })"

definition opExtCodeCopy :: "'h Host \<Rightarrow> 'h state \<Rightarrow> 'h state option" where
  "opExtCodeCopy H c =
    (let (addr, c) = popAddr c in do {
       (memOffset, c) \<leftarrow> popv c;
       (codeOffset, c) \<leftarrow> popv c;
       (len, c) \<leftarrow> popv c;
       (let (ok, c) = allocateMemory memOffset len c in
        if \<not> ok then Some c
        else
          (let sz = big_Uint64 len;
               (ok, c) = consumeGas ((sz + 31) div 32 * copyGas) c
           in if \<not> ok then Some c
              else
                (let (ok, c) = consumeGas (if EIP150 (config c) then 700 else 20) c in
                 if \<not> ok then Some c
                 else
                   (let (cd, h') = h_GetCode H (host c) addr; c = c\<lparr>host := h'\<rparr> in
                    if sz \<noteq> 0 then memSetBytes memOffset cd sz codeOffset c else Some c)))) })"

text \<open>\<open>CALLDATACOPY\<close> and \<open>CODECOPY\<close> have the same body over two inputs.\<close>

definition copy_to_memory :: "('h state \<Rightarrow> byte list) \<Rightarrow> 'h state \<Rightarrow> 'h state option" where
  "copy_to_memory src c = do {
     (memOffset, c) \<leftarrow> popv c;
     (dataOffset, c) \<leftarrow> popv c;
     (len, c) \<leftarrow> popv c;
     (let (ok, c) = allocateMemory memOffset len c in
      if \<not> ok then Some c
      else
        (let sz = big_Uint64 len;
             (ok, c) = consumeGas ((sz + 31) div 32 * copyGas) c
         in if \<not> ok then Some c
            else if sz \<noteq> 0 then memSetBytes memOffset (src c) sz dataOffset c
            else Some c)) }"

definition opCallDataCopy :: "'h state \<Rightarrow> 'h state option" where
  "opCallDataCopy = copy_to_memory (\<lambda>c. c_Input (msg c))"

definition opCodeCopy :: "'h state \<Rightarrow> 'h state option" where
  "opCodeCopy = copy_to_memory code"

definition opReturnDataCopy :: "'h state \<Rightarrow> 'h state option" where
  "opReturnDataCopy c =
    (if \<not> Byzantium (config c) then Some (exit (Some errOpCodeNotFound) c)
     else do {
       (memOffset, c) \<leftarrow> popv c;
       (dataOffset, c) \<leftarrow> popv c;
       (len, c) \<leftarrow> popv c;
       (if \<not> big_IsUint64 dataOffset then Some (exit (Some errReturnDataOutOfBounds) c)
        else if len = 0 then Some c
        else
          (let (ok, c) = allocateMemory memOffset len c in
           if \<not> ok then Some c
           else
             (let ulength = big_Uint64 len;
                  (ok, c) = consumeGas ((ulength + 31) div 32 * copyGas) c
              in if \<not> ok then Some c
                 else
                   (let dataEnd = dataOffset + len in
                    if \<not> big_IsUint64 dataEnd \<or> length (returnData c) < unat (big_Uint64 dataEnd)
                    then Some (exit (Some errReturnDataOutOfBounds) c)
                    else do {
                      data \<leftarrow> slice (returnData c) (unat (big_Uint64 dataOffset))
                               (unat (big_Uint64 dataEnd));
                      dst \<leftarrow> slice (memory c) (unat (big_Uint64 memOffset))
                              (unat (big_Uint64 memOffset + ulength));
                      Some (c\<lparr>memory := overwrite (memory c) (unat (big_Uint64 memOffset)) data\<rparr>)
                    })))) })"

subsection \<open>Block information\<close>

definition opBlockHash :: "'h Host \<Rightarrow> 'h state \<Rightarrow> 'h state option" where
  "opBlockHash H c = do {
     num \<leftarrow> state_top c;
     (if \<not> big_IsInt64 num then Some (set_top 0 c)
      else
        (let n = big_Int64 num; lastBlock = Number (h_GetTxContext H (host c)) in
         if lastBlock - 257 < n \<and> n < lastBlock
         then Some (set_top (uint (h_GetBlockHash H (host c) n)) c)
         else Some (set_top 0 c))) }"

definition opCoinbase :: "'h Host \<Rightarrow> 'h state \<Rightarrow> 'h state option" where
  "opCoinbase H c = Some (push (uint (Coinbase (h_GetTxContext H (host c)))) c)"

definition opTimestamp :: "'h Host \<Rightarrow> 'h state \<Rightarrow> 'h state option" where
  "opTimestamp H c = Some (push (Timestamp (h_GetTxContext H (host c))) c)"

definition opNumber :: "'h Host \<Rightarrow> 'h state \<Rightarrow> 'h state option" where
  "opNumber H c = Some (push (Number (h_GetTxContext H (host c))) c)"

definition opDifficulty :: "'h Host \<Rightarrow> 'h state \<Rightarrow> 'h state option" where
  "opDifficulty H c = Some (push (uint (Difficulty (h_GetTxContext H (host c)))) c)"

definition opGasLimit :: "'h Host \<Rightarrow> 'h state \<Rightarrow> 'h state option" where
  "opGasLimit H c = Some (push (GasLimit (h_GetTxContext H (host c))) c)"

subsection \<open>Control flow\<close>

definition selfdestruct_gas :: "'h Host \<Rightarrow> 'h state \<Rightarrow> address \<Rightarrow> uint64" where
  "selfdestruct_gas H c addr =
    (if EIP150 (config c) then
       5000 + (if EIP158 (config c) then
                 (if h_Empty H (host c) addr \<and> h_GetBalance H (host c) (c_Address (msg c)) \<noteq> 0
                  then 25000 else 0)
               else if \<not> h_AccountExists H (host c) addr then 25000 else 0)
     else 0)"

definition opSelfDestruct :: "'h Host \<Rightarrow> 'h state \<Rightarrow> 'h state option" where
  "opSelfDestruct H c =
    (if inStaticCall c then Some (exit (Some errWriteProtection) c)
     else
       (let (addr, c) = popAddr c;
            (ok, c) = consumeGas (selfdestruct_gas H c addr) c
        in if \<not> ok then Some c
           else Some (Halt (c\<lparr>host := h_Selfdestruct H (host c) (c_Address (msg c)) addr\<rparr>))))"

definition jump_to :: "int \<Rightarrow> 'h state \<Rightarrow> 'h state option" where
  "jump_to dest c = do {
     ok \<leftarrow> validJumpdest dest c;
     (if ok then Some (c\<lparr>ip := sint (big_Uint64 dest - 1)\<rparr>)
      else Some (exit (Some errInvalidJump) c)) }"

definition opJump :: "'h state \<Rightarrow> 'h state option" where
  "opJump c = do { (dest, c) \<leftarrow> popv c; jump_to dest c }"

definition opJumpi :: "'h state \<Rightarrow> 'h state option" where
  "opJumpi c = do {
     (dest, c) \<leftarrow> popv c;
     (cond, c) \<leftarrow> popv c;
     (if cond \<noteq> 0 then jump_to dest c else Some c) }"

definition opJumpDest :: "'h state \<Rightarrow> 'h state option" where
  "opJumpDest c = Some c"

definition opPush :: "nat \<Rightarrow> 'h state \<Rightarrow> 'h state option" where
  "opPush n c =
    (let i = nat (ip c + 1) in
     if ip c + 1 < 0 \<or> length (code c) < i then None
     else
       (let bs = (if length (code c) < i + n then drop i (code c) @ replicate n 0
                  else take n (drop i (code c)))
        in Some ((push (big_SetBytes bs) c)\<lparr>ip := ip c + int n\<rparr>)))"

definition opDup :: "nat \<Rightarrow> 'h state \<Rightarrow> 'h state option" where
  "opDup n c =
    (if \<not> stackAtLeast n c then Some (exit (Some ErrStackUnderflow) c)
     else do { v \<leftarrow> peekAt n c; Some (push v c) })"

definition opSwap :: "nat \<Rightarrow> 'h state \<Rightarrow> 'h state option" where
  "opSwap n c =
    (if \<not> stackAtLeast (n + 1) c then Some (exit (Some ErrStackUnderflow) c)
     else state_swap n c)"

fun pop_topics :: "nat \<Rightarrow> 'h state \<Rightarrow> (hash list \<times> 'h state) option" where
  "pop_topics 0 c = Some ([], c)"
| "pop_topics (Suc n) c = do {
     (b, c) \<leftarrow> popv c;
     (ts, c) \<leftarrow> pop_topics n c;
     Some (bigToHash b # ts, c) }"

definition opLog :: "'h Host \<Rightarrow> nat \<Rightarrow> 'h state \<Rightarrow> 'h state option" where
  "opLog H n c =
    (let sz = n - 1 in
     if inStaticCall c then Some (exit (Some errWriteProtection) c)
     else if \<not> stackAtLeast (2 + sz) c then Some (exit (Some ErrStackUnderflow) c)
     else do {
       (mStart, c) \<leftarrow> popv c;
       (mSize, c) \<leftarrow> popv c;
       (topics, c) \<leftarrow> pop_topics sz c;
       (tmp, ok, c) \<leftarrow> get2 [] mStart mSize c;
       (if \<not> ok then Some c
        else
          (let c = c\<lparr>host := h_EmitLog H (host c) (c_Address (msg c)) topics tmp\<rparr>;
               (ok, c) = consumeGas (of_nat sz * 375) c
           in if \<not> ok then Some c else Some (snd (consumeGas (big_Uint64 mSize * 8) c)))) })"

definition opStop :: "'h state \<Rightarrow> 'h state option" where
  "opStop c = Some (Halt c)"

subsection \<open>Create, call and halt\<close>

definition CREATE :: nat where "CREATE = 0xf0"
definition CALL :: nat where "CALL = 0xf1"
definition CALLCODE :: nat where "CALLCODE = 0xf2"
definition RETURN :: nat where "RETURN = 0xf3"
definition DELEGATECALL :: nat where "DELEGATECALL = 0xf4"
definition CREATE2 :: nat where "CREATE2 = 0xf5"
definition STATICCALL :: nat where "STATICCALL = 0xfa"
definition REVERT :: nat where "REVERT = 0xfd"

text \<open>The results of the two builders: the contract (nil after a halt), the return range for a call,
  whether the error \<^verbatim>\<open>"bad"\<close> is set, and the state.\<close>

definition buildCreateContract ::
  "Crypto \<Rightarrow> 'h Host \<Rightarrow> nat \<Rightarrow> 'h state \<Rightarrow> (Contract option \<times> bool \<times> 'h state) option" where
  "buildCreateContract K H op c = do {
     (val, c) \<leftarrow> popv c;
     (offset, c) \<leftarrow> popv c;
     (len, c) \<leftarrow> popv c;
     (salt, c) \<leftarrow> (if op = CREATE2 then popv c else Some (0, c));
     (inp, ok, c) \<leftarrow> get2 [] offset len c;
     (if \<not> ok then Some (None, False, c)
      else
        (let (ok, c) = consumeGas 0 c in
         if \<not> ok then Some (None, False, c)
         else if val \<noteq> 0 \<and> h_GetBalance H (host c) (c_Address (msg c)) < val
         then Some (None, True, c)
         else
           (let (ok, c) = (if op = CREATE2
                           then consumeGas ((big_Uint64 len + 31) div 32 * sha3WordGas) c
                           else (True, c)) in
            if \<not> ok then Some (None, False, c)
            else
              (let g = gas c;
                   g = (if EIP150 (config c) \<or> op = CREATE2 then g - g div 64 else g);
                   (ok, c) = consumeGas g c in
               if \<not> ok then Some (None, False, c)
               else
                 (let addr = (if op = CREATE
                              then CreateAddress K (c_Address (msg c))
                                     (h_GetNonce H (host c) (c_Address (msg c)))
                              else CreateAddress2 K (c_Address (msg c)) (bigToHash salt) inp)
                  in Some (Some (NewContractCreation (c_Depth (msg c) + 1) (c_Origin (msg c))
                             (c_Address (msg c)) addr (Some val) g inp), False, c)))))) }"

definition opCreate :: "Crypto \<Rightarrow> 'h Host \<Rightarrow> nat \<Rightarrow> 'h state \<Rightarrow> 'h state option" where
  "opCreate K H op c =
    (if inStaticCall c then Some (exit (Some errWriteProtection) c)
     else if op = CREATE2 \<and> \<not> Constantinople (config c)
     then Some (exit (Some errOpCodeNotFound) c)
     else do {
       (contract, bad, c) \<leftarrow> buildCreateContract K H op (resetReturnData c);
       (if bad then
          (let c = push 0 c in
           case contract of None \<Rightarrow> Some c | Some k \<Rightarrow> Some (c\<lparr>gas := gas c + c_Gas k\<rparr>))
        else case contract of None \<Rightarrow> Some c
        | Some k \<Rightarrow> do {
            (result, h') \<leftarrow> h_Callx H (host c) (k\<lparr>c_Type := Create\<rparr>);
            (let c = c\<lparr>host := h'\<rparr>;
                 v = (if op = CREATE \<and> Homestead (config c) \<and> Err result = Some ErrCodeStoreOutOfGas
                      then 0
                      else if Failed result \<and> Err result \<noteq> Some ErrCodeStoreOutOfGas then 0
                      else uint (c_Address k));
                 c = push v c;
                 c = c\<lparr>gas := gas c + GasLeft result\<rparr>
             in Some (if Reverted result then c\<lparr>returnData := ReturnValue result\<rparr> else c)) }) })"

definition call_gasCost :: "'h Host \<Rightarrow> nat \<Rightarrow> 'h state \<Rightarrow> address \<Rightarrow> bool \<Rightarrow> uint64" where
  "call_gasCost H op c addr transfersValue =
    (if EIP150 (config c) then 700 else 40)
    + (if op = CALL then
         (if EIP158 (config c) then
            (if transfersValue \<and> h_Empty H (host c) addr then 25000 else 0)
          else if \<not> h_AccountExists H (host c) addr then 25000 else 0)
       else 0)
    + (if transfersValue then 9000 else 0)"

definition call_gas :: "ForksInTime \<Rightarrow> uint64 \<Rightarrow> uint64 \<Rightarrow> int \<Rightarrow> uint64 option" where
  "call_gas f left gasCost initialGas =
    (let ok = big_IsUint64 initialGas in
     if EIP150 f then
       (let available = left - gasCost;
            available = available - available div 64
        in Some (if \<not> ok \<or> available < big_Uint64 initialGas then available
                 else big_Uint64 initialGas))
     else if \<not> ok then None
     else Some (big_Uint64 initialGas))"

text \<open>The frame that a call instruction opens, with the fields that depend on the opcode.\<close>

definition call_contract ::
  "nat \<Rightarrow> Contract \<Rightarrow> address \<Rightarrow> int option \<Rightarrow> uint64 \<Rightarrow> byte list \<Rightarrow> byte list \<Rightarrow> Contract" where
  "call_contract op parent addr val g cd args =
    (let k = NewContractCall (c_Depth parent + 1) (c_Origin parent) (c_Address parent) addr val g
               cd args;
         k = (if op = STATICCALL \<or> c_Static parent then k\<lparr>c_Static := True\<rparr> else k);
         k = (if op = CALLCODE \<or> op = DELEGATECALL then k\<lparr>c_Address := c_Address parent\<rparr> else k)
     in if op = DELEGATECALL
        then k\<lparr>c_Value := c_Value parent, c_Caller := c_Caller parent\<rparr> else k)"

definition buildCallContract ::
  "'h Host \<Rightarrow> nat \<Rightarrow> 'h state \<Rightarrow> (Contract option \<times> uint64 \<times> uint64 \<times> bool \<times> 'h state) option"
  where
  "buildCallContract H op c = do {
     (initialGas, c) \<leftarrow> popv c;
     let (addr, c) = popAddr c;
     let (val, c) = (if op = CALL \<or> op = CALLCODE then pop c else (None, c));
     (inOffset, c) \<leftarrow> popv c;
     (inSize, c) \<leftarrow> popv c;
     (retOffset, c) \<leftarrow> popv c;
     (retSize, c) \<leftarrow> popv c;
     (args, ok, c) \<leftarrow> get2 [] inOffset inSize c;
     (if \<not> ok then Some (None, 0, 0, False, c)
      else
        (let (ok, c) = allocateMemory retOffset retSize c in
         if \<not> ok then Some (None, 0, 0, False, c)
         else
           (let transfersValue = (case val of None \<Rightarrow> False | Some v \<Rightarrow> v \<noteq> 0);
                gasCost = call_gasCost H op c addr transfersValue in
            case call_gas (config c) (gas c) gasCost initialGas of
              None \<Rightarrow> Some (None, 0, 0, False, exit (Some ErrOutOfGas) c)
            | Some g \<Rightarrow>
                (let (ok, c) = consumeGas (gasCost + g) c in
                 if \<not> ok then Some (None, 0, 0, False, c)
                 else
                   (let g = (if transfersValue then g + 2300 else g);
                        (cd, h') = h_GetCode H (host c) addr;
                        c = c\<lparr>host := h'\<rparr>;
                        k = call_contract op (msg c) addr val g cd args
                    in if transfersValue \<and> h_GetBalance H (host c) (c_Address (msg c)) < the val
                       then Some (Some k, 0, 0, True, c)
                       else Some (Some k, big_Uint64 retOffset, big_Uint64 retSize, False, c)))))) }"

definition callType :: "nat \<Rightarrow> CallType option" where
  "callType op =
    (if op = CALL then Some Call else if op = CALLCODE then Some CallCode
     else if op = DELEGATECALL then Some DelegateCall
     else if op = STATICCALL then Some StaticCall else None)"

text \<open>Copying a nested call's output into \<^verbatim>\<open>memory[offset:offset+size]\<close>.\<close>

definition copy_return :: "ExecutionResult \<Rightarrow> uint64 \<Rightarrow> uint64 \<Rightarrow> 'h state \<Rightarrow> 'h state option" where
  "copy_return result offset sz c =
    (if (Succeeded result \<or> Reverted result) \<and> ReturnValue result \<noteq> [] \<and> 0 < sz
     then do {
       dst \<leftarrow> slice (memory c) (unat offset) (unat (offset + sz));
       Some (c\<lparr>memory := overwrite (memory c) (unat offset)
                          (take (length dst) (ReturnValue result))\<rparr>) }
     else Some c)"

definition opCall :: "'h Host \<Rightarrow> nat \<Rightarrow> 'h state \<Rightarrow> 'h state option" where
  "opCall H op c =
    (let c = resetReturnData c in do {
       protected' \<leftarrow> (if op = CALL \<and> inStaticCall c
                     then do { v \<leftarrow> peekAt 3 c; Some (0 < big_BitLen v) } else Some False);
       (if protected' then Some (exit (Some errWriteProtection) c)
        else if op = DELEGATECALL \<and> \<not> Homestead (config c)
        then Some (exit (Some errOpCodeNotFound) c)
        else if op = STATICCALL \<and> \<not> Byzantium (config c)
        then Some (exit (Some errOpCodeNotFound) c)
        else do {
          ct \<leftarrow> callType op;
          (contract, offset, sz, bad, c) \<leftarrow> buildCallContract H op c;
          (if bad then
             (let c = push 0 c in
              case contract of None \<Rightarrow> Some c | Some k \<Rightarrow> Some (c\<lparr>gas := gas c + c_Gas k\<rparr>))
           else case contract of None \<Rightarrow> Some c
           | Some k \<Rightarrow> do {
               (result, h') \<leftarrow> h_Callx H (host c) (k\<lparr>c_Type := ct\<rparr>);
               c \<leftarrow> copy_return result offset sz
                     (push (if Succeeded result then 1 else 0) (c\<lparr>host := h'\<rparr>));
               Some (c\<lparr>gas := gas c + GasLeft result, returnData := ReturnValue result\<rparr>) }) }) })"

definition opHalt :: "nat \<Rightarrow> 'h state \<Rightarrow> 'h state option" where
  "opHalt op c =
    (if op = REVERT \<and> \<not> Byzantium (config c) then Some (exit (Some errOpCodeNotFound) c)
     else do {
       (offset, c) \<leftarrow> popv c;
       (sz, c) \<leftarrow> popv c;
       (r, ok, c) \<leftarrow> get2 [] offset sz c;
       (let c = c\<lparr>ret := r\<rparr> in
        if \<not> ok then Some c
        else if op = REVERT then Some (exit (Some ErrExecutionReverted) c)
        else Some (Halt c)) })"

end
