(* ===== verification/EvmRun.thy ===== *)
theory EvmRun
  imports EvmInstr
begin

text \<open>
  The dispatch table (\<^verbatim>\<open>state/runtime/evm/dispatch_table.go\<close>), the interpreter loop
  (\<^verbatim>\<open>state.Run\<close> in \<^verbatim>\<open>state.go\<close>) and the runtime's entry point (\<^verbatim>\<open>evm.go\<close>).

  The loop is a \<^theory_text>\<open>partial_function\<close>: a run that would not return is \<^const>\<open>None\<close>, as is a panic.
\<close>

type_synonym 'h instruction = "'h state \<Rightarrow> 'h state option"

record 'h handler =
  hd_inst :: "'h instruction"
  hd_stack :: nat
  hd_gas :: uint64

type_synonym 'h table = "(nat \<times> 'h handler) list"

definition register :: "nat \<Rightarrow> 'h instruction \<Rightarrow> nat \<Rightarrow> uint64 \<Rightarrow> 'h table" where
  "register op f n g = [(op, \<lparr>hd_inst = f, hd_stack = n, hd_gas = g\<rparr>)]"

definition registerRange ::
  "nat \<Rightarrow> nat \<Rightarrow> (nat \<Rightarrow> 'h instruction) \<Rightarrow> uint64 \<Rightarrow> 'h table" where
  "registerRange from to factory g =
    concat (map (\<lambda>i. register i (factory (i - from + 1)) 0 g) [from ..< to + 1])"

definition dispatch_entries :: "Crypto \<Rightarrow> 'h Host \<Rightarrow> 'h table" where
  "dispatch_entries K H = concat [
     register 0x00 opStop 0 0,
     register 0x01 opAdd 2 3,
     register 0x03 opSub 2 3,
     register 0x02 opMul 2 5,
     register 0x04 opDiv 2 5,
     register 0x05 opSDiv 2 5,
     register 0x06 opMod 2 5,
     register 0x07 opSMod 2 5,
     register 0x0a opExp 2 10,
     registerRange 0x60 0x7f opPush 3,
     registerRange 0x80 0x8f opDup 3,
     registerRange 0x90 0x9f opSwap 3,
     registerRange 0xa0 0xa4 (opLog H) 375,
     register 0x08 opAddMod 3 8,
     register 0x09 opMulMod 3 8,
     register 0x16 opAnd 2 3,
     register 0x17 opOr 2 3,
     register 0x18 opXor 2 3,
     register 0x1a opByte 2 3,
     register 0x19 opNot 1 3,
     register 0x15 opIsZero 1 3,
     register 0x14 opEq 2 3,
     register 0x10 opLt 2 3,
     register 0x11 opGt 2 3,
     register 0x12 opSlt 2 3,
     register 0x13 opSgt 2 3,
     register 0x0b opSignExtension 1 5,
     register 0x1b opShl 2 3,
     register 0x1c opShr 2 3,
     register 0x1d opSar 2 3,
     register CREATE (opCreate K H CREATE) 3 32000,
     register CREATE2 (opCreate K H CREATE2) 4 32000,
     register CALL (opCall H CALL) 7 0,
     register CALLCODE (opCall H CALLCODE) 7 0,
     register DELEGATECALL (opCall H DELEGATECALL) 6 0,
     register STATICCALL (opCall H STATICCALL) 6 0,
     register REVERT (opHalt REVERT) 2 0,
     register RETURN (opHalt RETURN) 2 0,
     register 0x51 opMload 1 3,
     register 0x52 opMStore 2 3,
     register 0x53 opMStore8 2 3,
     register 0x54 (opSload H) 1 0,
     register 0x55 (opSStore H) 2 0,
     register 0x20 (opSha3 K) 2 30,
     register 0x50 opPop 1 2,
     register 0x3f (opExtCodeHash H) 1 0,
     register 0x30 opAddress 0 2,
     register 0x31 (opBalance H) 1 0,
     register 0x47 (opSelfBalance H) 0 5,
     register 0x32 (opOrigin H) 0 2,
     register 0x33 opCaller 0 2,
     register 0x34 opCallValue 0 2,
     register 0x35 opCallDataLoad 1 3,
     register 0x36 opCallDataSize 0 2,
     register 0x38 opCodeSize 0 2,
     register 0x3b (opExtCodeSize H) 1 0,
     register 0x3a (opGasPrice H) 0 2,
     register 0x3d opReturnDataSize 0 2,
     register 0x46 (opChainID H) 0 2,
     register 0x58 opPC 0 2,
     register 0x59 opMSize 0 2,
     register 0x5a opGas 0 2,
     register 0x3c (opExtCodeCopy H) 4 0,
     register 0x37 opCallDataCopy 3 3,
     register 0x3e opReturnDataCopy 3 3,
     register 0x39 opCodeCopy 3 3,
     register 0x40 (opBlockHash H) 1 20,
     register 0x41 (opCoinbase H) 0 2,
     register 0x42 (opTimestamp H) 0 2,
     register 0x43 (opNumber H) 0 2,
     register 0x44 (opDifficulty H) 0 2,
     register 0x45 (opGasLimit H) 0 2,
     register 0xff (opSelfDestruct H) 1 0,
     register 0x56 opJump 1 8,
     register 0x57 opJumpi 2 10,
     register 0x5b opJumpDest 0 1 ]"

definition dispatchTable :: "Crypto \<Rightarrow> 'h Host \<Rightarrow> nat \<Rightarrow> 'h handler option" where
  "dispatchTable K H = map_of (dispatch_entries K H)"

text \<open>One round of the loop. The flag says that the round ended with \<^verbatim>\<open>break\<close>.\<close>

definition Run_step :: "Crypto \<Rightarrow> 'h Host \<Rightarrow> 'h state \<Rightarrow> (bool \<times> 'h state) option" where
  "Run_step K H c = do {
     (op, ok) \<leftarrow> CurrentOpCode c;
     (if \<not> ok then Some (True, Halt c)
      else case dispatchTable K H op of
        None \<Rightarrow> Some (True, exit (Some errOpCodeNotFound) c)
      | Some inst \<Rightarrow>
          if sp c < hd_stack inst then Some (True, exit (Some ErrStackUnderflow) c)
          else
            (let (ok, c) = consumeGas (hd_gas inst) c in
             if \<not> ok then Some (True, exit (Some ErrOutOfGas) c)
             else do {
               c \<leftarrow> hd_inst inst c;
               (if stackSize < sp c then Some (True, exit (Some ErrStackOverflow) c)
                else Some (False, c\<lparr>ip := ip c + 1\<rparr>)) })) }"

partial_function (option) Run_loop :: "Crypto \<Rightarrow> 'h Host \<Rightarrow> 'h state \<Rightarrow> 'h state option" where
  "Run_loop K H c =
    (if stop c then Some c
     else Option.bind (Run_step K H c) (\<lambda>(broke, c'). if broke then Some c' else Run_loop K H c'))"

declare Run_loop.simps [code]

definition EVM_Run ::
  "Crypto \<Rightarrow> 'h Host \<Rightarrow> 'h \<Rightarrow> Contract \<Rightarrow> ForksInTime \<Rightarrow> (ExecutionResult \<times> 'h) option" where
  "EVM_Run K H h k f = do {
     bm \<leftarrow> setCode [] (c_Code k);
     c \<leftarrow> Run_loop K H (acquireState h k f bm);
     (let gasLeft = (case err c of
                       None \<Rightarrow> gas c
                     | Some e \<Rightarrow> if e = ErrExecutionReverted then gas c else 0)
      in Some (\<lparr> ReturnValue = ret c, GasLeft = gasLeft, GasUsed = c_Gas k - gasLeft,
                 Err = err c, ResAddress = 0 \<rparr>, host c)) }"

end
