(* ===== verification/Txn.thy ===== *)
theory Txn
  imports EvmInstr
begin

text \<open>
  The transient world state of a block: \<^verbatim>\<open>state/txn.go\<close> and the account types of
  \<^verbatim>\<open>state/state.go\<close>.

  The immutable radix tree has three kinds of keys: 20-byte addresses, whose values are state objects,
  and the two 32-byte keys \<^verbatim>\<open>logIndex\<close> and \<^verbatim>\<open>refundIndex\<close>. Keys of different lengths never collide,
  so a tree is a record with a map and two optional entries, and a snapshot is the tree itself.

  Two components are parameters: the committed state below the transaction (\<open>Snap\<close>, the interface
  \<^verbatim>\<open>readSnapshot\<close>) and the code cache (\<open>Lru\<close>, \<^verbatim>\<open>hashicorp/golang-lru\<close>).
\<close>

subsection \<open>Accounts\<close>

record Account =
  acc_Nonce :: uint64
  acc_Balance :: int
  acc_Root :: hash
  acc_CodeHash :: hash

text \<open>\<^verbatim>\<open>Copy\<close> rebuilds the balance from its bytes, which drops a sign.\<close>

definition Account_Copy :: "Account \<Rightarrow> Account" where
  "Account_Copy a = a\<lparr>acc_Balance := \<bar>acc_Balance a\<bar>\<rparr>"

text \<open>A slot of \<open>so_Txn\<close> holds \<^const>\<open>None\<close> for the nil that marks a deleted slot.\<close>

record StateObject =
  so_Account :: Account
  so_Code :: "byte list"
  so_Suicide :: bool
  so_Deleted :: bool
  so_DirtyCode :: bool
  so_Txn :: "(hash \<rightharpoonup> hash option) option"

definition emptyCodeHash :: "Crypto \<Rightarrow> hash" where
  "emptyCodeHash K = Keccak256 K []"

definition emptyStateHash :: hash where
  "emptyStateHash = 0x56e81f171bcc55a6ff8345e692c0f86e5b48e01b996cadc001622fb5e363b421"

definition StateObject_Empty :: "Crypto \<Rightarrow> StateObject \<Rightarrow> bool" where
  "StateObject_Empty K s \<longleftrightarrow>
    acc_Nonce (so_Account s) = 0 \<and> acc_Balance (so_Account s) = 0
    \<and> acc_CodeHash (so_Account s) = emptyCodeHash K"

definition StateObject_Copy :: "StateObject \<Rightarrow> StateObject" where
  "StateObject_Copy s = s\<lparr>so_Account := Account_Copy (so_Account s)\<rparr>"

definition newStateObject :: "Crypto \<Rightarrow> StateObject" where
  "newStateObject K =
    \<lparr> so_Account = \<lparr> acc_Nonce = 0, acc_Balance = 0, acc_Root = emptyStateHash,
                     acc_CodeHash = emptyCodeHash K \<rparr>,
      so_Code = [], so_Suicide = False, so_Deleted = False, so_DirtyCode = False, so_Txn = None \<rparr>"

subsection \<open>The transaction\<close>

record Radix =
  rx_objects :: "address \<rightharpoonup> StateObject"
  rx_logs :: "Log list option"
  rx_refund :: "uint64 option"

record Snap =
  snap_GetStorage :: "address \<Rightarrow> hash \<Rightarrow> hash \<Rightarrow> hash"
  snap_GetAccount :: "address \<Rightarrow> Account option"
  snap_GetCode :: "hash \<Rightarrow> byte list"

record 'c Lru =
  lru_Get :: "'c \<Rightarrow> address \<Rightarrow> byte list option \<times> 'c"
  lru_Add :: "'c \<Rightarrow> address \<Rightarrow> byte list \<Rightarrow> 'c"

record 'c Txn =
  snapshot :: Snap
  snapshots :: "Radix list"
  txn :: Radix
  codeCache :: 'c

definition newTxn :: "Snap \<Rightarrow> 'c \<Rightarrow> 'c Txn" where
  "newTxn snap cache =
    \<lparr> snapshot = snap, snapshots = [],
      txn = \<lparr> rx_objects = Map.empty, rx_logs = None, rx_refund = None \<rparr>, codeCache = cache \<rparr>"

definition Snapshot :: "'c Txn \<Rightarrow> nat \<times> 'c Txn" where
  "Snapshot t = (length (snapshots t), t\<lparr>snapshots := snapshots t @ [txn t]\<rparr>)"

text \<open>An index beyond the slice panics, in the check or in the access.\<close>

definition RevertToSnapshot :: "nat \<Rightarrow> 'c Txn \<Rightarrow> 'c Txn option" where
  "RevertToSnapshot i t =
    (if i < length (snapshots t) then Some (t\<lparr>txn := snapshots t ! i\<rparr>) else None)"

definition Insert :: "address \<Rightarrow> StateObject \<Rightarrow> 'c Txn \<Rightarrow> 'c Txn" where
  "Insert a obj t = t\<lparr>txn := (txn t)\<lparr>rx_objects := (rx_objects (txn t))(a \<mapsto> obj)\<rparr>\<rparr>"

definition getStateObject :: "Crypto \<Rightarrow> 'c Txn \<Rightarrow> address \<Rightarrow> StateObject option" where
  "getStateObject K t addr =
    (case rx_objects (txn t) addr of
       Some obj \<Rightarrow> if so_Deleted obj then None else Some (StateObject_Copy obj)
     | None \<Rightarrow>
         (case snap_GetAccount (snapshot t) addr of
            None \<Rightarrow> None
          | Some account \<Rightarrow> Some ((newStateObject K)\<lparr>so_Account := Account_Copy account\<rparr>)))"

definition GetAccount :: "Crypto \<Rightarrow> 'c Txn \<Rightarrow> address \<Rightarrow> Account option" where
  "GetAccount K t addr = map_option so_Account (getStateObject K t addr)"

text \<open>The callback of \<^verbatim>\<open>upsertAccount\<close> runs on a nil object only from \<^verbatim>\<open>Suicide\<close>, which then leaves
  everything as it is.\<close>

definition upsertAccount ::
  "Crypto \<Rightarrow> address \<Rightarrow> bool \<Rightarrow> (StateObject \<Rightarrow> StateObject) \<Rightarrow> 'c Txn \<Rightarrow> 'c Txn" where
  "upsertAccount K addr create f t =
    (case getStateObject K t addr of
       Some obj \<Rightarrow> Insert addr (f obj) t
     | None \<Rightarrow> if create then Insert addr (f (newStateObject K)) t else t)"

definition upd_Balance :: "(int \<Rightarrow> int) \<Rightarrow> StateObject \<Rightarrow> StateObject" where
  "upd_Balance f obj =
    obj\<lparr>so_Account := (so_Account obj)\<lparr>acc_Balance := f (acc_Balance (so_Account obj))\<rparr>\<rparr>"

definition AddSealingReward :: "Crypto \<Rightarrow> address \<Rightarrow> int \<Rightarrow> 'c Txn \<Rightarrow> 'c Txn" where
  "AddSealingReward K addr balance =
    upsertAccount K addr True (\<lambda>obj.
      if so_Suicide obj then upd_Balance (\<lambda>_. \<bar>balance\<bar>) (newStateObject K)
      else upd_Balance (\<lambda>b. b + balance) obj)"

definition AddBalance :: "Crypto \<Rightarrow> address \<Rightarrow> int \<Rightarrow> 'c Txn \<Rightarrow> 'c Txn" where
  "AddBalance K addr balance = upsertAccount K addr True (upd_Balance (\<lambda>b. b + balance))"

definition GetBalance :: "Crypto \<Rightarrow> 'c Txn \<Rightarrow> address \<Rightarrow> int" where
  "GetBalance K t addr =
    (case getStateObject K t addr of None \<Rightarrow> 0 | Some obj \<Rightarrow> acc_Balance (so_Account obj))"

definition SubBalance :: "Crypto \<Rightarrow> address \<Rightarrow> int \<Rightarrow> 'c Txn \<Rightarrow> error + 'c Txn" where
  "SubBalance K addr amount t =
    (if amount = 0 then Inr t
     else if GetBalance K t addr < amount then Inl ErrNotEnoughFunds
     else Inr (upsertAccount K addr True (upd_Balance (\<lambda>b. b - amount)) t))"

definition SetBalance :: "Crypto \<Rightarrow> address \<Rightarrow> int \<Rightarrow> 'c Txn \<Rightarrow> 'c Txn" where
  "SetBalance K addr balance = upsertAccount K addr True (upd_Balance (\<lambda>_. \<bar>balance\<bar>))"

definition EmitLog :: "address \<Rightarrow> hash list \<Rightarrow> byte list \<Rightarrow> 'c Txn \<Rightarrow> 'c Txn" where
  "EmitLog addr topics data t =
    (let log = \<lparr>log_Address = addr, log_Topics = topics, log_Data = data\<rparr>;
         logs = (case rx_logs (txn t) of None \<Rightarrow> [] | Some ls \<Rightarrow> ls)
     in t\<lparr>txn := (txn t)\<lparr>rx_logs := Some (logs @ [log])\<rparr>\<rparr>)"

definition AddLog :: "Log \<Rightarrow> 'c Txn \<Rightarrow> 'c Txn" where
  "AddLog l t =
    (let logs = (case rx_logs (txn t) of None \<Rightarrow> [] | Some ls \<Rightarrow> ls)
     in t\<lparr>txn := (txn t)\<lparr>rx_logs := Some (logs @ [l])\<rparr>\<rparr>)"

definition GetRefund :: "'c Txn \<Rightarrow> uint64" where
  "GetRefund t = (case rx_refund (txn t) of None \<Rightarrow> 0 | Some r \<Rightarrow> r)"

definition AddRefund :: "uint64 \<Rightarrow> 'c Txn \<Rightarrow> 'c Txn" where
  "AddRefund g t = t\<lparr>txn := (txn t)\<lparr>rx_refund := Some (GetRefund t + g)\<rparr>\<rparr>"

definition SubRefund :: "uint64 \<Rightarrow> 'c Txn \<Rightarrow> 'c Txn" where
  "SubRefund g t = t\<lparr>txn := (txn t)\<lparr>rx_refund := Some (GetRefund t - g)\<rparr>\<rparr>"

definition Logs :: "'c Txn \<Rightarrow> Log list \<times> 'c Txn" where
  "Logs t =
    (case rx_logs (txn t) of
       None \<Rightarrow> ([], t)
     | Some ls \<Rightarrow> (ls, t\<lparr>txn := (txn t)\<lparr>rx_logs := None\<rparr>\<rparr>))"

subsection \<open>Storage\<close>

definition SetState :: "Crypto \<Rightarrow> address \<Rightarrow> hash \<Rightarrow> hash \<Rightarrow> 'c Txn \<Rightarrow> 'c Txn" where
  "SetState K addr key val =
    upsertAccount K addr True (\<lambda>obj.
      let m = (case so_Txn obj of None \<Rightarrow> Map.empty | Some m \<Rightarrow> m)
      in obj\<lparr>so_Txn := Some (m(key \<mapsto> (if val = 0 then None else Some val)))\<rparr>)"

definition GetState :: "Crypto \<Rightarrow> 'c Txn \<Rightarrow> address \<Rightarrow> hash \<Rightarrow> hash" where
  "GetState K t addr key =
    (case getStateObject K t addr of
       None \<Rightarrow> 0
     | Some obj \<Rightarrow>
         (case (case so_Txn obj of None \<Rightarrow> None | Some m \<Rightarrow> m key) of
            Some None \<Rightarrow> 0
          | Some (Some v) \<Rightarrow> v
          | None \<Rightarrow> snap_GetStorage (snapshot t) addr (acc_Root (so_Account obj)) key))"

definition GetCommittedState :: "Crypto \<Rightarrow> 'c Txn \<Rightarrow> address \<Rightarrow> hash \<Rightarrow> hash" where
  "GetCommittedState K t addr key =
    (case getStateObject K t addr of
       None \<Rightarrow> 0
     | Some obj \<Rightarrow> snap_GetStorage (snapshot t) addr (acc_Root (so_Account obj)) key)"

definition SetStorage ::
  "Crypto \<Rightarrow> address \<Rightarrow> hash \<Rightarrow> hash \<Rightarrow> ForksInTime \<Rightarrow> 'c Txn \<Rightarrow> StorageStatus \<times> 'c Txn" where
  "SetStorage K addr key val cfg t =
    (let oldValue = GetState K t addr key in
     if oldValue = val then (StorageUnchanged, t)
     else
       (let current = oldValue;
            original = GetCommittedState K t addr key;
            t = SetState K addr key val t;
            legacyGasMetering = (\<not> Istanbul cfg \<and> (Petersburg cfg \<or> \<not> Constantinople cfg))
        in if legacyGasMetering then
             (if oldValue = 0 then (StorageAdded, t)
              else if val = 0 then (StorageDeleted, AddRefund 15000 t)
              else (StorageModified, t))
           else if original = current then
             (if original = 0 then (StorageAdded, t)
              else if val = 0 then (StorageDeleted, AddRefund 15000 t)
              else (StorageModified, t))
           else
             (let t = (if original \<noteq> 0 then
                         (if current = 0 then SubRefund 15000 t
                          else if val = 0 then AddRefund 15000 t else t)
                       else t);
                  t = (if original = val then
                         (if original = 0
                          then AddRefund (if Istanbul cfg then 19200 else 19800) t
                          else AddRefund (if Istanbul cfg then 4200 else 4800) t)
                       else t)
              in (StorageModifiedAgain, t))))"

subsection \<open>Nonces, code and existence\<close>

definition upd_Nonce :: "(uint64 \<Rightarrow> uint64) \<Rightarrow> StateObject \<Rightarrow> StateObject" where
  "upd_Nonce f obj =
    obj\<lparr>so_Account := (so_Account obj)\<lparr>acc_Nonce := f (acc_Nonce (so_Account obj))\<rparr>\<rparr>"

definition IncrNonce :: "Crypto \<Rightarrow> address \<Rightarrow> 'c Txn \<Rightarrow> 'c Txn" where
  "IncrNonce K addr = upsertAccount K addr True (upd_Nonce (\<lambda>n. n + 1))"

definition SetNonce :: "Crypto \<Rightarrow> address \<Rightarrow> uint64 \<Rightarrow> 'c Txn \<Rightarrow> 'c Txn" where
  "SetNonce K addr nonce = upsertAccount K addr True (upd_Nonce (\<lambda>_. nonce))"

definition GetNonce :: "Crypto \<Rightarrow> 'c Txn \<Rightarrow> address \<Rightarrow> uint64" where
  "GetNonce K t addr =
    (case getStateObject K t addr of None \<Rightarrow> 0 | Some obj \<Rightarrow> acc_Nonce (so_Account obj))"

definition SetCode :: "Crypto \<Rightarrow> address \<Rightarrow> byte list \<Rightarrow> 'c Txn \<Rightarrow> 'c Txn" where
  "SetCode K addr cd =
    upsertAccount K addr True (\<lambda>obj.
      obj\<lparr>so_Account := (so_Account obj)\<lparr>acc_CodeHash := Keccak256 K cd\<rparr>,
          so_DirtyCode := True, so_Code := cd\<rparr>)"

definition GetCode :: "Crypto \<Rightarrow> 'c Lru \<Rightarrow> 'c Txn \<Rightarrow> address \<Rightarrow> byte list \<times> 'c Txn" where
  "GetCode K L t addr =
    (case getStateObject K t addr of
       None \<Rightarrow> ([], t)
     | Some obj \<Rightarrow>
         if so_DirtyCode obj then (so_Code obj, t)
         else
           (let (v, cache) = lru_Get L (codeCache t) addr; t = t\<lparr>codeCache := cache\<rparr> in
            case v of
              Some cd \<Rightarrow> (cd, t)
            | None \<Rightarrow>
                (let cd = snap_GetCode (snapshot t) (acc_CodeHash (so_Account obj))
                 in (cd, t\<lparr>codeCache := lru_Add L (codeCache t) addr cd\<rparr>))))"

definition GetCodeSize :: "Crypto \<Rightarrow> 'c Lru \<Rightarrow> 'c Txn \<Rightarrow> address \<Rightarrow> nat \<times> 'c Txn" where
  "GetCodeSize K L t addr = (let (cd, t) = GetCode K L t addr in (length cd, t))"

definition GetCodeHash :: "Crypto \<Rightarrow> 'c Txn \<Rightarrow> address \<Rightarrow> hash" where
  "GetCodeHash K t addr =
    (case getStateObject K t addr of None \<Rightarrow> 0 | Some obj \<Rightarrow> acc_CodeHash (so_Account obj))"

definition Suicide :: "Crypto \<Rightarrow> address \<Rightarrow> 'c Txn \<Rightarrow> bool \<times> 'c Txn" where
  "Suicide K addr t =
    (case getStateObject K t addr of
       None \<Rightarrow> (False, t)
     | Some obj \<Rightarrow>
         (\<not> so_Suicide obj,
          upsertAccount K addr False (\<lambda>obj. upd_Balance (\<lambda>_. 0) (obj\<lparr>so_Suicide := True\<rparr>)) t))"

definition HasSuicided :: "Crypto \<Rightarrow> 'c Txn \<Rightarrow> address \<Rightarrow> bool" where
  "HasSuicided K t addr =
    (case getStateObject K t addr of None \<Rightarrow> False | Some obj \<Rightarrow> so_Suicide obj)"

definition TouchAccount :: "Crypto \<Rightarrow> address \<Rightarrow> 'c Txn \<Rightarrow> 'c Txn" where
  "TouchAccount K addr = upsertAccount K addr True (\<lambda>obj. obj)"

definition Exist :: "Crypto \<Rightarrow> 'c Txn \<Rightarrow> address \<Rightarrow> bool" where
  "Exist K t addr \<longleftrightarrow> getStateObject K t addr \<noteq> None"

definition Empty :: "Crypto \<Rightarrow> 'c Txn \<Rightarrow> address \<Rightarrow> bool" where
  "Empty K t addr =
    (case getStateObject K t addr of None \<Rightarrow> True | Some obj \<Rightarrow> StateObject_Empty K obj)"

definition CreateAccount :: "Crypto \<Rightarrow> address \<Rightarrow> 'c Txn \<Rightarrow> 'c Txn" where
  "CreateAccount K addr t =
    Insert addr
      (case getStateObject K t addr of
         None \<Rightarrow> newStateObject K
       | Some prev \<Rightarrow> upd_Balance (\<lambda>_. \<bar>acc_Balance (so_Account prev)\<bar>) (newStateObject K)) t"

subsection \<open>The end of a transaction and of a block\<close>

definition CleanDeleteObjects :: "Crypto \<Rightarrow> bool \<Rightarrow> 'c Txn \<Rightarrow> 'c Txn" where
  "CleanDeleteObjects K deleteEmptyObjects t =
    t\<lparr>txn := (txn t)\<lparr>
      rx_objects := (\<lambda>k. map_option (\<lambda>obj.
        if so_Suicide obj \<or> (StateObject_Empty K obj \<and> deleteEmptyObjects)
        then (StateObject_Copy obj)\<lparr>so_Deleted := True\<rparr> else obj) (rx_objects (txn t) k)),
      rx_refund := None\<rparr>\<rparr>"

record Object =
  ob_Nonce :: uint64
  ob_Balance :: int
  ob_Root :: hash
  ob_CodeHash :: hash
  ob_DirtyCode :: bool
  ob_Code :: "byte list"
  ob_Deleted :: bool
  ob_Storage :: "hash \<rightharpoonup> hash option"

text \<open>\<^verbatim>\<open>Commit\<close> lists the objects in key order; the model gives them as a map from their addresses.\<close>

definition Commit_object :: "StateObject \<Rightarrow> Object" where
  "Commit_object a =
    \<lparr> ob_Nonce = acc_Nonce (so_Account a), ob_Balance = acc_Balance (so_Account a),
      ob_Root = acc_Root (so_Account a), ob_CodeHash = acc_CodeHash (so_Account a),
      ob_DirtyCode = so_DirtyCode a, ob_Code = so_Code a, ob_Deleted = so_Deleted a,
      ob_Storage = (if so_Deleted a then Map.empty
                    else case so_Txn a of None \<Rightarrow> Map.empty | Some m \<Rightarrow> m) \<rparr>"

definition Commit :: "Crypto \<Rightarrow> bool \<Rightarrow> 'c Txn \<Rightarrow> (address \<rightharpoonup> Object) \<times> 'c Txn" where
  "Commit K deleteEmptyObjects t =
    (let t = CleanDeleteObjects K deleteEmptyObjects t
     in (\<lambda>a. map_option Commit_object (rx_objects (txn t) a), t))"

end
