(* ===== verification/AllowList.thy ===== *)
theory AllowList
  imports Txn
begin

text \<open>
  The two native contracts that run outside the virtual machine: the allow lists of
  \<^verbatim>\<open>state/runtime/allowlist/allowlist.go\<close>, and the native-transfer precompile with the dispatch of
  \<^verbatim>\<open>state/runtime/precompiled/precompiled.go\<close>.

  \<open>Abi\<close> holds what \<^verbatim>\<open>umbracle/ethgo/abi\<close> computes: the four-byte method identifiers and the encoding
  of a boolean. \<open>Pre\<close> holds the gas and run functions of the precompiles other than native transfer,
  which work on their input alone.
\<close>

record Abi =
  abi_ReadAllowList :: "byte list"
  abi_SetAdmin :: "byte list"
  abi_SetEnabled :: "byte list"
  abi_SetNone :: "byte list"
  abi_bool :: "bool \<Rightarrow> byte list"

record Pre =
  pre_gas :: "address \<Rightarrow> byte list \<Rightarrow> ForksInTime \<Rightarrow> uint64"
  pre_run :: "address \<Rightarrow> byte list \<Rightarrow> byte list \<times> error option"

definition BytesToAddress :: "byte list \<Rightarrow> address" where
  "BytesToAddress b = word_of_int (big_SetBytes b)"

subsection \<open>Well-known addresses\<close>

definition NativeERC20TokenContract :: address where "NativeERC20TokenContract = 0x1010"
definition NativeTransferPrecompile :: address where "NativeTransferPrecompile = 0x2020"
definition BLSAggSigsVerificationPrecompile :: address where
  "BLSAggSigsVerificationPrecompile = 0x2030"
definition AllowListContractsAddr :: address where
  "AllowListContractsAddr = 0x0200000000000000000000000000000000000000"
definition AllowListTransactionsAddr :: address where
  "AllowListTransactionsAddr = 0x0200000000000000000000000000000000000002"

subsection \<open>Roles\<close>

type_synonym Role = hash

definition NoRole :: Role where "NoRole = 0"
definition EnabledRole :: Role where "EnabledRole = 1"
definition AdminRole :: Role where "AdminRole = 2"

definition Role_Uint64 :: "Role \<Rightarrow> uint64" where
  "Role_Uint64 r = (if r = EnabledRole then 1 else if r = AdminRole then 2 else 0)"

definition Enabled :: "Role \<Rightarrow> bool" where
  "Enabled r \<longleftrightarrow> r = AdminRole \<or> r = EnabledRole"

definition GetRole :: "Crypto \<Rightarrow> address \<Rightarrow> 'c Txn \<Rightarrow> address \<Rightarrow> Role" where
  "GetRole K a t addr = GetState K t a (ucast addr)"

definition SetRole :: "Crypto \<Rightarrow> address \<Rightarrow> address \<Rightarrow> Role \<Rightarrow> 'c Txn \<Rightarrow> 'c Txn" where
  "SetRole K a addr role = SetState K a (ucast addr) role"

subsection \<open>Calls to an allow list\<close>

definition writeAllowListCost :: uint64 where "writeAllowListCost = 20000"
definition readAllowListCost :: uint64 where "readAllowListCost = 5000"

definition runInputCall ::
  "Crypto \<Rightarrow> Abi \<Rightarrow> address \<Rightarrow> address \<Rightarrow> byte list \<Rightarrow> uint64 \<Rightarrow> bool \<Rightarrow> 'c Txn
    \<Rightarrow> byte list \<times> uint64 \<times> error option \<times> 'c Txn" where
  "runInputCall K A a caller inp g isStatic t =
    (if length inp < 4 then ([], 0, Some errNoFunctionSignature, t)
     else
       (let sig = take 4 inp; inputBytes = drop 4 inp in
        if length inputBytes \<noteq> 32 then ([], 0, Some errInputTooShort, t)
        else
          (let inputAddr = BytesToAddress inputBytes in
           if sig = abi_ReadAllowList A then
             (if g < readAllowListCost then ([], 0, Some ErrOutOfGas, t)
              else (be_bytes 32 (uint (GetRole K a t inputAddr)), readAllowListCost, None, t))
           else
             (let updateRole = (if sig = abi_SetAdmin A then Some AdminRole
                                else if sig = abi_SetEnabled A then Some EnabledRole
                                else if sig = abi_SetNone A then Some NoRole else None) in
              case updateRole of
                None \<Rightarrow> ([], 0, Some errFunctionNotFound, t)
              | Some role \<Rightarrow>
                  if g < writeAllowListCost then ([], 0, Some ErrOutOfGas, t)
                  else if isStatic then ([], writeAllowListCost, Some errWriteProtection, t)
                  else if GetRole K a t caller \<noteq> AdminRole
                  then ([], writeAllowListCost, Some ErrNotAuth, t)
                  else ([], writeAllowListCost, None, SetRole K a inputAddr role t)))))"

definition AllowList_Run ::
  "Crypto \<Rightarrow> Abi \<Rightarrow> address \<Rightarrow> Contract \<Rightarrow> 'c Txn \<Rightarrow> ExecutionResult \<times> 'c Txn" where
  "AllowList_Run K A a c t =
    (let (ret, gasUsed, e, t) = runInputCall K A a (c_Caller c) (c_Input c) (c_Gas c) (c_Static c) t
     in (\<lparr> ReturnValue = ret, GasLeft = c_Gas c - gasUsed, GasUsed = gasUsed, Err = e,
           ResAddress = 0 \<rparr>, t))"

subsection \<open>Precompiled contracts\<close>

definition Transfer ::
  "Crypto \<Rightarrow> address \<Rightarrow> address \<Rightarrow> int option \<Rightarrow> 'c Txn \<Rightarrow> error option \<times> 'c Txn" where
  "Transfer K from to amount t =
    (case amount of
       None \<Rightarrow> (None, t)
     | Some v \<Rightarrow>
         (case SubBalance K from v t of
            Inl e \<Rightarrow> (Some (if e = ErrNotEnoughFunds then ErrInsufficientBalance else e), t)
          | Inr t' \<Rightarrow> (None, AddBalance K to v t')))"

definition precompiled_addresses :: "address list" where
  "precompiled_addresses =
    [1, 2, 3, 4, 5, 6, 7, 8, 9, NativeTransferPrecompile, BLSAggSigsVerificationPrecompile]"

definition Precompiled_CanRun :: "Contract \<Rightarrow> ForksInTime \<Rightarrow> bool" where
  "Precompiled_CanRun c cfg =
    (if c_CodeAddress c \<notin> set precompiled_addresses then False
     else if c_CodeAddress c \<in> {5, 6, 7, 8} then Byzantium cfg
     else if c_CodeAddress c = 9 then Istanbul cfg
     else True)"

definition nativeTransfer_gas :: uint64 where
  "nativeTransfer_gas = 21000"

definition nativeTransfer_run ::
  "Crypto \<Rightarrow> Abi \<Rightarrow> byte list \<Rightarrow> address \<Rightarrow> 'c Txn \<Rightarrow> byte list \<times> error option \<times> 'c Txn" where
  "nativeTransfer_run K A inp caller t =
    (if length inp < 96 then (abi_bool A False, Some ErrInvalidInputData, t)
     else if caller \<noteq> NativeERC20TokenContract
     then (abi_bool A False, Some ErrUnauthorizedCaller, t)
     else
       (let from = BytesToAddress (take 32 inp);
            to = BytesToAddress (take 32 (drop 32 inp));
            amount = big_SetBytes (take 32 (drop 64 inp));
            (e, t) = Transfer K from to (Some amount) t
        in case e of Some e \<Rightarrow> (abi_bool A False, Some e, t)
           | None \<Rightarrow> (abi_bool A True, None, t)))"

definition Precompiled_Run ::
  "Crypto \<Rightarrow> Abi \<Rightarrow> Pre \<Rightarrow> Contract \<Rightarrow> ForksInTime \<Rightarrow> 'c Txn \<Rightarrow> ExecutionResult \<times> 'c Txn" where
  "Precompiled_Run K A P c cfg t =
    (let native = (c_CodeAddress c = NativeTransferPrecompile);
         gasCost = (if native then nativeTransfer_gas
                    else pre_gas P (c_CodeAddress c) (c_Input c) cfg)
     in if c_Gas c < gasCost then (result_err 0 ErrOutOfGas, t)
        else
          (let (ret, e, t) = (if native then nativeTransfer_run K A (c_Input c) (c_Caller c) t
                              else (let (ret, e) = pre_run P (c_CodeAddress c) (c_Input c)
                                    in (ret, e, t)));
               result = \<lparr> ReturnValue = ret, GasLeft = c_Gas c - gasCost, GasUsed = 0, Err = e,
                          ResAddress = 0 \<rparr>
           in (if Failed result then result\<lparr>GasLeft := 0, ReturnValue := []\<rparr> else result, t)))"

end
