(* ===== verification/Executor.thy ===== *)
theory Executor
  imports EvmRun AllowList
begin

text \<open>
  The block executor of \<^verbatim>\<open>state/executor.go\<close>: a \<^verbatim>\<open>Transition\<close> applies transactions to the transient
  state and is itself the host of the virtual machine.

  The host and the interpreter call each other. The recursion is through the depth of the call
  stack: \<open>Transition_host n\<close> is the host of a frame above which at most \<open>n\<close> further frames can be
  opened, and a frame deeper than 1025 is refused before its host is used, so \<open>n = 1025\<close> is enough for
  the frame at depth 1 of a transaction. Tracing and logging are left out, and the \<^verbatim>\<open>PostHook\<close>, which
  no code sets, is nil.
\<close>

record 'c Env =
  env_K :: Crypto
  env_L :: "'c Lru"
  env_A :: Abi
  env_P :: Pre
  env_newCache :: 'c
  env_Sender :: "ForksInTime \<Rightarrow> uint64 \<Rightarrow> Transaction \<Rightarrow> address option"

record 'c Transition =
  t_config :: ForksInTime
  t_state :: "'c Txn"
  t_getHash :: "uint64 \<Rightarrow> hash"
  t_ctx :: TxContext
  t_gasPool :: uint64
  t_receipts :: "Receipt list"
  t_totalGas :: uint64
  t_deploymentAllowlist :: "address option"
  t_txnAllowList :: "address option"

datatype txError =
    ErrNonceIncorrect | ErrNotEnoughFundsForGas | ErrBlockLimitReached | ErrIntrinsicGasOverflow
  | ErrNotEnoughIntrinsicGas
  | errInvalidSender | errStateTxGasPrice | errStateTxGas | errStateTxSender | errStateTxTo

text \<open>The flag says whether the transaction is put back in the queue.\<close>

datatype applicationError =
    TransitionApplicationError txError bool
  | GasLimitReachedTransitionApplicationError txError bool

definition SpuriousDragonMaxCodeSize :: nat where "SpuriousDragonMaxCodeSize = 24576"
definition TxGas :: uint64 where "TxGas = 21000"
definition TxGasContractCreation :: uint64 where "TxGasContractCreation = 53000"

subsection \<open>Running a frame\<close>

definition run ::
  "'c Env \<Rightarrow> 'c Transition Host \<Rightarrow> Contract \<Rightarrow> 'c Transition
    \<Rightarrow> (ExecutionResult \<times> 'c Transition) option" where
  "run E H c t =
    (let K = env_K E;
         allow = (\<lambda>a. let (r, s) = AllowList_Run K (env_A E) a c (t_state t)
                      in Some (r, t\<lparr>t_state := s\<rparr>));
         rest = (if Precompiled_CanRun c (t_config t) then
                   (let (r, s) = Precompiled_Run K (env_A E) (env_P E) c (t_config t) (t_state t)
                    in Some (r, t\<lparr>t_state := s\<rparr>))
                 else EVM_Run K H t c (t_config t))
     in if t_deploymentAllowlist t = Some (c_CodeAddress c) then allow (c_CodeAddress c)
        else case t_txnAllowList t of
          None \<Rightarrow> rest
        | Some a \<Rightarrow>
            if a = c_CodeAddress c then allow a
            else if c_Caller c \<noteq> SystemCaller \<and> \<not> Enabled (GetRole K a (t_state t) (c_Caller c))
            then Some (result_err 0 errCallerNotAuthorized, t)
            else rest)"

text \<open>A failed frame is undone by going back to its snapshot.\<close>

definition revertTo :: "nat \<Rightarrow> 'c Transition \<Rightarrow> 'c Transition option" where
  "revertTo i t = do { s \<leftarrow> RevertToSnapshot i (t_state t); Some (t\<lparr>t_state := s\<rparr>) }"

definition applyCall ::
  "'c Env \<Rightarrow> 'c Transition Host \<Rightarrow> Contract \<Rightarrow> CallType \<Rightarrow> 'c Transition
    \<Rightarrow> (ExecutionResult \<times> 'c Transition) option" where
  "applyCall E H c ct t =
    (if 1024 + 1 < c_Depth c then Some (result_err (c_Gas c) ErrDepth, t)
     else
       (let K = env_K E;
            (snap, s) = Snapshot (t_state t);
            s = TouchAccount K (c_Address c) s;
            (e, s) = (if ct = Call then Transfer K (c_Caller c) (c_Address c) (c_Value c) s
                      else (None, s));
            t = t\<lparr>t_state := s\<rparr>
        in case e of
             Some e \<Rightarrow> Some (result_err (c_Gas c) e, t)
           | None \<Rightarrow> do {
               (result, t) \<leftarrow> run E H c t;
               (if Failed result then do { t \<leftarrow> revertTo snap t; Some (result, t) }
                else Some (result, t)) }))"

definition hasCodeOrNonce :: "Crypto \<Rightarrow> 'c Txn \<Rightarrow> address \<Rightarrow> bool" where
  "hasCodeOrNonce K t addr =
    (if GetNonce K t addr \<noteq> 0 then True
     else (let codeHash = GetCodeHash K t addr in
           codeHash \<noteq> emptyCodeHash K \<and> codeHash \<noteq> 0))"

text \<open>The end of \<^verbatim>\<open>applyCreate\<close>: what becomes of the code that the init code returned.\<close>

definition storeCode ::
  "'c Env \<Rightarrow> Contract \<Rightarrow> nat \<Rightarrow> ExecutionResult \<Rightarrow> 'c Transition
    \<Rightarrow> (ExecutionResult \<times> 'c Transition) option" where
  "storeCode E c snap result t =
    (if Failed result then do { t \<leftarrow> revertTo snap t; Some (result, t) }
     else if EIP158 (t_config t) \<and> SpuriousDragonMaxCodeSize < length (ReturnValue result)
     then do { t \<leftarrow> revertTo snap t; Some (result_err 0 ErrMaxCodeSizeExceeded, t) }
     else
       (let gasCost = of_nat (length (ReturnValue result)) * 200 in
        if GasLeft result < gasCost then
          (let result = result\<lparr>Err := Some ErrCodeStoreOutOfGas, ReturnValue := []\<rparr> in
           if Homestead (t_config t)
           then do { t \<leftarrow> revertTo snap t; Some (result\<lparr>GasLeft := 0\<rparr>, t) }
           else Some (result, t))
        else
          Some (result\<lparr>GasLeft := GasLeft result - gasCost, ResAddress := c_Address c\<rparr>,
                t\<lparr>t_state := SetCode (env_K E) (c_Address c) (ReturnValue result) (t_state t)\<rparr>)))"

definition applyCreate ::
  "'c Env \<Rightarrow> 'c Transition Host \<Rightarrow> Contract \<Rightarrow> 'c Transition
    \<Rightarrow> (ExecutionResult \<times> 'c Transition) option" where
  "applyCreate E H c t =
    (if 1024 + 1 < c_Depth c then Some (result_err (c_Gas c) ErrDepth, t)
     else
       (let K = env_K E;
            s = IncrNonce K (c_Caller c) (t_state t) in
        if hasCodeOrNonce K s (c_Address c)
        then Some (result_err 0 ErrContractAddressCollision, t\<lparr>t_state := s\<rparr>)
        else
          (let (snap, s) = Snapshot s;
               s = (if EIP158 (t_config t)
                    then IncrNonce K (c_Address c) (CreateAccount K (c_Address c) s) else s);
               (e, s) = Transfer K (c_Caller c) (c_Address c) (c_Value c) s;
               t = t\<lparr>t_state := s\<rparr>
           in case e of
                Some e \<Rightarrow> Some (result_err (c_Gas c) e, t)
              | None \<Rightarrow>
                  if (case t_deploymentAllowlist t of
                        None \<Rightarrow> False
                      | Some a \<Rightarrow> \<not> Enabled (GetRole K a (t_state t) (c_Caller c)))
                  then Some (result_err 0 ErrNotAuth, t)
                  else do {
                    (result, t) \<leftarrow> run E H c t;
                    storeCode E c snap result t })))"

definition Callx ::
  "'c Env \<Rightarrow> 'c Transition Host \<Rightarrow> 'c Transition \<Rightarrow> Contract
    \<Rightarrow> (ExecutionResult \<times> 'c Transition) option" where
  "Callx E H t c =
    (if c_Type c = Create then applyCreate E H c t else applyCall E H c (c_Type c) t)"

definition Selfdestruct :: "'c Env \<Rightarrow> 'c Transition \<Rightarrow> address \<Rightarrow> address \<Rightarrow> 'c Transition" where
  "Selfdestruct E t addr beneficiary =
    (let K = env_K E;
         s = (if HasSuicided K (t_state t) addr then t_state t else AddRefund 24000 (t_state t));
         s = AddBalance K beneficiary (GetBalance K s addr) s;
         (_, s) = Suicide K addr s
     in t\<lparr>t_state := s\<rparr>)"

text \<open>The methods by which a \<^verbatim>\<open>Transition\<close> implements \<^verbatim>\<open>runtime.Host\<close>, for a given way of running
  nested frames.\<close>

definition host_with ::
  "'c Env \<Rightarrow> ('c Transition \<Rightarrow> Contract \<Rightarrow> (ExecutionResult \<times> 'c Transition) option)
    \<Rightarrow> 'c Transition Host" where
  "host_with E callx =
    \<lparr> h_AccountExists = (\<lambda>t a. Exist (env_K E) (t_state t) a),
      h_GetStorage = (\<lambda>t a key. GetState (env_K E) (t_state t) a key),
      h_SetStorage = (\<lambda>t a key val cfg.
        let (status, s) = SetStorage (env_K E) a key val cfg (t_state t)
        in (status, t\<lparr>t_state := s\<rparr>)),
      h_GetBalance = (\<lambda>t a. GetBalance (env_K E) (t_state t) a),
      h_GetCodeSize = (\<lambda>t a.
        let (n, s) = GetCodeSize (env_K E) (env_L E) (t_state t) a in (n, t\<lparr>t_state := s\<rparr>)),
      h_GetCodeHash = (\<lambda>t a. GetCodeHash (env_K E) (t_state t) a),
      h_GetCode = (\<lambda>t a.
        let (cd, s) = GetCode (env_K E) (env_L E) (t_state t) a in (cd, t\<lparr>t_state := s\<rparr>)),
      h_Selfdestruct = Selfdestruct E,
      h_GetTxContext = t_ctx,
      h_GetBlockHash = (\<lambda>t n. t_getHash t (word_of_int n)),
      h_EmitLog = (\<lambda>t a topics data. t\<lparr>t_state := EmitLog a topics data (t_state t)\<rparr>),
      h_Callx = callx,
      h_Empty = (\<lambda>t a. Empty (env_K E) (t_state t) a),
      h_GetNonce = (\<lambda>t a. GetNonce (env_K E) (t_state t) a) \<rparr>"

primrec Transition_host :: "'c Env \<Rightarrow> nat \<Rightarrow> 'c Transition Host" where
  "Transition_host E 0 = host_with E (\<lambda>_ _. None)"
| "Transition_host E (Suc n) = host_with E (Callx E (Transition_host E n))"

subsection \<open>Applying a transaction\<close>

definition subGasPool :: "uint64 \<Rightarrow> 'c Transition \<Rightarrow> txError + 'c Transition" where
  "subGasPool amount t =
    (if t_gasPool t < amount then Inl ErrBlockLimitReached
     else Inr (t\<lparr>t_gasPool := t_gasPool t - amount\<rparr>))"

definition addGasPool :: "uint64 \<Rightarrow> 'c Transition \<Rightarrow> 'c Transition" where
  "addGasPool amount t = t\<lparr>t_gasPool := t_gasPool t + amount\<rparr>"

definition subGasLimitPrice :: "'c Env \<Rightarrow> Transaction \<Rightarrow> 'c Transition \<Rightarrow> txError + 'c Transition" where
  "subGasLimitPrice E m t =
    (case SubBalance (env_K E) (tx_From m) (tx_GasPrice m * uint (tx_Gas m)) (t_state t) of
       Inl _ \<Rightarrow> Inl ErrNotEnoughFundsForGas
     | Inr s \<Rightarrow> Inr (t\<lparr>t_state := s\<rparr>))"

definition nonceCheck :: "'c Env \<Rightarrow> Transaction \<Rightarrow> 'c Transition \<Rightarrow> txError option" where
  "nonceCheck E m t =
    (if GetNonce (env_K E) (t_state t) (tx_From m) \<noteq> tx_Nonce m then Some ErrNonceIncorrect
     else None)"

definition checkAndProcessLegacyTx ::
  "'c Env \<Rightarrow> Transaction \<Rightarrow> 'c Transition \<Rightarrow> applicationError + 'c Transition" where
  "checkAndProcessLegacyTx E m t =
    (case nonceCheck E m t of
       Some e \<Rightarrow> Inl (TransitionApplicationError e True)
     | None \<Rightarrow>
         (case subGasLimitPrice E m t of
            Inl e \<Rightarrow> Inl (TransitionApplicationError e True)
          | Inr t \<Rightarrow> Inr t))"

definition checkAndProcessStateTx ::
  "Transaction \<Rightarrow> 'c Transition \<Rightarrow> applicationError + 'c Transition" where
  "checkAndProcessStateTx m t =
    (if tx_GasPrice m \<noteq> 0 then Inl (TransitionApplicationError errStateTxGasPrice True)
     else if tx_Gas m \<noteq> StateTransactionGasLimit
     then Inl (TransitionApplicationError errStateTxGas True)
     else if tx_From m \<noteq> SystemCaller then Inl (TransitionApplicationError errStateTxSender True)
     else if tx_To m = None \<or> tx_To m = Some 0
     then Inl (TransitionApplicationError errStateTxTo True)
     else Inr t)"

definition TransactionGasCost :: "Transaction \<Rightarrow> bool \<Rightarrow> bool \<Rightarrow> txError + uint64" where
  "TransactionGasCost m isHomestead isIstanbul =
    (let cost = (if IsContractCreation m \<and> isHomestead then TxGasContractCreation else TxGas);
         payload = tx_Input m
     in if payload = [] then Inr cost
        else
          (let zeros = (of_nat (length (filter (\<lambda>b. b = 0) payload)) :: uint64);
               nonZeros = of_nat (length payload) - zeros;
               nonZeroCost = (if isIstanbul then 16 else 68)
           in if (- 1 - cost) div nonZeroCost < nonZeros then Inl ErrIntrinsicGasOverflow
              else
                (let cost = cost + nonZeros * nonZeroCost in
                 if (- 1 - cost) div 4 < zeros then Inl ErrIntrinsicGasOverflow
                 else Inr (cost + zeros * 4))))"

definition Create2 ::
  "'c Env \<Rightarrow> address \<Rightarrow> byte list \<Rightarrow> int \<Rightarrow> uint64 \<Rightarrow> 'c Transition
    \<Rightarrow> (ExecutionResult \<times> 'c Transition) option" where
  "Create2 E caller cd val g t =
    (let K = env_K E; addr = CreateAddress K caller (GetNonce K (t_state t) caller) in
     applyCreate E (Transition_host E 1025)
       (NewContractCreation 1 caller caller addr (Some val) g cd) t)"

definition Call2 ::
  "'c Env \<Rightarrow> address \<Rightarrow> address \<Rightarrow> byte list \<Rightarrow> int \<Rightarrow> uint64 \<Rightarrow> 'c Transition
    \<Rightarrow> (ExecutionResult \<times> 'c Transition) option" where
  "Call2 E caller to inp val g t =
    (let (cd, s) = GetCode (env_K E) (env_L E) (t_state t) to in
     applyCall E (Transition_host E 1025)
       (NewContractCall 1 caller caller to (Some val) g cd inp) Call (t\<lparr>t_state := s\<rparr>))"

text \<open>The part of \<^verbatim>\<open>apply\<close> after the checks of the transaction: run it, settle the gas, refund the
  sender and pay the coinbase.\<close>

definition settle :: "'c Env \<Rightarrow> Transaction \<Rightarrow> ExecutionResult \<Rightarrow> 'c Transition
    \<Rightarrow> ExecutionResult \<times> 'c Transition" where
  "settle E m result t =
    (let K = env_K E;
         result = UpdateGasUsed result (tx_Gas m) (GetRefund (t_state t));
         s = AddBalance K (tx_From m) (uint (GasLeft result) * tx_GasPrice m) (t_state t);
         s = AddBalance K (Coinbase (t_ctx t)) (uint (GasUsed result) * tx_GasPrice m) s
     in (result, addGasPool (GasLeft result) (t\<lparr>t_state := s\<rparr>)))"

definition execute_message :: "'c Env \<Rightarrow> Transaction \<Rightarrow> uint64 \<Rightarrow> 'c Transition
    \<Rightarrow> (ExecutionResult \<times> 'c Transition) option" where
  "execute_message E m gasLeft t =
    (let t = t\<lparr>t_ctx := (t_ctx t)\<lparr>GasPrice := word_of_int \<bar>tx_GasPrice m\<bar>, Origin := tx_From m\<rparr>\<rparr> in
     case tx_To m of
       None \<Rightarrow> Create2 E (tx_From m) (tx_Input m) (tx_Value m) gasLeft t
     | Some to \<Rightarrow>
         Call2 E (tx_From m) to (tx_Input m) (tx_Value m) gasLeft
           (t\<lparr>t_state := IncrNonce (env_K E) (tx_From m) (t_state t)\<rparr>))"

definition apply_tx ::
  "'c Env \<Rightarrow> Transaction \<Rightarrow> 'c Transition
    \<Rightarrow> ((applicationError + ExecutionResult) \<times> 'c Transition) option" where
  "apply_tx E m t =
    (case (if tx_Type m = StateTx then checkAndProcessStateTx m t
           else checkAndProcessLegacyTx E m t) of
       Inl e \<Rightarrow> Some (Inl e, t)
     | Inr t \<Rightarrow>
         (case subGasPool (tx_Gas m) t of
            Inl e \<Rightarrow> Some (Inl (GasLimitReachedTransitionApplicationError e True), t)
          | Inr t \<Rightarrow>
              (case TransactionGasCost m (Homestead (t_config t)) (Istanbul (t_config t)) of
                 Inl e \<Rightarrow> Some (Inl (TransitionApplicationError e False), t)
               | Inr intrinsicGasCost \<Rightarrow>
                   (let gasLeft = tx_Gas m - intrinsicGasCost in
                    if tx_Gas m < gasLeft
                    then Some (Inl (TransitionApplicationError ErrNotEnoughIntrinsicGas False), t)
                    else do {
                      (result, t) \<leftarrow> execute_message E m gasLeft t;
                      (let (result, t) = settle E m result t in Some (Inr result, t)) }))))"

definition Apply ::
  "'c Env \<Rightarrow> Transaction \<Rightarrow> 'c Transition
    \<Rightarrow> ((applicationError + ExecutionResult) \<times> 'c Transition) option" where
  "Apply E m t = do {
     let (snap, s) = Snapshot (t_state t);
     (result, t) \<leftarrow> apply_tx E m (t\<lparr>t_state := s\<rparr>);
     (case result of
        Inl e \<Rightarrow> do { t \<leftarrow> revertTo snap t; Some (Inl e, t) }
      | Inr r \<Rightarrow> Some (Inr r, t)) }"

subsection \<open>Writing transactions and blocks\<close>

text \<open>A legacy transaction without a sender gets it from its signature.\<close>

definition recoverFrom :: "'c Env \<Rightarrow> 'c Transition \<Rightarrow> Transaction \<Rightarrow> applicationError + Transaction"
  where
  "recoverFrom E t m =
    (if tx_From m = 0 \<and> tx_Type m = LegacyTx then
       (case env_Sender E (t_config t) (word_of_int (ChainID (t_ctx t))) m of
          None \<Rightarrow> Inl (TransitionApplicationError errInvalidSender False)
        | Some from \<Rightarrow> Inr (m\<lparr>tx_From := from\<rparr>))
     else Inr m)"

definition WriteFailedReceipt ::
  "'c Env \<Rightarrow> Transaction \<Rightarrow> 'c Transition \<Rightarrow> applicationError + 'c Transition" where
  "WriteFailedReceipt E m t =
    (case recoverFrom E t m of
       Inl e \<Rightarrow> Inl e
     | Inr m \<Rightarrow>
         (let (logs, s) = Logs (t_state t);
              receipt = \<lparr> rc_Root = 0, rc_CumulativeGasUsed = t_totalGas t, rc_LogsBloom = [], rc_Logs = logs,
                          rc_Status = Some ReceiptFailed, rc_GasUsed = 0,
                          rc_ContractAddress =
                            (case tx_To m of
                               None \<Rightarrow> Some (CreateAddress (env_K E) (tx_From m) (tx_Nonce m))
                             | Some _ \<Rightarrow> None),
                          rc_TxHash = tx_Hash m, rc_TransactionType = tx_Type m \<rparr>;
              receipt = receipt\<lparr>rc_LogsBloom := CreateBloom (env_K E) [receipt]\<rparr>
          in Inr (t\<lparr>t_state := s, t_receipts := t_receipts t @ [receipt]\<rparr>)))"

definition Write ::
  "'c Env \<Rightarrow> Transaction \<Rightarrow> 'c Transition \<Rightarrow> (applicationError option \<times> 'c Transition) option" where
  "Write E m t =
    (case recoverFrom E t m of
       Inl e \<Rightarrow> Some (Some e, t)
     | Inr m \<Rightarrow> do {
         (result, t) \<leftarrow> Apply E m t;
         (case result of
            Inl e \<Rightarrow> Some (Some e, t)
          | Inr result \<Rightarrow>
              (let totalGas = t_totalGas t + GasUsed result;
                   (logs, s) = Logs (t_state t);
                   s = CleanDeleteObjects (env_K E) True s;
                   receipt = \<lparr> rc_Root = 0, rc_CumulativeGasUsed = totalGas, rc_LogsBloom = [], rc_Logs = logs,
                               rc_Status = Some (if Failed result then ReceiptFailed
                                                 else ReceiptSuccess),
                               rc_GasUsed = GasUsed result,
                               rc_ContractAddress =
                                 (case tx_To m of
                                    None \<Rightarrow> Some (CreateAddress (env_K E) (tx_From m) (tx_Nonce m))
                                  | Some _ \<Rightarrow> None),
                               rc_TxHash = tx_Hash m, rc_TransactionType = tx_Type m \<rparr>;
                   receipt = receipt\<lparr>rc_LogsBloom := CreateBloom (env_K E) [receipt]\<rparr>
               in Some (None, t\<lparr>t_totalGas := totalGas, t_state := s,
                                t_receipts := t_receipts t @ [receipt]\<rparr>))) })"

record ExecHeader =
  hdr_Number :: uint64
  hdr_Timestamp :: uint64
  hdr_Difficulty :: uint64
  hdr_GasLimit :: uint64

record ChainParams =
  cp_Forks :: Forks
  cp_ChainID :: int
  cp_ContractDeployerAllowList :: bool
  cp_TransactionsAllowList :: bool

definition BeginTxn ::
  "'c Env \<Rightarrow> ChainParams \<Rightarrow> (ExecHeader \<Rightarrow> uint64 \<Rightarrow> hash) \<Rightarrow> Snap \<Rightarrow> ExecHeader \<Rightarrow> address
    \<Rightarrow> 'c Transition" where
  "BeginTxn E cp getHash snap header coinbaseReceiver =
    \<lparr> t_config = Forks_At (cp_Forks cp) (hdr_Number header),
      t_state = newTxn snap (env_newCache E),
      t_getHash = getHash header,
      t_ctx = \<lparr> GasPrice = 0, Origin = 0, Coinbase = coinbaseReceiver,
                Number = sint (hdr_Number header), Timestamp = sint (hdr_Timestamp header),
                GasLimit = sint (hdr_GasLimit header), ChainID = cp_ChainID cp,
                Difficulty = ucast (hdr_Difficulty header) \<rparr>,
      t_gasPool = hdr_GasLimit header,
      t_receipts = [], t_totalGas = 0,
      t_deploymentAllowlist =
        (if cp_ContractDeployerAllowList cp then Some AllowListContractsAddr else None),
      t_txnAllowList =
        (if cp_TransactionsAllowList cp then Some AllowListTransactionsAddr else None) \<rparr>"

fun ProcessTransactions ::
  "'c Env \<Rightarrow> uint64 \<Rightarrow> Transaction list \<Rightarrow> 'c Transition
    \<Rightarrow> (applicationError + 'c Transition) option" where
  "ProcessTransactions E gasLimit [] t = Some (Inr t)"
| "ProcessTransactions E gasLimit (m # ms) t =
    (if ExceedsBlockGasLimit m gasLimit then
       (case WriteFailedReceipt E m t of
          Inl e \<Rightarrow> Some (Inl e)
        | Inr t \<Rightarrow> ProcessTransactions E gasLimit ms t)
     else do {
       (e, t) \<leftarrow> Write E m t;
       (case e of Some e \<Rightarrow> Some (Inl e) | None \<Rightarrow> ProcessTransactions E gasLimit ms t) })"

definition ProcessBlock ::
  "'c Env \<Rightarrow> ChainParams \<Rightarrow> (ExecHeader \<Rightarrow> uint64 \<Rightarrow> hash) \<Rightarrow> Snap \<Rightarrow> ExecHeader \<Rightarrow> Transaction list
    \<Rightarrow> address \<Rightarrow> (applicationError + 'c Transition) option" where
  "ProcessBlock E cp getHash snap header txs blockCreator =
    ProcessTransactions E (hdr_GasLimit header) txs (BeginTxn E cp getHash snap header blockCreator)"

end
