(* ===== verification/EvmSafety.thy ===== *)
theory EvmSafety
  imports EvmRun
begin

text \<open>
  Safety of the interpreter: with the gas rules of EIP-150, and over a host that keeps its own
  promises, a run never panics, always returns, never ends with more gas than it started with, and
  keeps the stack and the memory within their bounds.

  \<open>holds m Q\<close> says that \<open>m\<close> returns a result satisfying \<open>Q\<close>; the collection \<open>vcg\<close> has a rule per
  construct and per primitive of the machine, so the lemma for an instruction is its unfolding, the
  rules and automation. The locale \<open>evm_host\<close> is the contract between the interpreter and its host.
\<close>

subsection \<open>Results of fallible code\<close>

definition holds :: "'a option \<Rightarrow> ('a \<Rightarrow> bool) \<Rightarrow> bool" where
  "holds m Q = (case m of None \<Rightarrow> False | Some r \<Rightarrow> Q r)"

definition in_range :: "int \<Rightarrow> bool" where
  "in_range v \<longleftrightarrow> 0 \<le> v \<and> v < 2 ^ 256"

definition mem_bound :: nat where
  "mem_bound = 0x1ffffffffc0"

text \<open>What an instruction relies on when it starts in the state \<open>c\<close>: \<open>d\<close> is the depth of the frame
  and \<open>st\<close> says that it must not write.\<close>

definition entry :: "bool \<Rightarrow> int \<Rightarrow> 'h state \<Rightarrow> bool" where
  "entry st d c \<longleftrightarrow>
    EIP150 (config c) \<and> c_Depth (msg c) = d \<and> (st \<longrightarrow> c_Static (msg c))
    \<and> (\<forall>v. c_Value (msg c) = Some v \<longrightarrow> in_range v)
    \<and> length (bitmap c) = length (code c) div 8 + 1"

definition frame :: "('h \<Rightarrow> bool) \<Rightarrow> ('h \<Rightarrow> 'h \<Rightarrow> bool) \<Rightarrow> 'h state \<Rightarrow> 'h state \<Rightarrow> bool" where
  "frame Inv R c0 c \<longleftrightarrow>
    code c = code c0 \<and> msg c = msg c0 \<and> config c = config c0 \<and> bitmap c = bitmap c0
    \<and> Inv (host c) \<and> R (host c0) (host c) \<and> length (memory c) \<le> mem_bound \<and> gas c \<le> gas c0"

text \<open>\<open>good\<close> holds while an instruction runs, \<open>post\<close> when it has finished. A \<open>PUSH\<close> that runs over
  the end of the code leaves a value of any size on the stack, and nothing executes after it.\<close>

definition good ::
  "('h \<Rightarrow> bool) \<Rightarrow> ('h \<Rightarrow> 'h \<Rightarrow> bool) \<Rightarrow> bool \<Rightarrow> int \<Rightarrow> 'h state \<Rightarrow> 'h state \<Rightarrow> bool" where
  "good Inv R st d c0 c \<longleftrightarrow>
    entry st d c0 \<and> frame Inv R c0 c \<and> ip c = ip c0 \<and> 0 \<le> ip c0 \<and> ip c0 < int (length (code c0))
    \<and> (\<forall>v \<in> set (stack c). in_range v)"

definition post ::
  "('h \<Rightarrow> bool) \<Rightarrow> ('h \<Rightarrow> 'h \<Rightarrow> bool) \<Rightarrow> bool \<Rightarrow> 'h state \<Rightarrow> 'h state \<Rightarrow> bool" where
  "post Inv R strict c0 c \<longleftrightarrow>
    frame Inv R c0 c \<and> - 1 \<le> ip c
    \<and> ((\<forall>v \<in> set (stack c). in_range v) \<or> int (length (code c)) \<le> ip c + 1)
    \<and> (strict \<longrightarrow> stop c \<or> gas c < gas c0)"

named_theorems vcg "rules for fallible code"

lemma holds_Some [vcg]: "Q r \<Longrightarrow> holds (Some r) Q"
  by (simp add: holds_def)

lemma holds_bind: "holds m (\<lambda>r. holds (f r) Q) \<Longrightarrow> holds (m \<bind> f) Q"
  by (cases m) (simp_all add: holds_def)

lemma holds_mono: "holds m P \<Longrightarrow> (\<And>r. P r \<Longrightarrow> Q r) \<Longrightarrow> holds m Q"
  by (cases m) (simp_all add: holds_def)

lemma holds_if [vcg]:
  "(b \<Longrightarrow> holds x Q) \<Longrightarrow> (\<not> b \<Longrightarrow> holds y Q) \<Longrightarrow> holds (if b then x else y) Q"
  by simp

lemma holds_case_prod [vcg]: "holds (f a b) Q \<Longrightarrow> holds (case (a, b) of (x, y) \<Rightarrow> f x y) Q"
  by simp

lemma holds_case_option [vcg]:
  "(m = None \<Longrightarrow> holds a Q) \<Longrightarrow> (\<And>x. m = Some x \<Longrightarrow> holds (f x) Q)
    \<Longrightarrow> holds (case m of None \<Rightarrow> a | Some x \<Rightarrow> f x) Q"
  by (cases m) simp_all

lemma holds_bind_Some [vcg]: "holds (f x) Q \<Longrightarrow> holds (Some x \<bind> f) Q"
  by simp

lemma holds_SomeD: "holds m Q \<Longrightarrow> \<exists>r. m = Some r \<and> Q r"
  by (cases m) (simp_all add: holds_def)

lemma state_simps [simp]:
  "stop (exit (Some e') c) = True" "stack (exit e c) = stack c" "memory (exit e c) = memory c"
  "gas (exit e c) = gas c" "host (exit e c) = host c"
  "stop (Halt c) = True" "stack (Halt c) = stack c" "gas (Halt c) = gas c"
  "stack (push v c) = v # stack c" "gas (push v c) = gas c" "memory (push v c) = memory c"
  "host (push v c) = host c" "stop (push v c) = stop c"
  "stack (resetReturnData c) = stack c" "gas (resetReturnData c) = gas c"
  "gas (set_top v c) = gas c" "stop (set_top v c) = stop c"
  by (simp_all add: exit_def Halt_def push_def resetReturnData_def set_top_def split: option.split)

subsection \<open>Sizes of memory\<close>

lemma alloc_words:
  assumes "o' \<le> (0xffffffffe0 :: uint64)" "s \<le> 0xffffffffe0"
  shows "unat (o' + s) = unat o' + unat s"
    and "unat ((o' + s + 31) div 32 * 32) = (unat o' + unat s + 31) div 32 * 32"
    and "(unat o' + unat s + 31) div 32 * 32 \<le> mem_bound"
    and "unat o' + unat s \<le> (unat o' + unat s + 31) div 32 * 32"
    and "unat ((o' + s + 31) div 32) = (unat o' + unat s + 31) div 32"
proof -
  have b: "unat o' \<le> 0xffffffffe0" "unat s \<le> 0xffffffffe0"
    using assms by (simp_all add: word_le_nat_alt)
  show sum: "unat (o' + s) = unat o' + unat s"
    using b by (intro unat_add_lem [THEN iffD1]) simp
  have "unat (o' + s + 31) = unat o' + unat s + 31"
    using b sum by (subst unat_add_lem [THEN iffD1]) simp_all
  then show w: "unat ((o' + s + 31) div 32) = (unat o' + unat s + 31) div 32"
    by (simp add: unat_div)
  have "(unat o' + unat s + 31) div 32 \<le> (0x1ffffffffc0 + 31) div 32"
    using b by (intro div_le_mono) simp
  then show up: "(unat o' + unat s + 31) div 32 * 32 \<le> mem_bound"
    by (simp add: mem_bound_def)
  then show "unat ((o' + s + 31) div 32 * 32) = (unat o' + unat s + 31) div 32 * 32"
    using w unfolding mem_bound_def by (subst unat_mult_lem [THEN iffD1]) simp_all
  show "unat o' + unat s \<le> (unat o' + unat s + 31) div 32 * 32"
    by linarith
qed

lemma length_ExtendByteSlice [simp]: "length (ExtendByteSlice b n) = n"
  by (simp add: ExtendByteSlice_def)

lemma unat_memory_length: "n \<le> mem_bound \<Longrightarrow> unat (of_nat n :: uint64) = n"
  by (simp add: unat_of_nat take_bit_nat_eq_self mem_bound_def)

subsection \<open>The contract of a host\<close>

locale evm_host =
  fixes H :: "'h Host"
    and Inv :: "'h \<Rightarrow> bool"
    and R :: "'h \<Rightarrow> 'h \<Rightarrow> bool"
    and st :: bool
    and d :: int
  assumes R_refl: "R h h"
    and R_trans: "R h1 h2 \<Longrightarrow> R h2 h3 \<Longrightarrow> R h1 h3"
    and balance: "Inv h \<Longrightarrow> in_range (h_GetBalance H h a)"
    and TxContext_range: "Inv h \<Longrightarrow> in_range (Timestamp (h_GetTxContext H h))
      \<and> in_range (Number (h_GetTxContext H h)) \<and> in_range (GasLimit (h_GetTxContext H h))"
    and SetStorage: "Inv h \<Longrightarrow> \<not> st \<Longrightarrow> h_SetStorage H h a key val f = (s, h') \<Longrightarrow> Inv h' \<and> R h h'"
    and GetCodeSize: "Inv h \<Longrightarrow> h_GetCodeSize H h a = (n, h') \<Longrightarrow> Inv h' \<and> R h h'"
    and GetCode: "Inv h \<Longrightarrow> h_GetCode H h a = (cd, h') \<Longrightarrow> Inv h' \<and> R h h'"
    and Selfdestruct: "Inv h \<Longrightarrow> \<not> st \<Longrightarrow> Inv (h_Selfdestruct H h a b) \<and> R h (h_Selfdestruct H h a b)"
    and EmitLog: "Inv h \<Longrightarrow> \<not> st \<Longrightarrow> Inv (h_EmitLog H h a ts bs) \<and> R h (h_EmitLog H h a ts bs)"
    and Callx: "Inv h \<Longrightarrow> c_Depth k = d + 1 \<Longrightarrow> (st \<Longrightarrow> c_Static k \<and> c_Type k \<noteq> Create
        \<and> (c_Type k = Call \<longrightarrow> c_Value k = Some 0))
      \<Longrightarrow> (\<And>v. c_Value k = Some v \<Longrightarrow> in_range v)
      \<Longrightarrow> \<exists>r h'. h_Callx H h k = Some (r, h') \<and> GasLeft r \<le> c_Gas k \<and> Inv h' \<and> R h h'"
begin

abbreviation "Good \<equiv> good Inv R st d"
abbreviation "Post \<equiv> post Inv R"

lemma GoodD:
  "Good c0 c \<Longrightarrow> entry st d c0"
  "Good c0 c \<Longrightarrow> v \<in> set (stack c) \<Longrightarrow> in_range v"
  "Good c0 c \<Longrightarrow> msg c = msg c0"
  "Good c0 c \<Longrightarrow> config c = config c0"
  "Good c0 c \<Longrightarrow> code c = code c0"
  "Good c0 c \<Longrightarrow> bitmap c = bitmap c0"
  "Good c0 c \<Longrightarrow> ip c = ip c0"
  "Good c0 c \<Longrightarrow> Inv (host c)"
  "Good c0 c \<Longrightarrow> length (memory c) \<le> mem_bound"
  "Good c0 c \<Longrightarrow> unat (gas c) \<le> unat (gas c0)"
  by (simp_all add: good_def frame_def word_le_nat_alt)

lemma Good_static: "Good c0 c \<Longrightarrow> \<not> inStaticCall c \<Longrightarrow> \<not> st"
  by (auto simp: good_def frame_def entry_def inStaticCall_def)

lemma Good_push [vcg]: "Good c0 c \<Longrightarrow> in_range v \<Longrightarrow> Good c0 (push v c)"
  by (auto simp: good_def frame_def push_def)

lemma Good_set_top [vcg]: "Good c0 c \<Longrightarrow> in_range v \<Longrightarrow> Good c0 (set_top v c)"
  by (cases "stack c") (auto simp: good_def frame_def set_top_def)

lemma Good_host: "Good c0 c \<Longrightarrow> Inv h' \<and> R (host c) h' \<Longrightarrow> Good c0 (c\<lparr>host := h'\<rparr>)"
  by (auto simp: good_def frame_def intro: R_trans)

lemma Good_Selfdestruct:
  "Good c0 c \<Longrightarrow> \<not> st \<Longrightarrow> Good c0 (c\<lparr>host := h_Selfdestruct H (host c) a b\<rparr>)"
  by (intro Good_host Selfdestruct) (simp_all add: GoodD)

lemma Good_EmitLog: "Good c0 c \<Longrightarrow> \<not> st \<Longrightarrow> Good c0 (c\<lparr>host := h_EmitLog H (host c) a ts bs\<rparr>)"
  by (intro Good_host EmitLog) (simp_all add: GoodD)

lemma Good_memory: "Good c0 c \<Longrightarrow> length m \<le> mem_bound \<Longrightarrow> Good c0 (c\<lparr>memory := m\<rparr>)"
  by (auto simp: good_def frame_def)

lemma Good_simps [simp]:
  "Good c0 (c\<lparr>returnData := x\<rparr>) = Good c0 c"
  "Good c0 (c\<lparr>ret := x\<rparr>) = Good c0 c"
  "Good c0 (c\<lparr>lastGasCost := y\<rparr>) = Good c0 c"
  "Good c0 (c\<lparr>currentConsumedGas := y\<rparr>) = Good c0 c"
  "Good c0 (resetReturnData c) = Good c0 c"
  "Good c0 (Halt c) = Good c0 c"
  "Good c0 (exit e c) = Good c0 c"
  by (auto simp: good_def frame_def resetReturnData_def Halt_def exit_def split: option.split)

lemma Good_gas: "Good c0 c \<Longrightarrow> g \<le> gas c0 \<Longrightarrow> Good c0 (c\<lparr>gas := g\<rparr>)"
  by (auto simp: good_def frame_def)

lemma Post_of_Good: "Good c0 c \<Longrightarrow> (strict \<Longrightarrow> stop c \<or> unat (gas c) < unat (gas c0)) \<Longrightarrow> Post strict c0 c"
  by (auto simp: post_def good_def word_less_nat_alt)

lemma holds_popv_tl:
  assumes "Good c0 c" "0 < sp c"
    and "\<And>v c'. Good c0 c' \<Longrightarrow> in_range v \<Longrightarrow> gas c' = gas c \<Longrightarrow> memory c' = memory c \<Longrightarrow> stack c' = tl (stack c)
      \<Longrightarrow> holds (f (v, c')) Q"
  shows "holds (popv c \<bind> f) Q"
proof -
  from assms(2) obtain v vs where "stack c = v # vs" by (cases "stack c") auto
  moreover from this assms(1) have "Good c0 (c\<lparr>stack := vs\<rparr>)" "in_range v"
    by (auto simp: good_def frame_def)
  ultimately show ?thesis
    using assms(3) [of "c\<lparr>stack := vs\<rparr>" v] by (simp add: popv_def pop_def)
qed

lemma holds_popAddr_tl:
  assumes "Good c0 c" "0 < sp c"
    and "\<And>a c'. Good c0 c' \<Longrightarrow> gas c' = gas c \<Longrightarrow> memory c' = memory c \<Longrightarrow> stack c' = tl (stack c) \<Longrightarrow> holds (f a c') Q"
  shows "holds (case popAddr c of (a, c) \<Rightarrow> f a c) Q"
proof -
  from assms(2) obtain v vs where "stack c = v # vs" by (cases "stack c") auto
  moreover from this assms(1) have "Good c0 (c\<lparr>stack := vs\<rparr>)"
    by (auto simp: good_def frame_def)
  ultimately show ?thesis
    using assms(3) [of "c\<lparr>stack := vs\<rparr>"] by (simp add: popAddr_def pop_def)
qed

lemma holds_popv [vcg]:
  assumes "Good c0 c" "0 < sp c"
    and "\<And>v c'. Good c0 c' \<Longrightarrow> in_range v \<Longrightarrow> sp c' = sp c - 1 \<Longrightarrow> gas c' = gas c
      \<Longrightarrow> memory c' = memory c \<Longrightarrow> holds (f (v, c')) Q"
  shows "holds (popv c \<bind> f) Q"
  by (rule holds_popv_tl [OF assms(1,2)]) (auto intro!: assms(3))

lemma holds_popAddr [vcg]:
  assumes "Good c0 c" "0 < sp c"
    and "\<And>a c'. Good c0 c' \<Longrightarrow> sp c' = sp c - 1 \<Longrightarrow> gas c' = gas c
      \<Longrightarrow> memory c' = memory c \<Longrightarrow> holds (f a c') Q"
  shows "holds (case popAddr c of (a, c) \<Rightarrow> f a c) Q"
  by (rule holds_popAddr_tl [OF assms(1,2)]) (auto intro!: assms(3))

lemma holds_popHash [vcg]:
  assumes "Good c0 c" "0 < sp c"
    and "\<And>a c'. Good c0 c' \<Longrightarrow> sp c' = sp c - 1 \<Longrightarrow> gas c' = gas c
      \<Longrightarrow> memory c' = memory c \<Longrightarrow> holds (f (a, c')) Q"
  shows "holds (popHash c \<bind> f) Q"
  unfolding popHash_def bind_assoc [symmetric]
  using assms by (auto intro!: vcg)

lemma holds_state_top [vcg]:
  assumes "Good c0 c" "0 < sp c" and "\<And>v. in_range v \<Longrightarrow> holds (f v) Q"
  shows "holds (state_top c \<bind> f) Q"
  using assms by (cases "stack c") (auto simp: state_top_def good_def)

lemma holds_consumeGas_gen:
  assumes "Good c0 c"
    and "\<And>c'. Good c0 c' \<Longrightarrow> sp c' = sp c \<Longrightarrow> unat (gas c') + unat g = unat (gas c)
      \<Longrightarrow> memory c' = memory c
      \<Longrightarrow> (g \<noteq> 0 \<longrightarrow> unat (gas c') < unat (gas c0)) \<Longrightarrow> holds (f True c') Q"
    and "\<And>c'. Good c0 c' \<Longrightarrow> sp c' = sp c \<Longrightarrow> stop c' \<Longrightarrow> holds (f False c') Q"
  shows "holds (case consumeGas g c of (ok, c) \<Rightarrow> f ok c) Q"
proof (cases "gas c < g")
  case True
  then show ?thesis
    using assms(1) by (auto simp: consumeGas_def Let_def exit_def good_def frame_def intro!: assms(3))
next
  case False
  then have "unat (gas c - g) + unat g = unat (gas c)"
    by (simp add: unat_sub word_less_nat_alt word_le_nat_alt)
  moreover have "gas c - g \<le> gas c0"
    using calculation assms(1) by (auto simp: good_def frame_def word_le_nat_alt)
  moreover have "unat (gas c - g) < unat (gas c0)" if "g \<noteq> 0"
    using calculation(1) that GoodD(10) [OF assms(1)] by (simp add: unat_gt_0 [symmetric])
  ultimately show ?thesis
    using False assms(1)
    by (auto simp: consumeGas_def Let_def good_def frame_def intro!: assms(2))
qed

lemma holds_consumeGas [vcg]:
  assumes "Good c0 c"
    and "\<And>c'. Good c0 c' \<Longrightarrow> sp c' = sp c \<Longrightarrow> unat (gas c') + unat g = unat (gas c)
      \<Longrightarrow> memory c' = memory c
      \<Longrightarrow> (g \<noteq> 0 \<longrightarrow> unat (gas c') < unat (gas c0)) \<Longrightarrow> holds (y c') Q"
    and "\<And>c'. Good c0 c' \<Longrightarrow> sp c' = sp c \<Longrightarrow> stop c' \<Longrightarrow> holds (x c') Q"
  shows "holds (case consumeGas g c of (ok, c) \<Rightarrow> if \<not> ok then x c else y c) Q"
  by (rule holds_consumeGas_gen [OF assms(1)]) (auto intro!: assms(2,3))

text \<open>A range of memory that has been paid for.\<close>

lemma holds_allocateMemory_gen:
  assumes "Good c0 c"
    and "\<And>c'. Good c0 c' \<Longrightarrow> sp c' = sp c \<Longrightarrow> unat (gas c') \<le> unat (gas c)
      \<Longrightarrow> sz \<noteq> 0 \<Longrightarrow> unat (big_Uint64 offset) + unat (big_Uint64 sz) \<le> length (memory c')
      \<Longrightarrow> unat (big_Uint64 offset + big_Uint64 sz) = unat (big_Uint64 offset) + unat (big_Uint64 sz)
      \<Longrightarrow> holds (f True c') Q"
    and "Good c0 c \<Longrightarrow> sz = 0 \<Longrightarrow> holds (f True c) Q"
    and "\<And>c'. Good c0 c' \<Longrightarrow> sp c' = sp c \<Longrightarrow> stop c' \<Longrightarrow> holds (f False c') Q"
  shows "holds (case allocateMemory offset sz c of (ok, c) \<Rightarrow> f ok c) Q"
proof -
  let ?o = "big_Uint64 offset" and ?s = "big_Uint64 sz"
  have mem: "unat (of_nat (length (memory c)) :: uint64) = length (memory c)"
    using assms(1) by (intro unat_memory_length) (simp add: GoodD)
  consider "\<not> big_IsUint64 offset \<or> \<not> big_IsUint64 sz \<or> (sz \<noteq> 0 \<and> (0xffffffffe0 < ?o \<or> 0xffffffffe0 < ?s))"
    | "big_IsUint64 offset" "big_IsUint64 sz" "sz = 0"
    | "big_IsUint64 offset" "big_IsUint64 sz" "sz \<noteq> 0" "?o \<le> 0xffffffffe0" "?s \<le> 0xffffffffe0"
      "of_nat (length (memory c)) < ?o + ?s"
    | "big_IsUint64 offset" "big_IsUint64 sz" "sz \<noteq> 0" "?o \<le> 0xffffffffe0" "?s \<le> 0xffffffffe0"
      "?o + ?s \<le> of_nat (length (memory c))"
    by (metis linorder_not_less)
  then show ?thesis
  proof cases
    case 1
    then have "allocateMemory offset sz c = (False, exit (Some errReturnDataOutOfBounds) c)"
      by (auto simp: allocateMemory_def Let_def)
    then show ?thesis
      using assms(1) by (simp add: exit_def) (auto simp: good_def frame_def intro!: assms(4))
  next
    case 2
    then show ?thesis using assms(1,3) by (simp add: allocateMemory_def)
  next
    case 3
    note words = alloc_words [OF 3(4,5)]
    let ?w = "(?o + ?s + 31) div 32"
    have "holds (case consumeGas (memory_cost ?w - lastGasCost c) (c\<lparr>lastGasCost := memory_cost ?w\<rparr>)
            of (ok, c') \<Rightarrow> if \<not> ok then f False (exit (Some ErrOutOfGas) c')
              else f True (c'\<lparr>memory := ExtendByteSlice (memory c') (unat (?w * 32))\<rparr>)) Q"
      using assms(1) words 3(3)
      by (intro vcg) (auto intro!: assms(2,4) Good_memory)
    then show ?thesis
      using 3 by (auto simp: allocateMemory_def Let_def split: prod.splits if_splits)
  next
    case 4
    then have "allocateMemory offset sz c = (True, c)"
      by (auto simp: allocateMemory_def Let_def)
    moreover have "unat ?o + unat ?s \<le> length (memory c)"
      using 4(6) mem alloc_words(1) [OF 4(4,5)] by (simp add: word_le_nat_alt)
    ultimately show ?thesis
      using assms(1) assms(2) [of c] alloc_words(1) [OF 4(4,5)] 4(3) by simp
  qed
qed

lemma holds_allocateMemory [vcg]:
  assumes "Good c0 c"
    and "\<And>c'. Good c0 c' \<Longrightarrow> sp c' = sp c \<Longrightarrow> unat (gas c') \<le> unat (gas c)
      \<Longrightarrow> (sz \<noteq> 0 \<longrightarrow> unat (big_Uint64 offset) + unat (big_Uint64 sz) \<le> length (memory c')
        \<and> unat (big_Uint64 offset + big_Uint64 sz) = unat (big_Uint64 offset) + unat (big_Uint64 sz))
      \<Longrightarrow> holds (y c') Q"
    and "\<And>c'. Good c0 c' \<Longrightarrow> sp c' = sp c \<Longrightarrow> stop c' \<Longrightarrow> holds (x c') Q"
  shows "holds (case allocateMemory offset sz c of (ok, c) \<Rightarrow> if \<not> ok then x c else y c) Q"
  by (rule holds_allocateMemory_gen [OF assms(1)]) (auto intro!: assms)

end

end
