(* ===== verification/EvmSafetyInstr.thy ===== *)
theory EvmSafetyInstr
  imports EvmSafety
begin

text \<open>
  Every instruction of the dispatch table meets its part of the interpreter's safety contract: it
  does not panic, keeps the invariant of the machine, and, when the table charges nothing for it,
  charges something itself or stops the run.
\<close>

subsection \<open>Values that fit a stack slot\<close>

lemma in_range_uint [simp, vcg]:
  "in_range (uint (h :: hash))" "in_range (uint (a :: address))" "in_range (uint (w :: uint64))"
  using uint_lt2p [of h] uint_lt2p [of a] uint_lt2p [of w] by (simp_all add: in_range_def)

lemma in_range_01 [simp, vcg]: "in_range 0" "in_range 1"
  by (simp_all add: in_range_def)

lemma in_range_iff_uint: "in_range v \<longleftrightarrow> (\<exists>w :: hash. v = uint w)"
proof
  assume "in_range v"
  then have "v = uint (word_of_int v :: hash)"
    by (simp add: in_range_def uint_word_of_int)
  then show "\<exists>w :: hash. v = uint w" by blast
qed auto

lemma in_range_SetBytes: "length bs \<le> 32 \<Longrightarrow> in_range (big_SetBytes bs)"
proof -
  assume "length bs \<le> 32"
  then have "(256 :: int) ^ length bs \<le> 256 ^ 32" by (intro power_increasing) simp_all
  then show ?thesis
    using big_SetBytes_less [of bs] by (simp add: in_range_def)
qed

lemma in_range_list: "\<forall>v \<in> set vs. in_range v \<Longrightarrow> \<exists>ws :: hash list. vs = map uint ws"
proof (induction vs)
  case (Cons v vs)
  then obtain ws where "vs = map uint (ws :: hash list)" by auto
  moreover obtain w where "v = uint (w :: hash)"
    using Cons.prems by (auto simp: in_range_iff_uint)
  ultimately show ?case by (intro exI [of _ "w # ws"]) simp
qed simp

lemma setBytes_total:
  "sz \<le> length dst \<Longrightarrow> \<exists>dst'. setBytes dst inp sz off = Some dst' \<and> length dst' = length dst"
  by (auto simp: setBytes_def Let_def)

subsection \<open>Writing a word\<close>

lemma mstore_limb_total:
  "j \<le> i \<Longrightarrow> \<exists>buf'. mstore_limb j d i buf = Some (i - j, buf') \<and> length buf' = length buf"
proof (induction j arbitrary: d i buf)
  case (Suc j)
  then obtain i' where i: "i = Suc i'" by (cases i) auto
  show ?case using Suc.IH [of i' "drop_bit 8 d" "buf[i' := ucast d]"] Suc.prems by (simp add: i)
qed simp

lemma mstore_limbs_total:
  "8 * length ds \<le> i \<Longrightarrow>
    \<exists>buf'. mstore_limbs ds i buf = Some (i - 8 * length ds, buf') \<and> length buf' = length buf"
proof (induction ds arbitrary: i buf)
  case (Cons d ds)
  from Cons.prems have "8 \<le> i" by simp
  then obtain buf1 where 1: "mstore_limb 8 d i buf = Some (i - 8, buf1)" "length buf1 = length buf"
    using mstore_limb_total by blast
  show ?case using Cons.IH [of "i - 8" buf1] Cons.prems 1 by (simp add: diff_diff_eq)
qed simp

lemma length_mstore_zeros [simp]: "length (mstore_zeros i buf) = length buf"
  by (induction i arbitrary: buf) simp_all

lemma length_big_limbs: "n < 2 ^ (64 * k) \<Longrightarrow> length (big_limbs n) \<le> k"
proof (induction k arbitrary: n)
  case 0
  then show ?case by (simp add: big_limbs.simps)
next
  case (Suc k)
  have "n div 2 ^ 64 < 2 ^ (64 * k)"
    using Suc.prems by (intro less_mult_imp_div_less) (simp add: power_add mult.commute)
  then show ?case using Suc.IH by (subst big_limbs.simps) simp
qed

lemma mstore_buf_total:
  assumes "in_range val"
  shows "\<exists>buf'. mstore_buf val buf = Some buf' \<and> length buf' = length buf"
proof -
  have "nat \<bar>val\<bar> < 2 ^ (64 * 4)"
    using assms by (simp add: in_range_def nat_less_iff)
  then have "8 * length (big_Bits val) \<le> 32"
    using length_big_limbs [of "nat \<bar>val\<bar>" 4] by (simp add: big_Bits_def)
  from mstore_limbs_total [OF this, of buf] show ?thesis
    by (auto simp: mstore_buf_def)
qed

subsection \<open>The gas of a call under EIP-150\<close>

lemma call_gasCost_bounds:
  assumes "EIP150 (config c)"
  shows "700 + (if tv then 9000 else 0) \<le> unat (call_gasCost H op c addr tv)"
    "unat (call_gasCost H op c addr tv) \<le> 34700"
  using assms by (auto simp: call_gasCost_def)

text \<open>The subtraction \<^verbatim>\<open>c.gas - gasCost\<close> wraps when the frame cannot pay the cost, and the sum
  \<^verbatim>\<open>gasCost + gas\<close> is then still too large to be paid.\<close>

lemma call_gas_sum:
  assumes "EIP150 f" "call_gas f left gasCost initialGas = Some g"
    and "unat gasCost \<le> 34700" "gasCost + g \<le> left"
  shows "unat gasCost + unat g \<le> unat left"
proof -
  define av where "av = left - gasCost"
  have "unat (av div 64) \<le> unat av" by (simp add: unat_div)
  then have av: "unat (av - av div 64) = unat av - unat av div 64"
    by (simp add: unat_sub word_le_nat_alt unat_div)
  have g: "unat g \<le> unat av - unat av div 64"
    using assms(1,2) av by (auto simp: call_gas_def Let_def av_def [symmetric] word_less_nat_alt
        split: if_splits)
  show ?thesis
  proof (cases "gasCost \<le> left")
    case True
    then have "unat av = unat left - unat gasCost" "unat gasCost \<le> unat left"
      by (simp_all add: av_def unat_sub word_le_nat_alt)
    with g show ?thesis by linarith
  next
    case False
    have "unat av < 2 ^ 64" using unsigned_less [of av] by simp
    then have "unat gasCost + unat g < 2 ^ LENGTH(64)"
      using g assms(3) by simp
    then have "unat (gasCost + g) = unat gasCost + unat g"
      by (rule unat_add_lem [THEN iffD1])
    with assms(4) show ?thesis by (simp add: word_le_nat_alt)
  qed
qed

lemma call_gas_paid:
  assumes "EIP150 (config c)"
    and "call_gas (config c) (gas c) (call_gasCost H op c addr tv) initialGas = Some g"
    and "unat gas' + unat (call_gasCost H op c addr tv + g) = unat (gas c)"
  shows "unat (gas' :: uint64) + unat (if tv then g + 2300 else g) < unat (gas c)"
proof -
  let ?cost = "call_gasCost H op c addr tv"
  note bounds = call_gasCost_bounds [OF assms(1), where H = H and op = op and addr = addr and tv = tv]
  have "?cost + g \<le> gas c" using assms(3) by (simp add: word_le_nat_alt)
  from call_gas_sum [OF assms(1,2) bounds(2) this]
  have fits: "unat ?cost + unat g \<le> unat (gas c)" .
  then have sum: "unat (?cost + g) = unat ?cost + unat g" by (rule unat_add_below)
  show ?thesis
  proof (cases tv)
    case True
    then have "unat g + unat (2300 :: uint64) \<le> unat (gas c)" using fits bounds(1) by simp
    then have "unat (g + 2300) = unat g + 2300" by (simp add: unat_add_below)
    then show ?thesis using True bounds(1) sum assms(3) by simp
  next
    case False
    then show ?thesis using bounds(1) sum assms(3) by simp
  qed
qed

lemma call_contract_fields:
  "c_Depth (call_contract op p addr val g cd args) = c_Depth p + 1"
  "c_Gas (call_contract op p addr val g cd args) = g"
  "c_Static (call_contract op p addr val g cd args) \<longleftrightarrow> op = STATICCALL \<or> c_Static p"
  "c_Value (call_contract op p addr val g cd args) = (if op = DELEGATECALL then c_Value p else val)"
  by (auto simp: call_contract_def NewContractCall_def NewContract_def Let_def)

lemma sint_big_Uint64_pred:
  assumes "0 \<le> dest" "dest < 2 ^ 62"
  shows "sint (big_Uint64 dest - 1) = dest - 1"
proof -
  have "big_Uint64 dest - 1 = (word_of_int (dest - 1) :: uint64)"
    using assms by (simp add: big_Uint64_def)
  then show ?thesis
    using assms by (simp only: sint_sbintrunc') (simp add: signed_take_bit_int_eq_self)
qed

context evm_host
begin

lemma get2_spec:
  assumes "Good c0 c"
  shows "holds (get2 [] offset len c) (\<lambda>(bs, ok, c'). Good c0 c' \<and> sp c' = sp c
    \<and> (if ok then unat (gas c') \<le> unat (gas c) \<and> length bs = unat (big_Uint64 len)
       else stop c' \<and> bs = []))"
  using assms unfolding get2_def Let_def
  by (intro vcg) (auto simp: slice_def holds_def big_Uint64_def)

lemma holds_get2 [vcg]:
  assumes "Good c0 c"
    and "\<And>bs c'. Good c0 c' \<Longrightarrow> sp c' = sp c \<Longrightarrow> unat (gas c') \<le> unat (gas c)
      \<Longrightarrow> length bs = unat (big_Uint64 len) \<Longrightarrow> holds (y bs c') Q"
    and "\<And>c'. Good c0 c' \<Longrightarrow> sp c' = sp c \<Longrightarrow> stop c' \<Longrightarrow> holds (x [] c') Q"
  shows "holds (get2 [] offset len c \<bind> (\<lambda>(bs, ok, c). if \<not> ok then x bs c else y bs c)) Q"
proof (rule holds_bind, rule holds_mono, rule get2_spec, rule assms(1), clarify)
  fix bs :: "byte list" and ok c'
  assume "Good c0 c'" "sp c' = sp c"
    "if ok then unat (gas c') \<le> unat (gas c) \<and> length bs = unat (big_Uint64 len)
      else stop c' \<and> bs = []"
  then show "holds (if \<not> ok then x bs c' else y bs c') Q"
    using assms(2,3) by (cases ok) auto
qed

lemma memSetBytes_ok [vcg]:
  assumes "Good c0 c" "unat (big_Uint64 memOffset) + unat sz \<le> length (memory c)"
    and "\<And>c'. Good c0 c' \<Longrightarrow> sp c' = sp c \<Longrightarrow> gas c' = gas c \<Longrightarrow> Q c'"
  shows "holds (memSetBytes memOffset inp sz off c) Q"
proof -
  let ?o = "unat (big_Uint64 memOffset)"
  have "unat sz \<le> length (drop ?o (memory c))" using assms(2) by simp
  from setBytes_total [OF this, of inp off] obtain dst
    where "setBytes (drop ?o (memory c)) inp (unat sz) off = Some dst"
      "length dst = length (memory c) - ?o"
    by auto
  then show ?thesis
    using assms(1,2) by (auto simp: memSetBytes_def Let_def holds_def intro!: assms(3) Good_memory
        dest: GoodD(9))
qed

lemma holds_SetStorage [vcg]:
  assumes "Good c0 c" "\<not> st" "\<And>s h'. Good c0 (c\<lparr>host := h'\<rparr>) \<Longrightarrow> holds (f s h') Q"
  shows "holds (case h_SetStorage H (host c) a k v cfg of (s, h') \<Rightarrow> f s h') Q"
  using SetStorage [OF GoodD(8) [OF assms(1)]] assms(1,2)
  by (cases "h_SetStorage H (host c) a k v cfg") (auto intro!: assms(3) Good_host)

lemma holds_GetCode [vcg]:
  assumes "Good c0 c" "\<And>cd h'. Good c0 (c\<lparr>host := h'\<rparr>) \<Longrightarrow> holds (f cd h') Q"
  shows "holds (case h_GetCode H (host c) a of (cd, h') \<Rightarrow> f cd h') Q"
  using GetCode [OF GoodD(8) [OF assms(1)]] assms(1,2)
  by (cases "h_GetCode H (host c) a") (auto intro!: assms(2) Good_host)

lemma holds_GetCodeSize [vcg]:
  assumes "Good c0 c" "\<And>n h'. Good c0 (c\<lparr>host := h'\<rparr>) \<Longrightarrow> holds (f n h') Q"
  shows "holds (case h_GetCodeSize H (host c) a of (n, h') \<Rightarrow> f n h') Q"
  using GetCodeSize [OF GoodD(8) [OF assms(1)]] assms(1,2)
  by (cases "h_GetCodeSize H (host c) a") (auto intro!: assms(2) Good_host)

subsection \<open>Arithmetic\<close>

lemma binop_ok:
  assumes "u256_binop f g" "Good c0 c" "2 \<le> sp c"
  shows "holds (binop f c) (Good c0)"
proof -
  obtain ws :: "hash list" where "stack c = map uint ws"
    using in_range_list GoodD(2) [OF assms(2)] by blast
  moreover from this obtain ws' :: "hash list"
    where "binop f c = Some (c\<lparr>stack := map uint ws'\<rparr>)"
    using u256_binop.run_in_range [OF assms(1)] assms(3) by (metis length_map)
  ultimately show ?thesis
    using assms(2) by (auto simp: holds_def good_def frame_def)
qed

lemma unop_ok: "Good c0 c \<Longrightarrow> 0 < sp c \<Longrightarrow> (\<And>a. in_range a \<Longrightarrow> in_range (f a)) \<Longrightarrow> holds (unop f c) (Good c0)"
  unfolding unop_def by (intro vcg) auto

lemma toU256_in_range [simp, vcg]: "in_range (toU256 x)"
  by (simp add: toU256_uint)

lemma ternop_ok:
  "Good c0 c \<Longrightarrow> 3 \<le> sp c \<Longrightarrow> (\<And>a b z. in_range (f a b z)) \<Longrightarrow> holds (ternop f c) (Good c0)"
  unfolding ternop_def by (intro vcg) auto

lemma opByte_ok: "Good c0 c \<Longrightarrow> 2 \<le> sp c \<Longrightarrow> holds (opByte c) (Good c0)"
proof -
  have "in_range (u_Byte x y)" if "in_range y" for x y
  proof -
    have "drop_bit n y AND 255 = take_bit 8 (drop_bit n y)" for n
      by (simp add: take_bit_eq_mask mask_eq_exp_minus_1)
    moreover have "take_bit 8 z < 2 ^ 256" for z :: int
      using take_bit_int_less_exp [of 8 z] by simp
    ultimately show ?thesis by (simp add: u_Byte_def Let_def in_range_def)
  qed
  then show "Good c0 c \<Longrightarrow> 2 \<le> sp c \<Longrightarrow> holds (opByte c) (Good c0)"
    unfolding opByte_def binop_def by (intro vcg) auto
qed

lemma opSignExtension_ok: "Good c0 c \<Longrightarrow> 0 < sp c \<Longrightarrow> holds (opSignExtension c) (Good c0)"
  unfolding opSignExtension_def
  by (intro vcg) (auto simp: u_SignExtension_def Let_def)

lemma opExp_ok: "Good c0 c \<Longrightarrow> 2 \<le> sp c \<Longrightarrow> holds (opExp c) (Good c0)"
proof -
  have "in_range (u_Exp x y)" if "in_range x" "in_range y" for x y
    using that by (auto simp: in_range_iff_uint op_exp.refines)
  then show "Good c0 c \<Longrightarrow> 2 \<le> sp c \<Longrightarrow> holds (opExp c) (Good c0)"
    unfolding opExp_def Let_def by (intro vcg) auto
qed

lemma constantinople_op_ok:
  "Good c0 c \<Longrightarrow> (\<And>c. Good c0 c \<Longrightarrow> 2 \<le> sp c \<Longrightarrow> holds (f c) (Good c0)) \<Longrightarrow> 2 \<le> sp c
    \<Longrightarrow> holds (constantinople_op f c) (Good c0)"
  unfolding constantinople_op_def by (intro vcg) auto

subsection \<open>Memory and storage\<close>

text \<open>The instructions that the table leaves free charge for themselves or stop.\<close>

abbreviation "Paid c0 \<equiv> (\<lambda>c'. Good c0 c' \<and> (stop c' \<or> unat (gas c') < unat (gas c0)))"

lemma opMload_ok: "Good c0 c \<Longrightarrow> 0 < sp c \<Longrightarrow> holds (opMload c) (Good c0)"
  unfolding opMload_def
  by (intro vcg) (auto intro!: in_range_SetBytes simp: big_Uint64_def)

lemma mstore_write_ok:
  assumes "Good c0 c" "in_range val" "o' + 32 \<le> length (memory c)"
  shows "holds (slice (memory c) o' (o' + 32) \<bind> (\<lambda>buf. mstore_buf val buf
    \<bind> (\<lambda>buf'. Some (c\<lparr>memory := overwrite (memory c) o' buf'\<rparr>)))) (Good c0)"
proof -
  obtain buf where buf: "slice (memory c) o' (o' + 32) = Some buf" "length buf = 32"
    using assms(3) by (auto simp: slice_def)
  obtain buf' where "mstore_buf val buf = Some buf'" "length buf' = 32"
    using mstore_buf_total [OF assms(2), of buf] buf(2) by auto
  then show ?thesis
    using assms buf(1) by (auto simp: holds_def intro!: Good_memory dest: GoodD(9))
qed

lemma opMStore_ok: "Good c0 c \<Longrightarrow> 2 \<le> sp c \<Longrightarrow> holds (opMStore c) (Good c0)"
  unfolding opMStore_def Let_def
  by (intro vcg mstore_write_ok) (auto simp: big_Uint64_def)

lemma opMStore8_ok: "Good c0 c \<Longrightarrow> 2 \<le> sp c \<Longrightarrow> holds (opMStore8 c) (Good c0)"
  unfolding opMStore8_def Let_def
  by (intro vcg) (auto intro!: Good_memory simp: big_Uint64_def holds_def dest: GoodD(9))

lemma costs_nonzero [simp]: "sload_gas f \<noteq> 0" "sstore_cost f s \<noteq> 0"
  "x \<noteq> 0 \<Longrightarrow> y \<noteq> 0 \<Longrightarrow> (if p then x else y) \<noteq> (0 :: uint64)"
  by (simp_all add: sload_gas_def sstore_cost_def Let_def split: StorageStatus.split)

lemma opSload_ok: "Good c0 c \<Longrightarrow> 0 < sp c \<Longrightarrow> holds (opSload H c) (Paid c0)"
  unfolding opSload_def Let_def
  by (intro vcg) (auto intro!: vcg)

lemma opSStore_ok: "Good c0 c \<Longrightarrow> 2 \<le> sp c \<Longrightarrow> holds (opSStore H c) (Paid c0)"
  unfolding opSStore_def Let_def
  by (intro vcg holds_consumeGas_gen) (auto dest: Good_static)

lemma opSha3_ok: "Good c0 c \<Longrightarrow> 2 \<le> sp c \<Longrightarrow> holds (opSha3 K c) (Good c0)"
  unfolding opSha3_def Let_def by (intro vcg) auto

lemma opPop_ok: "Good c0 c \<Longrightarrow> holds (opPop c) (Good c0)"
  unfolding opPop_def pop_def
  by (intro vcg) (auto simp: good_def frame_def split: list.splits)

subsection \<open>Context\<close>

lemma opBalance_ok: "Good c0 c \<Longrightarrow> 0 < sp c \<Longrightarrow> holds (opBalance H c) (Paid c0)"
  unfolding opBalance_def Let_def
  by (intro vcg) (auto intro!: vcg balance dest: GoodD(8))

lemma opSelfBalance_ok: "Good c0 c \<Longrightarrow> holds (opSelfBalance H c) (Good c0)"
  unfolding opSelfBalance_def
  by (intro vcg) (auto intro!: vcg balance dest: GoodD(8))

lemma opCallValue_ok: "Good c0 c \<Longrightarrow> holds (opCallValue c) (Good c0)"
  unfolding opCallValue_def
  by (intro vcg) (auto simp: good_def frame_def entry_def split: option.split)

lemma opChainID_ok: "Good c0 c \<Longrightarrow> holds (opChainID H c) (Good c0)"
  unfolding opChainID_def by (intro vcg) (auto intro!: vcg)

lemma opCallDataLoad_ok: "Good c0 c \<Longrightarrow> 0 < sp c \<Longrightarrow> holds (opCallDataLoad c) (Good c0)"
  unfolding opCallDataLoad_def
proof (intro vcg)
  fix v
  obtain buf where "setBytes (replicate 32 0) (c_Input (msg c)) 32 v = Some buf" "length buf = 32"
    using setBytes_total [of 32 "replicate 32 0"] by fastforce
  then show "Good c0 c \<Longrightarrow> holds (setBytes (replicate 32 0) (c_Input (msg c)) 32 v
      \<bind> (\<lambda>buf. Some (set_top (big_SetBytes buf) c))) (Good c0)"
    by (auto intro!: vcg in_range_SetBytes)
qed auto

lemma push_ok: "Good c0 c \<Longrightarrow> in_range v \<Longrightarrow> holds (Some (push v c)) (Good c0)"
  by (intro vcg)

lemma opExtCodeSize_ok: "Good c0 c \<Longrightarrow> 0 < sp c \<Longrightarrow> holds (opExtCodeSize H c) (Paid c0)"
  unfolding opExtCodeSize_def Let_def
  by (intro vcg) (auto intro!: vcg)

lemma opReturnDataSize_ok: "Good c0 c \<Longrightarrow> holds (opReturnDataSize c) (Good c0)"
  unfolding opReturnDataSize_def by (intro vcg) (auto intro!: vcg)

lemma opExtCodeHash_ok: "Good c0 c \<Longrightarrow> 0 < sp c \<Longrightarrow> holds (opExtCodeHash H c) (Paid c0)"
  unfolding opExtCodeHash_def Let_def
  by (intro vcg) (auto intro!: vcg)

subsection \<open>Copies\<close>

lemma copy_to_memory_ok: "Good c0 c \<Longrightarrow> 3 \<le> sp c \<Longrightarrow> holds (copy_to_memory src c) (Good c0)"
  unfolding copy_to_memory_def Let_def
  by (intro vcg) (auto simp: big_Uint64_def)

lemma opExtCodeCopy_ok: "Good c0 c \<Longrightarrow> 4 \<le> sp c \<Longrightarrow> holds (opExtCodeCopy H c) (Paid c0)"
  unfolding opExtCodeCopy_def Let_def
  by (intro vcg) (auto simp: big_Uint64_def)

lemma returndatacopy_write_ok:
  assumes "Good c0 c" "big_IsUint64 a" "in_range n" "big_IsUint64 (a + n)"
    and "unat (big_Uint64 (a + n)) \<le> length (returnData c)"
    and "unat o' + unat (big_Uint64 n) \<le> length (memory c)"
    and "unat (o' + big_Uint64 n) = unat o' + unat (big_Uint64 n)"
  shows "holds (slice (returnData c) (unat (big_Uint64 a)) (unat (big_Uint64 (a + n))) \<bind> (\<lambda>data.
    slice (memory c) (unat o') (unat (o' + big_Uint64 n)) \<bind> (\<lambda>dst.
      Some (c\<lparr>memory := overwrite (memory c) (unat o') data\<rparr>)))) (Good c0)"
proof -
  have "big_IsUint64 n" using assms(2-4) by (auto simp: big_IsUint64_def in_range_def)
  then have *: "unat (big_Uint64 (a + n)) = unat (big_Uint64 a) + unat (big_Uint64 n)"
    using assms(2,4) by (simp add: unat_big_Uint64 nat_add_distrib big_IsUint64_def)
  show ?thesis
    using assms(1,5-7) unfolding *
    by (auto simp: holds_def slice_def intro!: Good_memory dest: GoodD(9))
qed

lemma opReturnDataCopy_ok: "Good c0 c \<Longrightarrow> 3 \<le> sp c \<Longrightarrow> holds (opReturnDataCopy c) (Good c0)"
  unfolding opReturnDataCopy_def Let_def
  by (intro vcg returndatacopy_write_ok) auto

subsection \<open>Blocks and control flow\<close>

lemma opBlockHash_ok: "Good c0 c \<Longrightarrow> 0 < sp c \<Longrightarrow> holds (opBlockHash H c) (Good c0)"
  unfolding opBlockHash_def Let_def by (intro vcg) auto

lemma context_ok:
  assumes "Good c0 c"
  shows "holds (opTimestamp H c) (Good c0)" "holds (opNumber H c) (Good c0)"
    "holds (opGasLimit H c) (Good c0)"
  using TxContext_range [OF GoodD(8) [OF assms]] assms
  by (auto simp: opTimestamp_def opNumber_def opGasLimit_def intro!: vcg)

lemma opSelfDestruct_ok: "Good c0 c \<Longrightarrow> 0 < sp c \<Longrightarrow> holds (opSelfDestruct H c) (Paid c0)"
  unfolding opSelfDestruct_def Let_def
  by (intro vcg) (auto intro: Good_Selfdestruct  dest: Good_static)

lemma jump_to_ok:
  assumes "Good c0 c" "in_range dest"
  shows "holds (jump_to dest c) (Post False c0)"
proof (cases "63 \<le> big_BitLen dest \<or> length (code c) \<le> unat (big_Uint64 dest)")
  case True
  then show ?thesis
    using assms by (auto simp: jump_to_def validJumpdest_def Let_def intro!: vcg Post_of_Good)
next
  case False
  then have dest: "0 \<le> dest" "dest < 2 ^ 62"
    using big_BitLen_le_iff [of dest 62] assms(2) by (auto simp: in_range_def)
  then have "sint (big_Uint64 dest - 1) = dest - 1"
    by (rule sint_big_Uint64_pred)
  moreover have "unat (big_Uint64 dest) div 8 < length (bitmap c)"
    using False assms(1) by (auto simp: good_def frame_def entry_def)
  ultimately show ?thesis
    using False assms(1) dest
    by (auto simp: jump_to_def validJumpdest_def bitmap_isSet_def Let_def holds_def
        post_def good_def frame_def exit_def)
qed

lemma opJump_ok: "Good c0 c \<Longrightarrow> 0 < sp c \<Longrightarrow> holds (opJump c) (Post False c0)"
  unfolding opJump_def by (intro vcg jump_to_ok) auto

lemma opJumpi_ok: "Good c0 c \<Longrightarrow> 2 \<le> sp c \<Longrightarrow> holds (opJumpi c) (Post False c0)"
  unfolding opJumpi_def by (intro vcg jump_to_ok) (auto intro: Post_of_Good)

lemma opPush_ok:
  assumes "Good c0 c" "n \<le> 32"
  shows "holds (opPush n c) (Post False c0)"
proof -
  have ip: "0 \<le> ip c" "ip c < int (length (code c))"
    using assms(1) by (auto simp: good_def frame_def)
  have "in_range (big_SetBytes (take n (drop i (code c))))" for i
    using assms(2) by (intro in_range_SetBytes) simp
  then show ?thesis
    using assms(1) ip
    by (auto simp: opPush_def Let_def holds_def post_def good_def frame_def push_def)
qed

lemma opDup_ok: "Good c0 c \<Longrightarrow> 0 < n \<Longrightarrow> holds (opDup n c) (Good c0)"
  unfolding opDup_def peekAt_def
  by (intro vcg) (auto simp: stackAtLeast_def intro!: vcg GoodD(2))

lemma opSwap_ok:
  assumes "Good c0 c"
  shows "holds (opSwap n c) (Good c0)"
proof (cases "n < sp c")
  case True
  let ?s = "(stack c)[0 := stack c ! n, n := stack c ! 0]"
  have "0 < sp c" using True by (rule le_less_trans [OF le0])
  with True have "set ?s \<subseteq> set (stack c)"
    by (intro set_update_subsetI subset_refl nth_mem)
  then show ?thesis
    using True assms by (auto simp: opSwap_def state_swap_def stackAtLeast_def holds_def good_def frame_def)
qed (use assms in \<open>auto simp: opSwap_def stackAtLeast_def holds_def\<close>)

lemma holds_pop_topics [vcg]:
  assumes "Good c0 c" "n \<le> sp c"
    and "\<And>ts c'. Good c0 c' \<Longrightarrow> gas c' = gas c \<Longrightarrow> holds (f (ts, c')) Q"
  shows "holds (pop_topics n c \<bind> f) Q"
proof -
  have "holds (pop_topics n c) (\<lambda>(ts, c'). Good c0 c' \<and> gas c' = gas c)"
    using assms(1,2)
  proof (induction n arbitrary: c)
    case 0
    then show ?case by (auto simp: holds_def)
  next
    case (Suc n)
    show ?case
      unfolding pop_topics.simps using Suc.prems
      by (intro vcg holds_bind) (auto intro!: holds_mono [OF Suc.IH] vcg)
  qed
  then show ?thesis
    by (intro holds_bind, elim holds_mono) (auto intro!: assms(3))
qed

lemma Good_consumeGas:
  assumes "Good c0 c"
  shows "Good c0 (snd (consumeGas g c))"
proof -
  have "holds (case consumeGas g c of (ok, c') \<Rightarrow> Some c') (Good c0)"
    by (rule holds_consumeGas_gen [OF assms]) (auto intro: vcg)
  then show ?thesis by (auto simp: holds_def split: prod.splits)
qed

lemma opLog_ok: "Good c0 c \<Longrightarrow> holds (opLog H n c) (Good c0)"
  unfolding opLog_def Let_def
  by (intro vcg)
    (auto intro!: Good_EmitLog Good_consumeGas dest: Good_static simp: stackAtLeast_def)

subsection \<open>Create, call and halt\<close>

lemma opHalt_ok: "Good c0 c \<Longrightarrow> 2 \<le> sp c \<Longrightarrow> holds (opHalt op c) (Paid c0)"
  unfolding opHalt_def Let_def by (intro vcg) auto

lemma Good_Depth: "Good c0 c \<Longrightarrow> c_Depth (msg c) = d"
  by (simp add: good_def frame_def entry_def)

lemma holds_popv_if [vcg]:
  assumes "Good c0 c" "b \<Longrightarrow> 0 < sp c"
    and "\<And>v c'. Good c0 c' \<Longrightarrow> gas c' = gas c \<Longrightarrow> memory c' = memory c \<Longrightarrow> holds (f (v, c')) Q"
  shows "holds ((if b then popv c else Some (0, c)) \<bind> f) Q"
  using assms by (cases b) (auto intro!: vcg)

lemma holds_consumeGas_opt [vcg]:
  assumes "Good c0 c"
    and "\<And>c'. Good c0 c' \<Longrightarrow> unat (gas c') \<le> unat (gas c) \<Longrightarrow> holds (y c') Q"
    and "\<And>c'. Good c0 c' \<Longrightarrow> stop c' \<Longrightarrow> holds (x c') Q"
  shows "holds (case if b then consumeGas g c else (True, c) of
      (ok, c) \<Rightarrow> if \<not> ok then x c else y c) Q"
  using assms holds_consumeGas [of c0 c g y Q x] by (cases b) auto

lemma buildCreateContract_ok:
  assumes "Good c0 c" "(if op = CREATE2 then 4 else 3) \<le> sp c"
  shows "holds (buildCreateContract K H op c) (\<lambda>(k, bad, c'). Good c0 c'
    \<and> (bad \<longrightarrow> k = None \<and> unat (gas c') \<le> unat (gas c))
    \<and> (case k of None \<Rightarrow> bad \<or> stop c'
        | Some k \<Rightarrow> unat (gas c') + unat (c_Gas k) \<le> unat (gas c)
          \<and> c_Depth k = d + 1 \<and> (\<forall>v. c_Value k = Some v \<longrightarrow> in_range v)))"
  using assms unfolding buildCreateContract_def Let_def
  by (intro vcg)
    (auto simp: NewContractCreation_def NewContract_def Good_Depth split: if_splits)

lemma holds_Callx [vcg]:
  assumes "Good c0 c" "c_Depth k = d + 1" "\<forall>v. c_Value k = Some v \<longrightarrow> in_range v"
    and "st \<Longrightarrow> c_Static k \<and> c_Type k \<noteq> Create \<and> (c_Type k = Call \<longrightarrow> c_Value k = Some 0)"
    and "\<And>r h'. Good c0 (c\<lparr>host := h'\<rparr>) \<Longrightarrow> unat (GasLeft r) \<le> unat (c_Gas k) \<Longrightarrow> holds (f (r, h')) Q"
  shows "holds (h_Callx H (host c) k \<bind> f) Q"
proof -
  obtain r h' where "h_Callx H (host c) k = Some (r, h')" "GasLeft r \<le> c_Gas k"
    "Inv h' \<and> R (host c) h'"
    using Callx [OF GoodD(8) [OF assms(1)] assms(2)] assms(3,4) by blast
  then show ?thesis
    using Good_host [OF assms(1)] by (simp add: assms(5) word_le_nat_alt)
qed

lemma Good_gas_add:
  assumes "Good c0 c" "unat a + unat g \<le> unat (gas c0)"
  shows "Good c0 (c\<lparr>gas := a + g\<rparr>)"
  using assms unat_add_below [OF assms(2)] by (intro Good_gas) (auto simp: word_le_nat_alt)

lemma opCreate_ok:
  assumes "Good c0 c" "(if op = CREATE2 then 4 else 3) \<le> sp c"
  shows "holds (opCreate K H op c) (Good c0)"
proof -
  have g: "Good c0 (resetReturnData c)" "(if op = CREATE2 then 4 else 3) \<le> sp (resetReturnData c)"
    using assms by simp_all
  show ?thesis
    unfolding opCreate_def Let_def
    by (intro vcg holds_bind holds_mono [OF buildCreateContract_ok [OF g]])
      (use assms(1) GoodD(10) [OF assms(1)] in \<open>auto intro!: vcg Good_gas_add
        split: option.splits dest: Good_static\<close>)
qed

lemma holds_pop_if [vcg]:
  assumes "Good c0 c" "b \<Longrightarrow> 0 < sp c"
    and "\<And>v c'. Good c0 c' \<Longrightarrow> gas c' = gas c \<Longrightarrow> sp c' = (if b then sp c - 1 else sp c)
      \<Longrightarrow> (if b then in_range (hd (stack c)) \<and> v = Some (hd (stack c)) else v = None) \<Longrightarrow> holds (f v c') Q"
  shows "holds (case if b then pop c else (None, c) of (v, c) \<Rightarrow> f v c) Q"
proof (cases b)
  case True
  with assms(2) obtain v vs where "stack c = v # vs" by (cases "stack c") auto
  moreover from this assms(1) have "Good c0 (c\<lparr>stack := vs\<rparr>)" "in_range v"
    by (auto simp: good_def frame_def)
  ultimately show ?thesis
    using assms(3) [of "c\<lparr>stack := vs\<rparr>" "Some v"] True by (simp add: pop_def)
next
  case False
  then show ?thesis using assms(1) assms(3) [of c None] by simp
qed

lemma Good_EIP150: "Good c0 c \<Longrightarrow> EIP150 (config c)"
  by (simp add: good_def frame_def entry_def)

lemma Good_Static: "Good c0 c \<Longrightarrow> st \<Longrightarrow> c_Static (msg c)"
  by (simp add: good_def frame_def entry_def)

lemma Good_Value: "Good c0 c \<Longrightarrow> c_Value (msg c) = Some v \<Longrightarrow> in_range v"
  by (simp add: good_def frame_def entry_def)

definition callable :: "nat \<Rightarrow> int option \<Rightarrow> Contract \<Rightarrow> bool" where
  "callable op val k \<longleftrightarrow> c_Depth k = d + 1 \<and> (\<forall>v. c_Value k = Some v \<longrightarrow> in_range v)
    \<and> (st \<longrightarrow> c_Static k) \<and> (op = CALL \<longrightarrow> c_Value k = val)"

lemma callable_call_contract:
  assumes "Good c0 c" "\<And>v. val = Some v \<Longrightarrow> in_range v"
  shows "callable op val (call_contract op (msg c) addr val g cd args)"
  using assms Good_Value [OF assms(1)] Good_Static [OF assms(1)]
  by (auto simp: callable_def call_contract_fields Good_Depth CALL_def DELEGATECALL_def)

text \<open>The second half of \<^verbatim>\<open>buildCallContract\<close>, after the memory has been paid for.\<close>

lemma call_charge_ok:
  assumes "Good c0 c" "\<And>v. val = Some v \<Longrightarrow> in_range v"
    and "\<And>c'. Good c0 c' \<Longrightarrow> stop c' \<Longrightarrow> Q (None, 0, 0, False, c')"
    and "\<And>k c'. Good c0 c' \<Longrightarrow> memory c' = memory c \<Longrightarrow> callable op val k
      \<Longrightarrow> unat (gas c') + unat (c_Gas k) < unat (gas c)
      \<Longrightarrow> Q (Some k, 0, 0, True, c') \<and> Q (Some k, ro, rs, False, c')"
  shows "holds (case call_gas (config c) (gas c) (call_gasCost H op c addr tv) ig of
      None \<Rightarrow> Some (None, 0, 0, False, exit (Some ErrOutOfGas) c)
    | Some g \<Rightarrow>
        (case consumeGas (call_gasCost H op c addr tv + g) c of (ok, c) \<Rightarrow>
           if \<not> ok then Some (None, 0, 0, False, c)
           else (case h_GetCode H (host c) addr of (cd, h') \<Rightarrow>
             if tv \<and> h_GetBalance H (host (c\<lparr>host := h'\<rparr>)) (c_Address (msg (c\<lparr>host := h'\<rparr>))) < the val
             then Some (Some (call_contract op (msg (c\<lparr>host := h'\<rparr>)) addr val
               (if tv then g + 2300 else g) cd args), 0, 0, True, c\<lparr>host := h'\<rparr>)
             else Some (Some (call_contract op (msg (c\<lparr>host := h'\<rparr>)) addr val
               (if tv then g + 2300 else g) cd args), ro, rs, False, c\<lparr>host := h'\<rparr>)))) Q"
proof (intro vcg assms(3) assms(4) [THEN conjunct1] assms(4) [THEN conjunct2])
  fix g c' cd h'
  assume g: "call_gas (config c) (gas c) (call_gasCost H op c addr tv) ig = Some g"
    and sum: "unat (gas c') + unat (call_gasCost H op c addr tv + g) = unat (gas c)"
    and good: "Good c0 (c'\<lparr>host := h'\<rparr>)"
  show "unat (gas (c'\<lparr>host := h'\<rparr>)) + unat (c_Gas (call_contract op (msg (c'\<lparr>host := h'\<rparr>)) addr val
      (if tv then g + 2300 else g) cd args)) < unat (gas c)"
    using call_gas_paid [OF Good_EIP150 [OF assms(1)] g sum]
    by (simp add: call_contract_fields split del: if_split)
  then show "unat (gas (c'\<lparr>host := h'\<rparr>)) + unat (c_Gas (call_contract op (msg (c'\<lparr>host := h'\<rparr>)) addr val
      (if tv then g + 2300 else g) cd args)) < unat (gas c)" .
qed (use assms(1,2) in \<open>auto intro!: callable_call_contract\<close>)

definition built ::
  "nat \<Rightarrow> 'h state \<Rightarrow> 'h state \<Rightarrow> Contract option \<times> uint64 \<times> uint64 \<times> bool \<times> 'h state \<Rightarrow> bool" where
  "built op c0 c = (\<lambda>(k, off, sz, bad, c'). Good c0 c'
    \<and> (case k of None \<Rightarrow> \<not> bad \<and> stop c'
        | Some k \<Rightarrow> unat (gas c') + unat (c_Gas k) < unat (gas c)
          \<and> (\<exists>val. callable op val k \<and> (op = CALL \<longrightarrow> val = Some (stack c ! 2)))
          \<and> (\<not> bad \<longrightarrow> sz \<noteq> 0 \<longrightarrow> unat off + unat sz \<le> length (memory c')
                  \<and> unat (off + sz) = unat off + unat sz)))"

lemma built_None: "Good c0 c' \<Longrightarrow> stop c' \<Longrightarrow> built op c0 c (None, 0, 0, False, c')"
  by (simp add: built_def)

lemma built_Some:
  assumes "Good c0 c'" "unat (gas c') + unat (c_Gas k) < unat g" "unat g \<le> unat (gas c)"
    and "callable op val k" "op = CALL \<Longrightarrow> val = Some (stack c ! 2)"
    and "n \<noteq> 0 \<longrightarrow> unat off + unat (big_Uint64 n) \<le> length m
      \<and> unat (off + big_Uint64 n) = unat off + unat (big_Uint64 n)" "memory c' = m"
  shows "built op c0 c (Some k, 0, 0, True, c') \<and> built op c0 c (Some k, off, big_Uint64 n, False, c')"
  using assms by (cases "n = 0") (auto simp: built_def big_Uint64_def)

lemma buildCallContract_ok:
  assumes "Good c0 c" "(if op = CALL \<or> op = CALLCODE then 7 else 6) \<le> sp c"
  shows "holds (buildCallContract H op c) (built op c0 c)"
proof -
  define b where "b \<longleftrightarrow> op = CALL \<or> op = CALLCODE"
  have "0 < sp c" "0 < length (tl (stack c))"
    and n: "(if b then 5 else 4) \<le> length (tl (tl (stack c)))"
    using assms(2) by (auto simp: b_def split: if_splits)
  have hd: "hd (tl (tl (stack c))) = stack c ! 2" if b
    using hd_drop_conv_nth [of 2 "stack c"] that assms(2) by (auto simp: b_def drop_Suc numeral_2_eq_2)
  have call: "op = CALL \<Longrightarrow> b" by (simp add: b_def)
  show ?thesis
    unfolding buildCallContract_def Let_def b_def [symmetric]
    apply (rule holds_popv_tl [OF assms(1)], fact)
    apply (rule vcg)
    apply (rule holds_popAddr_tl, assumption, use \<open>0 < length (tl (stack c))\<close> in simp)
    apply (rule holds_pop_if, assumption, use n in \<open>simp split: if_splits\<close>)
    apply (intro holds_popv [where ?c0.0 = c0] holds_get2 [where ?c0.0 = c0]
        holds_allocateMemory [where ?c0.0 = c0] call_charge_ok [where ?c0.0 = c0]
        holds_case_prod holds_Some built_None built_Some)
    apply (assumption | cases b; (use n hd call in \<open>simp; fail\<close>))+
    done
qed

lemma copy_return_ok:
  assumes "Good c0 c" "sz \<noteq> 0 \<longrightarrow> unat off + unat sz \<le> length (memory c)
      \<and> unat (off + sz) = unat off + unat sz"
    and "\<And>c'. Good c0 c' \<Longrightarrow> gas c' = gas c \<Longrightarrow> holds (f c') Q"
  shows "holds (copy_return r off sz c \<bind> f) Q"
proof (cases "(Succeeded r \<or> Reverted r) \<and> ReturnValue r \<noteq> [] \<and> 0 < sz")
  case True
  then have "unat off + unat sz \<le> length (memory c)" "unat (off + sz) = unat off + unat sz"
    using assms(2) by auto
  with True show ?thesis
    using assms(1) GoodD(9) [OF assms(1)]
    by (auto simp: copy_return_def slice_def min_def intro!: assms(3) Good_memory)
next
  case False
  then have "copy_return r off sz c = Some c" unfolding copy_return_def by (rule if_not_P)
  then show ?thesis using assms(1) assms(3) [of c] by simp
qed

lemma call_guard_ok:
  assumes "Good c0 c" "op = CALL \<Longrightarrow> 7 \<le> sp c"
  shows "holds (if op = CALL \<and> inStaticCall c then peekAt 3 c \<bind> (\<lambda>v. Some (0 < big_BitLen v))
           else Some False)
    (\<lambda>p. \<not> p \<longrightarrow> op = CALL \<longrightarrow> st \<longrightarrow> stack c ! 2 = 0)"
proof -
  have "big_BitLen v = 0 \<longleftrightarrow> v = 0" for v
    using big_BitLen_le_iff [of v 0] by auto
  then show ?thesis
    using assms Good_Static [OF assms(1)]
    by (auto simp: holds_def peekAt_def inStaticCall_def numeral_3_eq_3 numeral_2_eq_2)
qed

lemma callType_cases:
  "op \<in> {CALL, CALLCODE, DELEGATECALL, STATICCALL} \<Longrightarrow>
    \<exists>ct. callType op = Some ct \<and> ct \<noteq> Create \<and> (ct = Call \<longleftrightarrow> op = CALL)"
  by (auto simp: callType_def CALL_def CALLCODE_def DELEGATECALL_def STATICCALL_def)

text \<open>What \<^verbatim>\<open>opCall\<close> does with the contract it has built.\<close>

abbreviation (input) call_rest ::
  "CallType \<Rightarrow> Contract option \<times> uint64 \<times> uint64 \<times> bool \<times> 'h state \<Rightarrow> 'h state option" where
  "call_rest ct \<equiv> (\<lambda>(contract, offset, sz, bad, c).
     if bad then
       case contract of None \<Rightarrow> Some (push 0 c)
       | Some k \<Rightarrow> Some ((push 0 c)\<lparr>gas := gas (push 0 c) + c_Gas k\<rparr>)
     else case contract of None \<Rightarrow> Some c
     | Some k \<Rightarrow> h_Callx H (host c) (k\<lparr>c_Type := ct\<rparr>) \<bind> (\<lambda>(result, h').
         copy_return result offset sz (push (if Succeeded result then 1 else 0) (c\<lparr>host := h'\<rparr>))
           \<bind> (\<lambda>c. Some (c\<lparr>gas := gas c + GasLeft result, returnData := ReturnValue result\<rparr>))))"

lemma call_rest_ok:
  assumes b: "built op c0 c (k, off, sz, bad, c')" and le: "unat (gas c) \<le> unat (gas c0)"
    and zero: "op = CALL \<longrightarrow> st \<longrightarrow> stack c ! 2 = 0"
    and ct: "ct \<noteq> Create" "ct = Call \<longleftrightarrow> op = CALL"
  shows "holds (call_rest ct (k, off, sz, bad, c')) (Paid c0)"
proof (cases k)
  case None
  then show ?thesis using b by (auto simp: built_def intro!: vcg)
next
  case (Some k')
  from b Some have c': "Good c0 c'" and left: "unat (gas c') + unat (c_Gas k') < unat (gas c0)"
    and k': "c_Depth (k'\<lparr>c_Type := ct\<rparr>) = d + 1"
      "\<forall>v. c_Value (k'\<lparr>c_Type := ct\<rparr>) = Some v \<longrightarrow> in_range v"
      "st \<longrightarrow> c_Static k'" "op = CALL \<longrightarrow> c_Value k' = Some (stack c ! 2)"
    using le by (auto simp: built_def callable_def)
  have pay: "Paid c0 (x\<lparr>gas := gas c' + l\<rparr>)" if "Good c0 x" "unat l \<le> unat (c_Gas k')" for x l
    using that left Good_gas_add [of c0 x "gas c'" l] unat_add_below [of "gas c'" l "gas c0"] by auto
  show ?thesis
  proof (cases bad)
    case True
    then show ?thesis
      using Some pay [OF Good_push [OF c' in_range_01(1)] order_refl] by (auto intro!: vcg)
  next
    case False
    show ?thesis
      unfolding Some prod.case option.case if_not_P [OF False]
      apply (rule holds_Callx [OF c' k'(1,2)])
      using k'(3,4) ct zero apply simp
      apply (rule vcg)
      apply (rule copy_return_ok [where ?c0.0 = c0])
      subgoal by (auto intro!: vcg)
      subgoal using b Some False by (auto simp: built_def)
      subgoal for r h' c'' using pay [of c'' "GasLeft r"] by (auto intro!: vcg)
      done
  qed
qed

lemma exit_paid: "Good c0 c \<Longrightarrow> Paid c0 (exit (Some e) c)"
  by simp

lemma opCall_ok:
  assumes "Good c0 c" "(if op = CALL \<or> op = CALLCODE then 7 else 6) \<le> sp c"
    and "op \<in> {CALL, CALLCODE, DELEGATECALL, STATICCALL}"
  shows "holds (opCall H op c) (Paid c0)"
proof -
  let ?c = "resetReturnData c"
  have g: "Good c0 ?c" "(if op = CALL \<or> op = CALLCODE then 7 else 6) \<le> sp ?c" "op = CALL \<Longrightarrow> 7 \<le> sp ?c"
    using assms by (auto split: if_splits)
  obtain ct where ct: "callType op = Some ct" "ct \<noteq> Create" "ct = Call \<longleftrightarrow> op = CALL"
    using callType_cases [OF assms(3)] by auto
  have rest: "holds (buildCallContract H op ?c \<bind> call_rest ct) (Paid c0)"
    if "op = CALL \<longrightarrow> st \<longrightarrow> stack ?c ! 2 = 0"
    apply (rule holds_bind, rule holds_mono [OF buildCallContract_ok [OF g(1,2)]])
    subgoal for x
      by (cases x) (use call_rest_ok [OF _ GoodD(10) [OF g(1)] that ct(2,3)] in blast)
    done
  show ?thesis
    unfolding opCall_def Let_def ct(1)
    apply (rule holds_bind, rule holds_mono [OF call_guard_ok [OF g(1,3)]], assumption)
    apply (rule holds_if)
    apply (rule holds_Some, rule exit_paid, rule g(1))
    apply (rule holds_if)
    apply (rule holds_Some, rule exit_paid, rule g(1))
    apply (rule holds_if)
    apply (rule holds_Some, rule exit_paid, rule g(1))
    apply (rule holds_bind_Some, rule rest)
    apply blast
    done
qed

end

end
