(* ===== verification/EvmCode.thy ===== *)
theory EvmCode
  imports EvmState
begin

text \<open>
  The jump-destination analysis of \<^verbatim>\<open>bitmap.go\<close> is exact: the bitmap that \<^verbatim>\<open>setCode\<close> computes has
  exactly the positions where an instruction starts and that instruction is \<^verbatim>\<open>JUMPDEST\<close>. Where
  instructions start is an inductive predicate over the code, independent of the scan.
\<close>

subsection \<open>Where instructions start\<close>

text \<open>The number of bytes that follow an opcode: \<open>PUSH1\<close> to \<open>PUSH32\<close> carry their operand.\<close>

definition operand_len :: "byte \<Rightarrow> nat" where
  "operand_len b = (if 0x60 \<le> b \<and> b \<le> 0x7f then unat b - 0x5f else 0)"

inductive instr_at :: "byte list \<Rightarrow> nat \<Rightarrow> nat \<Rightarrow> bool" for cd i where
  here: "instr_at cd i i"
| next': "instr_at cd i j \<Longrightarrow> j < length cd \<Longrightarrow> instr_at cd i (Suc (j + operand_len (cd ! j)))"

lemma instr_at_le: "instr_at cd i j \<Longrightarrow> i \<le> j"
  by (induction rule: instr_at.induct) simp_all

lemma instr_at_step:
  "i < length cd \<Longrightarrow> instr_at cd (Suc (i + operand_len (cd ! i))) j \<Longrightarrow> instr_at cd i j"
  by (rotate_tac, induction rule: instr_at.induct [consumes 1]) (auto intro: instr_at.intros)

lemma instr_at_unfold:
  assumes "i < length cd"
  shows "instr_at cd i j \<longleftrightarrow> i = j \<or> instr_at cd (Suc (i + operand_len (cd ! i))) j"
proof
  assume "instr_at cd i j"
  then show "i = j \<or> instr_at cd (Suc (i + operand_len (cd ! i))) j"
    by (induction rule: instr_at.induct) (auto intro: instr_at.intros)
qed (use assms in \<open>auto intro: instr_at.intros instr_at_step\<close>)

lemma instr_at_beyond: "length cd \<le> i \<Longrightarrow> instr_at cd i j \<longleftrightarrow> i = j"
  by (metis instr_at.simps instr_at_le le_trans linorder_not_le)

subsection \<open>The scan\<close>

lemma isPushOp_iff: "isPushOp b \<longleftrightarrow> 0x60 \<le> b \<and> b \<le> 0x7f"
proof -
  have "drop_bit 5 b = 3 \<longleftrightarrow> unat b div 32 = 3"
    by (simp add: word_unat_eq_iff drop_bit_eq_div unat_div)
  then show ?thesis
    by (simp add: isPushOp_def word_le_nat_alt) linarith
qed

lemma scan_step: "isPushOp b \<Longrightarrow> unat b - 0x60 + 2 = 1 + operand_len b"
  by (auto simp: isPushOp_iff operand_len_def word_le_nat_alt)

definition marked :: "byte list \<Rightarrow> nat \<Rightarrow> bool" where
  "marked buf i \<longleftrightarrow> i div 8 < length buf \<and> bit (buf ! (i div 8)) (i mod 8)"

lemma bitmap_isSet_marked:
  "i div 8 < length buf \<Longrightarrow> bitmap_isSet buf i = Some (marked buf i)"
proof -
  have "(w :: byte) AND push_bit n 1 \<noteq> 0 \<longleftrightarrow> bit w n" if "n < 8" for w n
  proof -
    have "w AND push_bit n 1 = (if bit w n then push_bit n 1 else 0)"
      by (rule bit_word_eqI) (auto simp: bit_simps)
    moreover have "push_bit n (1 :: byte) \<noteq> 0"
      using that by (simp add: push_bit_eq_0_iff)
    ultimately show ?thesis by simp
  qed
  then show "i div 8 < length buf \<Longrightarrow> bitmap_isSet buf i = Some (marked buf i)"
    by (simp add: bitmap_isSet_def marked_def)
qed

lemma marked_set:
  assumes "bitmap_set buf i = Some buf'"
  shows "length buf' = length buf" "marked buf' j \<longleftrightarrow> j = i \<or> marked buf j"
proof -
  from assms have i: "i div 8 < length buf"
    and buf': "buf' = buf[i div 8 := buf ! (i div 8) OR push_bit (i mod 8) 1]"
    by (auto simp: bitmap_set_def split: if_splits)
  then show "length buf' = length buf" by simp
  have eq: "j = i \<longleftrightarrow> j div 8 = i div 8 \<and> j mod 8 = i mod 8"
    by (metis div_mult_mod_eq)
  show "marked buf' j \<longleftrightarrow> j = i \<or> marked buf j"
    using i by (auto simp: marked_def buf' eq nth_list_update bit_simps)
qed

lemma setCode_loop_marks:
  assumes "length cd div 8 < length buf"
  shows "\<exists>buf'. setCode_loop cd i buf = Some buf' \<and> length buf' = length buf
    \<and> (\<forall>j. marked buf' j \<longleftrightarrow> marked buf j \<or> (j < length cd \<and> instr_at cd i j \<and> cd ! j = 0x5b))"
  using assms
proof (induction cd i buf rule: setCode_loop.induct)
  case (1 cd i buf)
  show ?case
  proof (cases "i < length cd")
    case False
    then show ?thesis
      by (subst setCode_loop.simps) (auto simp: instr_at_beyond)
  next
    case i: True
    let ?b = "cd ! i"
    show ?thesis
    proof (cases "isPushOp ?b")
      case True
      then have "?b \<noteq> 0x5b" by (auto simp: isPushOp_iff)
      moreover have "i + (unat ?b - 0x60 + 2) = i + 1 + operand_len ?b"
        using scan_step [OF True] by simp
      ultimately show ?thesis
        using 1(1) [OF i refl True 1(4)] i True
        by (subst setCode_loop.simps) (auto simp: Let_def instr_at_unfold)
    next
      case False
      then have op: "operand_len ?b = 0" by (auto simp: operand_len_def isPushOp_iff)
      show ?thesis
      proof (cases "?b = 0x5b")
        case True
        have "i div 8 < length buf" using i 1(4) div_le_mono [of i "length cd" 8] by simp
        then obtain b' where b': "bitmap_set buf i = Some b'" by (simp add: bitmap_set_def)
        show ?thesis
          using 1(2) [OF i refl False True b'] 1(4) i False True marked_set [OF b'] op
          by (subst setCode_loop.simps) (auto simp: Let_def instr_at_unfold b')
      next
        case nj: False
        show ?thesis
          using 1(3) [OF i refl False nj 1(4)] i False nj op
          by (subst setCode_loop.simps) (auto simp: Let_def instr_at_unfold)
      qed
    qed
  qed
qed

lemma setCode_marks:
  obtains bm where "setCode [] cd = Some bm" "length bm = length cd div 8 + 1"
    "\<And>j. marked bm j \<longleftrightarrow> j < length cd \<and> instr_at cd 0 j \<and> cd ! j = 0x5b"
proof -
  let ?buf = "ExtendByteSlice [] (length cd div 8 + 1)"
  have "length ?buf = length cd div 8 + 1" "\<not> marked ?buf j" for j
    by (auto simp: ExtendByteSlice_def marked_def simp del: replicate.simps)
  then show thesis
    using setCode_loop_marks [of cd ?buf 0] that by (auto simp: setCode_def)
qed


subsection \<open>Jump destinations\<close>

text \<open>C10. Jump destinations are checked exactly: with the bitmap that \<^verbatim>\<open>setCode\<close> computed for the code of
  the frame, \<^verbatim>\<open>validJumpdest\<close> never panics and accepts a destination if and only if an instruction starts
  there, counting from the first byte and skipping the operands of the pushes, and it is
  \<open>JUMPDEST\<close>; so no operand byte and no position outside the code is ever jumped to.\<close>

theorem validJumpdest_exact:
  assumes "setCode [] (code c) = Some (bitmap c)" "length (code c) < 2 ^ 62" "0 \<le> dest"
  shows "validJumpdest dest c = Some (nat dest < length (code c) \<and> instr_at (code c) 0 (nat dest)
    \<and> code c ! nat dest = 0x5b)"
proof -
  obtain bm where bm: "setCode [] (code c) = Some bm" "length bm = length (code c) div 8 + 1"
    "\<And>j. marked bm j \<longleftrightarrow> j < length (code c) \<and> instr_at (code c) 0 j \<and> code c ! j = 0x5b"
    using setCode_marks [of "code c"] by blast
  have "63 \<le> big_BitLen dest \<longleftrightarrow> 2 ^ 62 \<le> dest"
    using big_BitLen_gt_iff [of 62 dest] assms(3) by auto
  moreover have "unat (big_Uint64 dest) = nat dest" if "dest < 2 ^ 62"
    using that assms(3) by (simp add: unat_big_Uint64 big_IsUint64_def)
  moreover have "i div 8 < length bm" if "i < length (code c)" for i
    using that bm(2) div_le_mono [of i "length (code c)" 8] by simp
  ultimately show ?thesis
    using assms bm by (auto simp: validJumpdest_def Let_def bitmap_isSet_marked)
qed

text \<open>In \<open>PUSH1 0x5b; JUMPDEST\<close> only the second \<open>0x5b\<close> is a destination.\<close>

theorem validJumpdest_exact_witness:
  "validJumpdest 2 (fresh\<lparr>code := [0x60, 0x5b, 0x5b], bitmap := [4]\<rparr>) = Some True"
proof -
  let ?c = "fresh\<lparr>code := [0x60, 0x5b, 0x5b], bitmap := [4]\<rparr>"
  have push: "Suc (operand_len 0x60) = 2" by code_simp
  have "setCode [] [0x60, 0x5b, 0x5b] = Some [4]" by code_simp
  moreover have "instr_at [0x60, 0x5b, 0x5b] 0 2"
    using next' [OF here, of 0 "[0x60, 0x5b, 0x5b]"] by (simp add: push)
  ultimately show ?thesis
    using validJumpdest_exact [of ?c 2] by (simp add: acquireState_def)
qed

end
