(* ===== verification/EvmSafetyRun.thy ===== *)
theory EvmSafetyRun
  imports EvmSafetyInstr EvmCode
begin

text \<open>
  The interpreter as a whole: every entry of the dispatch table meets the instruction contract, so a
  round of the loop keeps the invariant and spends gas, and the loop returns.
\<close>

context evm_host
begin

definition instr_ok :: "'h handler \<Rightarrow> bool" where
  "instr_ok h \<longleftrightarrow> (\<forall>c. Good c c \<longrightarrow> hd_stack h \<le> sp c
    \<longrightarrow> holds (hd_inst h c) (Post (hd_gas h = 0) c))"

lemma free_ok:
  assumes "\<And>c0 c. Good c0 c \<Longrightarrow> n \<le> sp c \<Longrightarrow> holds (f c) (Paid c0)"
  shows "instr_ok \<lparr>hd_inst = f, hd_stack = n, hd_gas = g\<rparr>"
  unfolding instr_ok_def
proof (intro allI impI)
  fix c
  assume "Good c c" "hd_stack \<lparr>hd_inst = f, hd_stack = n, hd_gas = g\<rparr> \<le> sp c"
  then have "holds (f c) (Paid c)" by (intro assms) simp_all
  then show "holds (hd_inst \<lparr>hd_inst = f, hd_stack = n, hd_gas = g\<rparr> c)
      (Post (hd_gas \<lparr>hd_inst = f, hd_stack = n, hd_gas = g\<rparr> = 0) c)"
    by (auto elim!: holds_mono intro: Post_of_Good)
qed

lemma charged_ok:
  assumes "g \<noteq> 0" "\<And>c0 c. Good c0 c \<Longrightarrow> n \<le> sp c \<Longrightarrow> holds (f c) (Good c0)"
  shows "instr_ok \<lparr>hd_inst = f, hd_stack = n, hd_gas = g\<rparr>"
  unfolding instr_ok_def
proof (intro allI impI)
  fix c
  assume "Good c c" "hd_stack \<lparr>hd_inst = f, hd_stack = n, hd_gas = g\<rparr> \<le> sp c"
  then have "holds (f c) (Good c)" by (intro assms) simp_all
  then show "holds (hd_inst \<lparr>hd_inst = f, hd_stack = n, hd_gas = g\<rparr> c)
      (Post (hd_gas \<lparr>hd_inst = f, hd_stack = n, hd_gas = g\<rparr> = 0) c)"
    using assms(1) by (auto elim!: holds_mono intro: Post_of_Good)
qed

lemma moving_ok:
  "g \<noteq> 0 \<Longrightarrow> (\<And>c0 c. Good c0 c \<Longrightarrow> n \<le> sp c \<Longrightarrow> holds (f c) (Post False c0))
    \<Longrightarrow> instr_ok \<lparr>hd_inst = f, hd_stack = n, hd_gas = g\<rparr>"
  by (auto simp: instr_ok_def)

lemma list_all_register:
  "list_all (\<lambda>(_, h). instr_ok h) (register op f n g)
    \<longleftrightarrow> instr_ok \<lparr>hd_inst = f, hd_stack = n, hd_gas = g\<rparr>"
  by (simp add: register_def)

lemma list_all_registerRange:
  "list_all (\<lambda>(_, h). instr_ok h) (registerRange from to factory g)
    \<longleftrightarrow> (\<forall>i. from \<le> i \<longrightarrow> i \<le> to \<longrightarrow> instr_ok \<lparr>hd_inst = factory (i - from + 1), hd_stack = 0, hd_gas = g\<rparr>)"
  by (auto simp: registerRange_def register_def list_all_iff)

lemmas binops_ok = binop_ok [OF op_add.u256_binop_axioms] binop_ok [OF op_mul.u256_binop_axioms]
  binop_ok [OF op_sub.u256_binop_axioms] binop_ok [OF op_div.u256_binop_axioms]
  binop_ok [OF op_sdiv.u256_binop_axioms] binop_ok [OF op_mod.u256_binop_axioms]
  binop_ok [OF op_smod.u256_binop_axioms] binop_ok [OF op_and.u256_binop_axioms]
  binop_ok [OF op_or.u256_binop_axioms] binop_ok [OF op_xor.u256_binop_axioms]
  binop_ok [OF op_eq.u256_binop_axioms] binop_ok [OF op_lt.u256_binop_axioms]
  binop_ok [OF op_gt.u256_binop_axioms] binop_ok [OF op_slt.u256_binop_axioms]
  binop_ok [OF op_sgt.u256_binop_axioms]

lemma shifts_ok:
  assumes "Good c0 c" "2 \<le> sp c"
  shows "holds (opShl c) (Good c0)" "holds (opShr c) (Good c0)" "holds (opSar c) (Good c0)"
  unfolding opShl_def opShr_def opSar_def
  using binop_ok [OF op_shl.u256_binop_axioms] binop_ok [OF op_shr.u256_binop_axioms]
    binop_ok [OF op_sar.u256_binop_axioms] assms
  by (auto intro!: constantinople_op_ok)

lemma unops_ok:
  assumes "Good c0 c" "1 \<le> sp c"
  shows "holds (opNot c) (Good c0)" "holds (opIsZero c) (Good c0)"
  using assms by (auto simp: opNot_def opIsZero_def intro!: unop_ok)

lemma ternops_ok:
  assumes "Good c0 c" "3 \<le> sp c"
  shows "holds (opAddMod c) (Good c0)" "holds (opMulMod c) (Good c0)"
  using assms by (auto simp: opAddMod_def opMulMod_def u_AddMod_def u_MulMod_def intro!: ternop_ok)

lemma pushes_ok:
  assumes "Good c0 c"
  shows "holds (opAddress c) (Good c0)" "holds (opOrigin H c) (Good c0)" "holds (opCaller c) (Good c0)"
    "holds (opCallDataSize c) (Good c0)" "holds (opCodeSize c) (Good c0)"
    "holds (opGasPrice H c) (Good c0)" "holds (opPC c) (Good c0)" "holds (opMSize c) (Good c0)"
    "holds (opGas c) (Good c0)" "holds (opCoinbase H c) (Good c0)" "holds (opDifficulty H c) (Good c0)"
    "holds (opJumpDest c) (Good c0)"
  using assms
  by (auto simp: opAddress_def opOrigin_def opCaller_def opCallDataSize_def opCodeSize_def
      opGasPrice_def opPC_def opMSize_def opGas_def opCoinbase_def opDifficulty_def opJumpDest_def
      intro!: vcg)

lemma copies_ok:
  assumes "Good c0 c" "3 \<le> sp c"
  shows "holds (opCallDataCopy c) (Good c0)" "holds (opCodeCopy c) (Good c0)"
  using assms by (auto simp: opCallDataCopy_def opCodeCopy_def intro!: copy_to_memory_ok)

lemma opStop_ok: "Good c0 c \<Longrightarrow> holds (opStop c) (Paid c0)"
  by (auto simp: opStop_def intro!: vcg)

lemma opCreate_oks:
  assumes "Good c0 c"
  shows "3 \<le> sp c \<Longrightarrow> holds (opCreate K H CREATE c) (Good c0)"
    "4 \<le> sp c \<Longrightarrow> holds (opCreate K H CREATE2 c) (Good c0)"
  using assms by (auto intro!: opCreate_ok simp: CREATE_def CREATE2_def)

lemma opCall_oks:
  assumes "Good c0 c"
  shows "7 \<le> sp c \<Longrightarrow> holds (opCall H CALL c) (Paid c0)"
    "7 \<le> sp c \<Longrightarrow> holds (opCall H CALLCODE c) (Paid c0)"
    "6 \<le> sp c \<Longrightarrow> holds (opCall H DELEGATECALL c) (Paid c0)"
    "6 \<le> sp c \<Longrightarrow> holds (opCall H STATICCALL c) (Paid c0)"
  using assms
  by (auto intro!: opCall_ok simp: CALL_def CALLCODE_def DELEGATECALL_def STATICCALL_def)

lemmas charged_rules = binops_ok [folded opAdd_def opMul_def opSub_def opDiv_def opSDiv_def opMod_def
    opSMod_def opAnd_def opOr_def opXor_def opEq_def opLt_def opGt_def opSlt_def opSgt_def]
  shifts_ok unops_ok ternops_ok pushes_ok copies_ok opExp_ok opDup_ok opSwap_ok opLog_ok opByte_ok
  opSignExtension_ok opCreate_oks opMload_ok opMStore_ok opMStore8_ok opSha3_ok opPop_ok
  opSelfBalance_ok opCallValue_ok opCallDataLoad_ok opReturnDataSize_ok opChainID_ok
  opReturnDataCopy_ok opBlockHash_ok context_ok

lemmas free_rules = opStop_ok opCall_oks opHalt_ok opSload_ok opSStore_ok opExtCodeHash_ok
  opBalance_ok opExtCodeSize_ok opExtCodeCopy_ok opSelfDestruct_ok

lemmas moving_rules = opPush_ok opJump_ok opJumpi_ok

lemma dispatch_entries_ok: "list_all (\<lambda>(_, h). instr_ok h) (dispatch_entries K H)"
  unfolding dispatch_entries_def concat.simps list_all_append list_all_register list_all_registerRange
    append_Nil2
  apply (intro conjI allI impI)
  apply ((rule free_ok, (rule free_rules; simp add: Suc_le_eq; fail))
    | (rule charged_ok, (simp; fail), (rule charged_rules; simp add: Suc_le_eq; fail))
    | (rule moving_ok, (simp; fail), (rule moving_rules; simp add: Suc_le_eq; fail)))+
  done

lemma dispatch_ok: "dispatchTable K H op = Some h \<Longrightarrow> instr_ok h"
  using dispatch_entries_ok [of K] by (auto simp: dispatchTable_def list_all_iff dest: map_of_SomeD)

subsection \<open>The loop\<close>

text \<open>The invariant at the head of the loop.\<close>

definition head :: "'h state \<Rightarrow> bool" where
  "head c \<longleftrightarrow> entry st d c \<and> Inv (host c) \<and> length (memory c) \<le> mem_bound \<and> 0 \<le> ip c
    \<and> sp c \<le> stackSize
    \<and> ((\<forall>v \<in> set (stack c). in_range v) \<or> int (length (code c)) \<le> ip c)"

lemma Good_head:
  "head c \<Longrightarrow> ip c < int (length (code c)) \<Longrightarrow> Good c c"
  by (auto simp: head_def good_def frame_def R_refl)

lemma entry_cong:
  "code c' = code c \<Longrightarrow> msg c' = msg c \<Longrightarrow> config c' = config c \<Longrightarrow> bitmap c' = bitmap c
    \<Longrightarrow> entry st d c' = entry st d c"
  by (simp add: entry_def)

lemma Run_step_ok:
  assumes "head c"
  shows "holds (Run_step K H c) (\<lambda>(broke, c'). frame Inv R c c'
    \<and> (\<not> broke \<longrightarrow> head c' \<and> (stop c' \<or> unat (gas c') < unat (gas c))))"
proof (cases "ip c < int (length (code c))")
  case False
  then show ?thesis
    using assms
    by (auto simp: Run_step_def CurrentOpCode_def holds_def head_def frame_def Halt_def R_refl)
next
  case ip: True
  let ?op = "unat (code c ! nat (ip c))"
  have good: "Good c c" using assms ip by (rule Good_head)
  have op: "CurrentOpCode c = Some (?op, True)"
    using assms ip by (simp add: CurrentOpCode_def head_def)
  show ?thesis
  proof (cases "dispatchTable K H ?op")
    case None
    then show ?thesis
      using good by (auto simp: Run_step_def op holds_def good_def frame_def exit_def)
  next
    case (Some h)
    have step: "holds (hd_inst h c1 \<bind> (\<lambda>c. if stackSize < sp c
          then Some (True, exit (Some ErrStackOverflow) c) else Some (False, c\<lparr>ip := ip c + 1\<rparr>)))
        (\<lambda>(broke, c'). frame Inv R c c' \<and> (\<not> broke \<longrightarrow> head c' \<and> (stop c' \<or> unat (gas c') < unat (gas c))))"
      if c1: "Good c c1" "hd_stack h \<le> sp c1" "hd_gas h \<noteq> 0 \<longrightarrow> unat (gas c1) < unat (gas c)" for c1
    proof (rule holds_bind, rule holds_mono)
      have "Good c1 c1" using c1(1) by (auto simp: good_def frame_def entry_def R_refl)
      then show "holds (hd_inst h c1) (Post (hd_gas h = 0) c1)"
        using dispatch_ok [OF Some] c1(2) by (simp add: instr_ok_def)
      fix c2 assume post: "Post (hd_gas h = 0) c1 c2"
      have fr: "frame Inv R c c2"
        using post c1(1) by (auto simp: post_def frame_def good_def intro: R_trans order_trans)
      have "stop c2 \<or> unat (gas c2) < unat (gas c)"
        using post c1 GoodD(10) [OF c1(1)]
        by (auto simp: post_def frame_def word_le_nat_alt word_less_nat_alt)
      moreover have "head (c2\<lparr>ip := ip c2 + 1\<rparr>)" if "\<not> stackSize < sp c2"
        using post that fr good by (auto simp: head_def post_def frame_def entry_def good_def)
      ultimately show "holds (if stackSize < sp c2 then Some (True, exit (Some ErrStackOverflow) c2)
          else Some (False, c2\<lparr>ip := ip c2 + 1\<rparr>))
        (\<lambda>(broke, c'). frame Inv R c c' \<and> (\<not> broke \<longrightarrow> head c' \<and> (stop c' \<or> unat (gas c') < unat (gas c))))"
        using fr by (auto simp: holds_def frame_def exit_def)
    qed
    show ?thesis
      unfolding Run_step_def op Let_def
      apply (rule holds_bind_Some, rule holds_case_prod)
      unfolding not_True_eq_False if_False Some option.case
      apply (rule holds_if)
      subgoal using good by (auto simp: holds_def good_def frame_def exit_def)
      apply (rule holds_consumeGas [OF good])
      subgoal by (rule step) auto
      subgoal by (auto simp: holds_def good_def frame_def exit_def)
      done
  qed
qed

lemma Run_loop_ok:
  assumes "head c"
  shows "holds (Run_loop K H c) (\<lambda>c'. frame Inv R c c')"
  using assms
proof (induction "unat (gas c)" arbitrary: c rule: less_induct)
  case less
  show ?case
  proof (cases "stop c")
    case True
    then show ?thesis
      using less.prems by (subst Run_loop.simps) (auto simp: holds_def frame_def head_def R_refl)
  next
    case False
    obtain broke c1 where step: "Run_step K H c = Some (broke, c1)" and fr: "frame Inv R c c1"
      and nxt: "\<not> broke \<Longrightarrow> head c1 \<and> (stop c1 \<or> unat (gas c1) < unat (gas c))"
      using holds_SomeD [OF Run_step_ok [OF less.prems, of K]] by auto
    have unfold: "Run_loop K H c = (if broke then Some c1 else Run_loop K H c1)"
      using False step by (subst Run_loop.simps) simp
    consider "broke" | "\<not> broke" "stop c1" | "\<not> broke" "unat (gas c1) < unat (gas c)" "head c1"
      using nxt by blast
    then show ?thesis
    proof cases
      case 1
      then show ?thesis using fr unfold by (simp add: holds_def)
    next
      case 2
      then show ?thesis using fr unfold by (subst (asm) Run_loop.simps) (simp add: holds_def)
    next
      case 3
      from less.hyps [OF 3(2,3)] show ?thesis
        using fr unfold 3(1)
        by (auto elim!: holds_mono simp: frame_def intro: R_trans order_trans)
    qed
  qed
qed

theorem EVM_Run_ok:
  assumes "Inv h" "EIP150 f" "c_Depth k = d" "st \<longrightarrow> c_Static k"
    and "\<forall>v. c_Value k = Some v \<longrightarrow> in_range v"
  shows "\<exists>r h'. EVM_Run K H h k f = Some (r, h') \<and> GasLeft r \<le> c_Gas k \<and> Inv h' \<and> R h h'"
proof -
  obtain bm where bm: "setCode [] (c_Code k) = Some bm" "length bm = length (c_Code k) div 8 + 1"
    by (rule setCode_marks [of "c_Code k"]) auto
  have "head (acquireState h k f bm)"
    using assms bm(2) by (simp add: head_def entry_def acquireState_def)
  from holds_SomeD [OF Run_loop_ok [OF this, of K]] obtain c
    where c: "Run_loop K H (acquireState h k f bm) = Some c" "frame Inv R (acquireState h k f bm) c"
    by auto
  then show ?thesis
    by (auto simp: EVM_Run_def bm(1) Let_def frame_def acquireState_def split: option.split)
qed

end

end
