(* ===== verification/TxnSupply.thy ===== *)
theory TxnSupply
  imports AllowList "HOL-Library.Sublist"
begin

text \<open>
  Balances under the operations of the transient state. The total supply is the sum of the balances
  over all addresses; every operation of \<^verbatim>\<open>Txn\<close> says what it does to each balance, and so to the
  supply. \<open>keeps\<close> is the relation that the executor maintains across a frame: the committed state is
  the same, snapshots are only appended, and no money appears.
\<close>

definition totalSupply :: "Crypto \<Rightarrow> 'c Txn \<Rightarrow> int" where
  "totalSupply K s = (\<Sum>a \<in> UNIV. GetBalance K s a)"

definition keeps :: "Crypto \<Rightarrow> 'c Txn \<Rightarrow> 'c Txn \<Rightarrow> bool" where
  "keeps K s s' \<longleftrightarrow> snapshot s' = snapshot s \<and> prefix (snapshots s) (snapshots s')
    \<and> totalSupply K s' \<le> totalSupply K s"

named_theorems txn_simps "balances and bookkeeping after an operation"

lemma keeps_refl: "keeps K s s"
  by (simp add: keeps_def)

lemma keeps_trans: "keeps K s1 s2 \<Longrightarrow> keeps K s2 s3 \<Longrightarrow> keeps K s1 s3"
  by (auto simp: keeps_def intro: prefix_order.trans)

subsection \<open>Single balances\<close>

lemma GetBalance_nonneg: "0 \<le> GetBalance K s a"
  by (simp add: GetBalance_def getStateObject_def StateObject_Copy_def Account_Copy_def
      split: option.split)

lemma getStateObject_props:
  "getStateObject K s a = Some obj \<Longrightarrow> \<not> so_Deleted obj \<and> acc_Balance (so_Account obj) = GetBalance K s a"
  by (auto simp: GetBalance_def getStateObject_def StateObject_Copy_def Account_Copy_def
      newStateObject_def split: option.splits if_splits)

lemma GetBalance_Insert:
  "GetBalance K (Insert a obj s) b =
    (if b = a then (if so_Deleted obj then 0 else \<bar>acc_Balance (so_Account obj)\<bar>) else GetBalance K s b)"
  by (auto simp: GetBalance_def getStateObject_def Insert_def StateObject_Copy_def Account_Copy_def
      split: option.split)

lemma Insert_frame [simp]:
  "snapshot (Insert a obj s) = snapshot s" "snapshots (Insert a obj s) = snapshots s"
  by (simp_all add: Insert_def)

lemma upsertAccount_frame [simp]:
  "snapshot (upsertAccount K a c f s) = snapshot s" "snapshots (upsertAccount K a c f s) = snapshots s"
  by (simp_all add: upsertAccount_def split: option.split)

text \<open>An update of a state object that moves the balance from \<open>b\<close> to \<open>g b\<close>.\<close>

definition moves :: "(int \<Rightarrow> int) \<Rightarrow> (StateObject \<Rightarrow> StateObject) \<Rightarrow> bool" where
  "moves g f \<longleftrightarrow> (\<forall>obj. acc_Balance (so_Account (f obj)) = g (acc_Balance (so_Account obj))
    \<and> so_Deleted (f obj) = so_Deleted obj)"

lemma GetBalance_upsert:
  assumes "moves g f" "0 \<le> g (GetBalance K s a)"
  shows "GetBalance K (upsertAccount K a True f s) b = (if b = a then g (GetBalance K s a) else GetBalance K s b)"
proof (cases "getStateObject K s a")
  case None
  then have "GetBalance K s a = 0" by (simp add: GetBalance_def)
  with None assms show ?thesis
    by (auto simp: upsertAccount_def GetBalance_Insert moves_def newStateObject_def)
next
  case (Some obj)
  with assms getStateObject_props [OF Some] show ?thesis
    by (auto simp: upsertAccount_def GetBalance_Insert moves_def)
qed

lemma moves_id: "moves (\<lambda>b. b) f \<Longrightarrow> GetBalance K (upsertAccount K a True f s) = GetBalance K s"
  by (rule ext) (simp add: GetBalance_upsert GetBalance_nonneg)

lemma moves_upd_Balance [simp]: "moves g (upd_Balance g)"
  by (simp add: moves_def upd_Balance_def)

subsection \<open>The operations\<close>

lemma GetBalance_AddBalance:
  "0 \<le> v \<Longrightarrow> GetBalance K (AddBalance K a v s) b = GetBalance K s b + (if b = a then v else 0)"
  by (simp add: AddBalance_def GetBalance_upsert [OF moves_upd_Balance] GetBalance_nonneg)

lemma GetBalance_SubBalance:
  assumes "SubBalance K a v s = Inr s'"
  shows "GetBalance K s' b = GetBalance K s b - (if b = a then v else 0)"
  using assms by (auto simp: SubBalance_def GetBalance_upsert [OF moves_upd_Balance] split: if_splits)

lemma balances_kept [txn_simps]:
  "GetBalance K (SetState K a key val s) = GetBalance K s"
  "GetBalance K (IncrNonce K a s) = GetBalance K s"
  "GetBalance K (SetNonce K a n s) = GetBalance K s"
  "GetBalance K (SetCode K a cd s) = GetBalance K s"
  "GetBalance K (TouchAccount K a s) = GetBalance K s"
  by (simp_all add: SetState_def IncrNonce_def SetNonce_def SetCode_def TouchAccount_def moves_id
      moves_def upd_Nonce_def Let_def split: option.split)

lemma GetBalance_txn_cong:
  "rx_objects (txn s') = rx_objects (txn s) \<Longrightarrow> snapshot s' = snapshot s \<Longrightarrow> GetBalance K s' = GetBalance K s"
  by (rule ext) (simp add: GetBalance_def getStateObject_def split: option.split)

lemma balances_kept_cong [txn_simps]:
  "GetBalance K (AddRefund g s) = GetBalance K s"
  "GetBalance K (SubRefund g s) = GetBalance K s"
  "GetBalance K (EmitLog a ts bs s) = GetBalance K s"
  "GetBalance K (s\<lparr>codeCache := cc\<rparr>) = GetBalance K s"
  "GetBalance K (s\<lparr>snapshots := ss\<rparr>) = GetBalance K s"
  by (auto intro!: GetBalance_txn_cong simp: AddRefund_def SubRefund_def EmitLog_def Let_def)

lemma frames_kept [txn_simps]:
  "snapshot (SetState K a key val s) = snapshot s" "snapshots (SetState K a key val s) = snapshots s"
  "snapshot (IncrNonce K a s) = snapshot s" "snapshots (IncrNonce K a s) = snapshots s"
  "snapshot (SetNonce K a n s) = snapshot s" "snapshots (SetNonce K a n s) = snapshots s"
  "snapshot (SetCode K a cd s) = snapshot s" "snapshots (SetCode K a cd s) = snapshots s"
  "snapshot (TouchAccount K a s) = snapshot s" "snapshots (TouchAccount K a s) = snapshots s"
  "snapshot (AddRefund g s) = snapshot s" "snapshots (AddRefund g s) = snapshots s"
  "snapshot (SubRefund g s) = snapshot s" "snapshots (SubRefund g s) = snapshots s"
  "snapshot (EmitLog a ts bs s) = snapshot s" "snapshots (EmitLog a ts bs s) = snapshots s"
  "snapshot (AddBalance K a v s) = snapshot s" "snapshots (AddBalance K a v s) = snapshots s"
  "snapshot (CreateAccount K a s) = snapshot s" "snapshots (CreateAccount K a s) = snapshots s"
  by (simp_all add: SetState_def IncrNonce_def SetNonce_def SetCode_def TouchAccount_def
      AddRefund_def SubRefund_def EmitLog_def AddBalance_def CreateAccount_def Let_def)

lemma GetBalance_CreateAccount [txn_simps]: "GetBalance K (CreateAccount K a s) = GetBalance K s"
proof
  fix b show "GetBalance K (CreateAccount K a s) b = GetBalance K s b"
  proof (cases "getStateObject K s a")
    case None
    then have "GetBalance K s a = 0" by (simp add: GetBalance_def)
    with None show ?thesis
      by (auto simp: CreateAccount_def GetBalance_Insert newStateObject_def)
  next
    case (Some obj)
    with getStateObject_props [OF Some] GetBalance_nonneg [of K s a] show ?thesis
      by (auto simp: CreateAccount_def GetBalance_Insert upd_Balance_def newStateObject_def)
  qed
qed

lemma GetBalance_Suicide:
  "GetBalance K (snd (Suicide K a s)) b = (if b = a then 0 else GetBalance K s b)"
proof (cases "getStateObject K s a")
  case None
  then have "GetBalance K s a = 0" by (simp add: GetBalance_def)
  with None show ?thesis by (simp add: Suicide_def)
qed (auto simp: Suicide_def upsertAccount_def GetBalance_Insert upd_Balance_def)

lemma Suicide_frame [txn_simps]:
  "snapshot (snd (Suicide K a s)) = snapshot s" "snapshots (snd (Suicide K a s)) = snapshots s"
  by (simp_all add: Suicide_def split: option.split)

subsection \<open>The supply\<close>

lemma supply_cong: "GetBalance K s' = GetBalance K s \<Longrightarrow> totalSupply K s' = totalSupply K s"
  by (simp add: totalSupply_def)

lemma supply_delta:
  assumes "\<And>b. GetBalance K s' b = GetBalance K s b + (if b = a then v else 0)"
  shows "totalSupply K s' = totalSupply K s + v"
  by (simp add: totalSupply_def assms sum.distrib)

lemma supply_AddBalance: "0 \<le> v \<Longrightarrow> totalSupply K (AddBalance K a v s) = totalSupply K s + v"
  by (rule supply_delta) (simp add: GetBalance_AddBalance)

lemma supply_SubBalance: "SubBalance K a v s = Inr s' \<Longrightarrow> totalSupply K s' = totalSupply K s - v"
  using supply_delta [of K s' s a "- v"] by (simp add: GetBalance_SubBalance)

lemma supply_Suicide: "totalSupply K (snd (Suicide K a s)) = totalSupply K s - GetBalance K s a"
  using supply_delta [of K "snd (Suicide K a s)" s a "- GetBalance K s a"]
  by (simp add: GetBalance_Suicide)

lemma balance_le_supply: "GetBalance K s a \<le> totalSupply K s"
  unfolding totalSupply_def by (rule member_le_sum) (simp_all add: GetBalance_nonneg)

lemma SubBalance_frame:
  "SubBalance K a v s = Inr s' \<Longrightarrow> snapshot s' = snapshot s \<and> snapshots s' = snapshots s"
  by (auto simp: SubBalance_def split: if_splits)

lemma Transfer_keeps:
  assumes "Transfer K from to amount s = (e, s')" "\<And>v. amount = Some v \<Longrightarrow> 0 \<le> v"
  shows "totalSupply K s' = totalSupply K s" "snapshot s' = snapshot s" "snapshots s' = snapshots s"
  using assms
  by (auto simp: Transfer_def supply_AddBalance supply_SubBalance txn_simps
      dest: SubBalance_frame split: option.splits sum.splits)

lemma SetStorage_keeps:
  assumes "SetStorage K a key val cfg s = (st, s')"
  shows "GetBalance K s' = GetBalance K s" "snapshot s' = snapshot s" "snapshots s' = snapshots s"
  using assms by (auto simp: SetStorage_def Let_def txn_simps split: if_splits)

lemma GetCode_keeps:
  assumes "GetCode K L s a = (cd, s')"
  shows "GetBalance K s' = GetBalance K s" "snapshot s' = snapshot s" "snapshots s' = snapshots s"
    "txn s' = txn s"
  using assms by (auto simp: GetCode_def Let_def txn_simps split: option.splits if_splits prod.splits)

lemma AllowList_Run_keeps:
  assumes "AllowList_Run K A a c s = (r, s')"
  shows "GetBalance K s' = GetBalance K s" "snapshot s' = snapshot s" "snapshots s' = snapshots s"
    "GasLeft r \<le> c_Gas c"
  using assms
  by (auto simp: AllowList_Run_def runInputCall_def Let_def txn_simps SetRole_def
      readAllowListCost_def writeAllowListCost_def word_le_nat_alt word_less_nat_alt unat_sub
      split: option.splits if_splits prod.splits)

lemma Precompiled_Run_keeps:
  assumes "Precompiled_Run K A P c cfg s = (r, s')"
  shows "totalSupply K s' = totalSupply K s" "snapshot s' = snapshot s" "snapshots s' = snapshots s"
    "GasLeft r \<le> c_Gas c"
  using assms
  by (auto simp: Precompiled_Run_def nativeTransfer_run_def Let_def word_le_nat_alt word_less_nat_alt
      unat_sub dest: Transfer_keeps split: option.splits if_splits prod.splits)

end
