(* ===== verification/ExecutorSafety.thy ===== *)
theory ExecutorSafety
  imports Executor EvmSafetyRun TxnSupply
begin

text \<open>
  The executor keeps the contract \<open>evm_host\<close> that the interpreter relies on, at every depth of the call
  stack: a nested frame returns, leaves no more gas than it was given, and creates no money. A whole
  transaction therefore returns, and the total supply does not grow.
\<close>

subsection \<open>The invariant and the relation of the host\<close>

definition ctx_ok :: "TxContext \<Rightarrow> bool" where
  "ctx_ok ctx \<longleftrightarrow> in_range (Timestamp ctx) \<and> in_range (Number ctx) \<and> in_range (GasLimit ctx)"

definition Tinv :: "Crypto \<Rightarrow> 'c Transition \<Rightarrow> bool" where
  "Tinv K t \<longleftrightarrow> totalSupply K (t_state t) < 2 ^ 256 \<and> ctx_ok (t_ctx t) \<and> EIP150 (t_config t)"

definition Tkeeps :: "Crypto \<Rightarrow> 'c Transition \<Rightarrow> 'c Transition \<Rightarrow> bool" where
  "Tkeeps K t t' \<longleftrightarrow> (\<exists>s. t' = t\<lparr>t_state := s\<rparr> \<and> keeps K (t_state t) s)"

lemma Tkeeps_state: "keeps K (t_state t) s \<Longrightarrow> Tkeeps K t (t\<lparr>t_state := s\<rparr>)"
  by (auto simp: Tkeeps_def)

lemma Tkeeps_refl: "Tkeeps K t t"
  using Tkeeps_state [OF keeps_refl, of K t] by simp

lemma Tkeeps_trans: "Tkeeps K t1 t2 \<Longrightarrow> Tkeeps K t2 t3 \<Longrightarrow> Tkeeps K t1 t3"
  by (fastforce simp: Tkeeps_def intro: keeps_trans)

lemma Tinv_Tkeeps: "Tinv K t \<Longrightarrow> Tkeeps K t t' \<Longrightarrow> Tinv K t'"
  by (auto simp: Tinv_def Tkeeps_def keeps_def)

lemma balance_in_range: "Tinv K t \<Longrightarrow> in_range (GetBalance K (t_state t) a)"
  using balance_le_supply [of K "t_state t" a] GetBalance_nonneg [of K "t_state t" a]
  by (simp add: Tinv_def in_range_def)

lemma keeps_balances:
  "GetBalance K s' = GetBalance K s \<Longrightarrow> snapshot s' = snapshot s \<Longrightarrow> snapshots s' = snapshots s
    \<Longrightarrow> keeps K s s'"
  using supply_cong [of K s' s] by (simp add: keeps_def)

lemma Selfdestruct_keeps: "Tkeeps K t (Selfdestruct E t a b)" if "K = env_K E"
proof -
  define s where "s = (if HasSuicided K (t_state t) a then t_state t else AddRefund 24000 (t_state t))"
  define s1 where "s1 = AddBalance K b (GetBalance K s a) s"
  have s: "GetBalance K s = GetBalance K (t_state t)" "snapshot s = snapshot (t_state t)"
    "snapshots s = snapshots (t_state t)"
    by (simp_all add: s_def txn_simps)
  have "totalSupply K (snd (Suicide K a s1)) = totalSupply K s + GetBalance K s a - GetBalance K s1 a"
    by (simp add: supply_Suicide s1_def supply_AddBalance GetBalance_nonneg)
  also have "\<dots> \<le> totalSupply K s"
    by (simp add: s1_def GetBalance_AddBalance GetBalance_nonneg)
  finally have "keeps K (t_state t) (snd (Suicide K a s1))"
    using s supply_cong [OF s(1)] by (simp add: keeps_def txn_simps s1_def)
  then show ?thesis
    unfolding Selfdestruct_def that [symmetric] Let_def s_def [symmetric] s1_def [symmetric]
    by (simp add: Tkeeps_state split_def)
qed

text \<open>Going back to the snapshot that the frame took itself. \<open>s0\<close> is the state in which it was taken,
  and \<open>t2\<close> what the frame made of it.\<close>

lemma revertTo_ok:
  assumes "Tkeeps K (t\<lparr>t_state := s1\<rparr>) t2" "prefix (snapshots s0 @ [txn s0]) (snapshots s1)"
    and "snapshot s1 = snapshot s0"
  shows "\<exists>t3. revertTo (length (snapshots s0)) t2 = Some t3 \<and> Tkeeps K (t\<lparr>t_state := s0\<rparr>) t3"
proof -
  obtain s2 where t2: "t2 = t\<lparr>t_state := s2\<rparr>" and s2: "keeps K s1 s2"
    using assms(1) by (auto simp: Tkeeps_def)
  have pre: "prefix (snapshots s0 @ [txn s0]) (snapshots s2)"
    using assms(2) s2 by (auto simp: keeps_def intro: prefix_order.trans)
  then have i: "length (snapshots s0) < length (snapshots s2)"
    "snapshots s2 ! length (snapshots s0) = txn s0"
    by (auto simp: prefix_def nth_append)
  let ?s3 = "s2\<lparr>txn := txn s0\<rparr>"
  have "GetBalance K ?s3 = GetBalance K s0"
    using s2 assms(3) by (intro GetBalance_txn_cong) (auto simp: keeps_def)
  then have "keeps K s0 ?s3"
    using s2 assms(3) pre supply_cong [of K ?s3 s0] by (auto simp: keeps_def dest: append_prefixD)
  then have "Tkeeps K (t\<lparr>t_state := s0\<rparr>) (t\<lparr>t_state := ?s3\<rparr>)"
    using Tkeeps_state [of K "t\<lparr>t_state := s0\<rparr>"] by simp
  then show ?thesis
    using i by (simp add: revertTo_def RevertToSnapshot_def t2)
qed

subsection \<open>Frames\<close>

text \<open>What the executor promises of a frame \<open>c\<close> run from the state \<open>t\<close>.\<close>

definition frame_ok ::
  "Crypto \<Rightarrow> Contract \<Rightarrow> 'c Transition \<Rightarrow> (ExecutionResult \<times> 'c Transition) option \<Rightarrow> bool" where
  "frame_ok K c t m \<longleftrightarrow> holds m (\<lambda>(r, t'). GasLeft r \<le> c_Gas c \<and> Tkeeps K t t')"

lemma frame_ok_Some: "frame_ok K c t (Some (r, t')) \<longleftrightarrow> GasLeft r \<le> c_Gas c \<and> Tkeeps K t t'"
  by (simp add: frame_ok_def holds_def)

lemma frame_okD: "frame_ok K c t m \<Longrightarrow> \<exists>r t'. m = Some (r, t') \<and> GasLeft r \<le> c_Gas c \<and> Tkeeps K t t'"
  by (auto simp: frame_ok_def dest: holds_SomeD)

lemma run_ok:
  assumes "evm_host H (Tinv (env_K E)) (Tkeeps (env_K E)) False (c_Depth c)" "Tinv (env_K E) t"
    and "\<forall>v. c_Value c = Some v \<longrightarrow> in_range v"
  shows "frame_ok (env_K E) c t (run E H c t)"
proof -
  let ?K = "env_K E"
  have allow: "frame_ok ?K c t (let (r, s) = AllowList_Run ?K (env_A E) a c (t_state t)
      in Some (r, t\<lparr>t_state := s\<rparr>))" for a
    by (auto simp: frame_ok_Some split: prod.split intro!: Tkeeps_state keeps_balances
        dest: AllowList_Run_keeps)
  have pre: "frame_ok ?K c t (let (r, s) = Precompiled_Run ?K (env_A E) (env_P E) c (t_config t) (t_state t)
      in Some (r, t\<lparr>t_state := s\<rparr>))"
    by (auto simp: frame_ok_Some keeps_def Precompiled_Run_keeps split: prod.split intro!: Tkeeps_state)
  have evm: "frame_ok ?K c t (EVM_Run ?K H t c (t_config t))"
    using evm_host.EVM_Run_ok [OF assms(1,2) _ refl, of "t_config t" ?K] assms(2,3)
    by (auto simp: frame_ok_Some Tinv_def)
  show ?thesis
    unfolding run_def Let_def
    using allow pre evm by (auto simp: frame_ok_Some Tkeeps_refl Let_def split: option.split)
qed


lemma Transfer_value:
  "Transfer K from to amount s = (None, s') \<Longrightarrow> amount = Some v \<Longrightarrow> v \<le> max 0 (GetBalance K s from)"
  by (auto simp: Transfer_def SubBalance_def split: if_splits sum.splits)

lemma Transfer_in_range:
  assumes "Transfer K from to amount s = (None, s')" "totalSupply K s < 2 ^ 256"
    and "\<forall>v. amount = Some v \<longrightarrow> 0 \<le> v"
  shows "\<forall>v. amount = Some v \<longrightarrow> in_range v"
  using Transfer_value [OF assms(1)] assms(2,3) balance_le_supply [of K s "from"]
  by (fastforce simp: in_range_def)

lemma frame_ok_trans: "Tkeeps K t t1 \<Longrightarrow> frame_ok K c t1 m \<Longrightarrow> frame_ok K c t m"
  by (auto simp: frame_ok_def holds_def intro: Tkeeps_trans split: option.splits)

lemma revert_ok:
  assumes "Tkeeps K (t\<lparr>t_state := s1\<rparr>) t2" "prefix (snapshots s0 @ [txn s0]) (snapshots s1)"
    and "snapshot s1 = snapshot s0" "GasLeft r \<le> c_Gas c"
  shows "frame_ok K c (t\<lparr>t_state := s0\<rparr>) (do { t3 \<leftarrow> revertTo (length (snapshots s0)) t2; Some (r, t3) })"
  using revertTo_ok [OF assms(1-3)] assms(4) by (auto simp: frame_ok_Some)

lemma applyCall_ok:
  assumes host: "c_Depth c \<le> 1025 \<Longrightarrow> evm_host H (Tinv (env_K E)) (Tkeeps (env_K E)) False (c_Depth c)"
    and inv: "Tinv (env_K E) t" and val: "\<forall>v. c_Value c = Some v \<longrightarrow> 0 \<le> v"
    and other: "ct \<noteq> Call \<Longrightarrow> \<forall>v. c_Value c = Some v \<longrightarrow> in_range v"
  shows "frame_ok (env_K E) c t (applyCall E H c ct t)"
proof (cases "1025 < c_Depth c")
  case True
  then show ?thesis by (simp add: applyCall_def frame_ok_Some Tkeeps_refl)
next
  case False
  let ?K = "env_K E" and ?s0 = "t_state t"
  define s1 where "s1 = TouchAccount ?K (c_Address c) (snd (Snapshot ?s0))"
  obtain e s2 where e: "(if ct = Call then Transfer ?K (c_Caller c) (c_Address c) (c_Value c) s1 else (None, s1)) = (e, s2)"
    by (cases "if ct = Call then Transfer ?K (c_Caller c) (c_Address c) (c_Value c) s1 else (None, s1)")
  have s1: "totalSupply ?K s1 = totalSupply ?K ?s0" "snapshot s1 = snapshot ?s0"
    "snapshots s1 = snapshots ?s0 @ [txn ?s0]"
    by (auto simp: s1_def Snapshot_def txn_simps intro: supply_cong)
  have s2: "totalSupply ?K s2 = totalSupply ?K s1" "snapshot s2 = snapshot s1" "snapshots s2 = snapshots s1"
    using e val by (auto simp: Transfer_keeps split: if_splits)
  have keep: "Tkeeps ?K t (t\<lparr>t_state := s2\<rparr>)"
    by (rule Tkeeps_state) (simp add: keeps_def s1 s2)
  have range: "\<forall>v. c_Value c = Some v \<longrightarrow> in_range v" if "e = None"
    using e that val other Transfer_in_range [of ?K _ _ _ s1 s2] inv
    by (cases "ct = Call") (auto simp: Tinv_def s1)
  have run: "frame_ok ?K c (t\<lparr>t_state := s2\<rparr>) (run E H c (t\<lparr>t_state := s2\<rparr>))" if "e = None"
    using False by (intro run_ok host Tinv_Tkeeps [OF inv keep] range that) simp
  have "frame_ok ?K c t (do { (result, t) \<leftarrow> run E H c (t\<lparr>t_state := s2\<rparr>);
      (if Failed result then do { t \<leftarrow> revertTo (length (snapshots ?s0)) t; Some (result, t) }
       else Some (result, t)) })" if "e = None"
    using frame_okD [OF run [OF that]] revert_ok [where t = t and ?s1.0 = s2 and ?s0.0 = ?s0] Tkeeps_trans [OF keep]
    by (auto simp: frame_ok_Some s1 s2)
  then show ?thesis
    using False e keep
    by (auto simp: applyCall_def Let_def Snapshot_def s1_def frame_ok_Some split: option.split)
qed


lemma storeCode_ok:
  assumes "Tkeeps K (t\<lparr>t_state := s1\<rparr>) t2" "prefix (snapshots s0 @ [txn s0]) (snapshots s1)"
    and "snapshot s1 = snapshot s0" "totalSupply K s1 \<le> totalSupply K s0" "GasLeft r \<le> c_Gas c" "K = env_K E"
  shows "frame_ok K c (t\<lparr>t_state := s0\<rparr>) (storeCode E c (length (snapshots s0)) r t2)"
proof -
  have rev: "frame_ok K c (t\<lparr>t_state := s0\<rparr>)
      (do { t3 \<leftarrow> revertTo (length (snapshots s0)) t2; Some (r', t3) })" if "GasLeft r' \<le> c_Gas c" for r'
    by (rule revert_ok [OF assms(1-3) that])
  have "keeps K s0 s1"
    using assms(2-4) by (auto simp: keeps_def dest: append_prefixD)
  then have keep: "Tkeeps K (t\<lparr>t_state := s0\<rparr>) t2"
    using Tkeeps_state [of K "t\<lparr>t_state := s0\<rparr>" s1] assms(1) by (auto intro: Tkeeps_trans)
  have set: "Tkeeps K t2 (t2\<lparr>t_state := SetCode (env_K E) a cd (t_state t2)\<rparr>)" for a cd
    by (intro Tkeeps_state keeps_balances) (simp_all add: txn_simps assms(6))
  have "GasLeft r - g \<le> c_Gas c" if "g \<le> GasLeft r" for g
    using that assms(5) by (simp add: word_le_nat_alt unat_sub)
  then show ?thesis
    unfolding storeCode_def using rev keep Tkeeps_trans [OF keep set] assms(5)
    by (simp add: frame_ok_Some Let_def)
qed

lemma applyCreate_ok:
  assumes host: "c_Depth c \<le> 1025 \<Longrightarrow> evm_host H (Tinv (env_K E)) (Tkeeps (env_K E)) False (c_Depth c)"
    and inv: "Tinv (env_K E) t" and val: "\<forall>v. c_Value c = Some v \<longrightarrow> 0 \<le> v"
  shows "frame_ok (env_K E) c t (applyCreate E H c t)"
proof (cases "1025 < c_Depth c")
  case True
  then show ?thesis by (simp add: applyCreate_def frame_ok_Some Tkeeps_refl)
next
  case False
  let ?K = "env_K E"
  define s0 where "s0 = IncrNonce ?K (c_Caller c) (t_state t)"
  let ?t0 = "t\<lparr>t_state := s0\<rparr>" and ?sn = "snd (Snapshot s0)"
  define s1 where "s1 = (if EIP158 (t_config t)
    then IncrNonce ?K (c_Address c) (CreateAccount ?K (c_Address c) ?sn) else ?sn)"
  obtain e s2 where e: "Transfer ?K (c_Caller c) (c_Address c) (c_Value c) s1 = (e, s2)"
    by (cases "Transfer ?K (c_Caller c) (c_Address c) (c_Value c) s1")
  have keep0: "Tkeeps ?K t ?t0"
    by (intro Tkeeps_state keeps_balances) (simp_all add: s0_def txn_simps)
  have s1: "totalSupply ?K s1 = totalSupply ?K s0" "snapshot s1 = snapshot s0"
    "snapshots s1 = snapshots s0 @ [txn s0]"
    by (auto simp: s1_def Snapshot_def txn_simps intro: supply_cong)
  note s2 = Transfer_keeps [OF e, rule_format]
  have s2: "totalSupply ?K s2 = totalSupply ?K s1" "snapshot s2 = snapshot s1" "snapshots s2 = snapshots s1"
    using s2 val by auto
  have keep: "Tkeeps ?K ?t0 (t\<lparr>t_state := s2\<rparr>)"
    using Tkeeps_state [of ?K ?t0 s2] by (simp add: keeps_def s1 s2)
  note inv0 = Tinv_Tkeeps [OF inv keep0]
  have run: "frame_ok ?K c (t\<lparr>t_state := s2\<rparr>) (run E H c (t\<lparr>t_state := s2\<rparr>))" if "e = None"
    using False inv0 e that val
    by (intro run_ok host Tinv_Tkeeps [OF inv0 keep] Transfer_in_range [where s = s1 and s' = s2])
      (auto simp: Tinv_def s1)
  have body: "frame_ok ?K c ?t0 (do { (result, t) \<leftarrow> run E H c (t\<lparr>t_state := s2\<rparr>);
      storeCode E c (length (snapshots s0)) result t })" if "e = None"
    using frame_okD [OF run [OF that]] storeCode_ok [where t = t and ?s1.0 = s2 and ?s0.0 = s0 and K = ?K]
    by (auto simp: s1 s2)
  have "frame_ok ?K c ?t0 (applyCreate E H c t)"
    using False e keep body
    by (auto simp: applyCreate_def Let_def Snapshot_def s1_def [unfolded Snapshot_def, simplified]
        s0_def [symmetric] frame_ok_Some Tkeeps_refl split: option.split)
  then show ?thesis by (rule frame_ok_trans [OF keep0])
qed


subsection \<open>The host\<close>

lemma Callx_ok:
  assumes "c_Depth c \<le> 1025 \<Longrightarrow> evm_host H (Tinv (env_K E)) (Tkeeps (env_K E)) False (c_Depth c)"
    and "Tinv (env_K E) t" "\<And>v. c_Value c = Some v \<Longrightarrow> in_range v"
  shows "frame_ok (env_K E) c t (Callx E H t c)"
  using assms by (auto simp: Callx_def in_range_def intro!: applyCreate_ok applyCall_ok)

lemma host_with_ok:
  assumes "\<And>t c. Tinv (env_K E) t \<Longrightarrow> c_Depth c = d + 1 \<Longrightarrow> (\<And>v. c_Value c = Some v \<Longrightarrow> in_range v)
    \<Longrightarrow> frame_ok (env_K E) c t (callx t c)"
  shows "evm_host (host_with E callx) (Tinv (env_K E)) (Tkeeps (env_K E)) False d"
proof
  let ?K = "env_K E" and ?H = "host_with E callx"
  have step: "Tinv ?K t \<and> Tkeeps ?K t0 t" if "Tinv ?K t0" "Tkeeps ?K t0 t" for t0 t :: "'a Transition"
    using that Tinv_Tkeeps by blast
  have bal: "Tinv ?K (t\<lparr>t_state := s\<rparr>) \<and> Tkeeps ?K t (t\<lparr>t_state := s\<rparr>)"
    if "Tinv ?K t" "GetBalance ?K s = GetBalance ?K (t_state t)" "snapshot s = snapshot (t_state t)"
      "snapshots s = snapshots (t_state t)" for t :: "'a Transition" and s
    using that by (intro step Tkeeps_state keeps_balances)
  show "Tkeeps ?K t t" for t :: "'a Transition" by (rule Tkeeps_refl)
  show "Tkeeps ?K t1 t3" if "Tkeeps ?K t1 t2" "Tkeeps ?K t2 t3" for t1 t2 t3 :: "'a Transition"
    using that by (rule Tkeeps_trans)
  show "in_range (h_GetBalance ?H t a)" if "Tinv ?K t" for t a
    using that by (simp add: host_with_def balance_in_range)
  show "in_range (Timestamp (h_GetTxContext ?H t)) \<and> in_range (Number (h_GetTxContext ?H t))
      \<and> in_range (GasLimit (h_GetTxContext ?H t))" if "Tinv ?K t" for t
    using that by (simp add: host_with_def Tinv_def ctx_ok_def)
  show "Tinv ?K t' \<and> Tkeeps ?K t t'" if "Tinv ?K t" "h_SetStorage ?H t a key val f = (st, t')" for t a key val f st t'
    using that by (auto simp: host_with_def bal SetStorage_keeps split: prod.splits)
  show "Tinv ?K t' \<and> Tkeeps ?K t t'" if "Tinv ?K t" "h_GetCode ?H t a = (cd, t')" for t a cd t'
    using that by (auto simp: host_with_def bal GetCode_keeps split: prod.splits)
  show "Tinv ?K t' \<and> Tkeeps ?K t t'" if "Tinv ?K t" "h_GetCodeSize ?H t a = (n, t')" for t a n t'
    using that by (auto simp: host_with_def GetCodeSize_def bal GetCode_keeps split: prod.splits)
  show "Tinv ?K (h_Selfdestruct ?H t a b) \<and> Tkeeps ?K t (h_Selfdestruct ?H t a b)" if "Tinv ?K t" for t a b
    using step [OF that Selfdestruct_keeps] by (simp add: host_with_def)
  show "Tinv ?K (h_EmitLog ?H t a ts bs) \<and> Tkeeps ?K t (h_EmitLog ?H t a ts bs)" if "Tinv ?K t" for t a ts bs
    using that by (auto simp: host_with_def txn_simps bal)
  show "\<exists>r t'. h_Callx ?H t c = Some (r, t') \<and> GasLeft r \<le> c_Gas c \<and> Tinv ?K t' \<and> Tkeeps ?K t t'"
    if "Tinv ?K t" "c_Depth c = d + 1" "\<And>v. c_Value c = Some v \<Longrightarrow> in_range v" for t c
    using frame_okD [OF assms [OF that]] step [OF that(1)] by (auto simp: host_with_def)
qed

text \<open>The host of a frame at depth \<open>d\<close> needs \<open>1026 - d\<close> levels, the last of which only refuses.\<close>

lemma Transition_host_ok:
  "1025 - int n \<le> d \<Longrightarrow> evm_host (Transition_host E (Suc n)) (Tinv (env_K E)) (Tkeeps (env_K E)) False d"
proof (induction n arbitrary: d)
  case 0
  then show ?case
    unfolding Transition_host.simps(2) by (intro host_with_ok Callx_ok) auto
next
  case (Suc n)
  then show ?case
    unfolding Transition_host.simps(2) [of E "Suc n"]
    by (intro host_with_ok Callx_ok) (auto intro!: Suc.IH simp del: Transition_host.simps)
qed


text \<open>The executor implements the contract of the interpreter at every depth, with the levels that the
  depth needs.\<close>

interpretation transition: evm_host "Transition_host E (Suc n)" "Tinv (env_K E)" "Tkeeps (env_K E)"
  False "1025 - int n" for E n
  by (rule Transition_host_ok) simp

subsection \<open>A transaction\<close>

text \<open>Prices and values are decoded as unsigned numbers.\<close>

definition tx_ok :: "Transaction \<Rightarrow> bool" where
  "tx_ok m \<longleftrightarrow> 0 \<le> tx_GasPrice m \<and> 0 \<le> tx_Value m"

lemma frame_ok_state:
  "frame_ok K c t m \<Longrightarrow> \<exists>r s. m = Some (r, t\<lparr>t_state := s\<rparr>) \<and> GasLeft r \<le> c_Gas c \<and> keeps K (t_state t) s"
  by (drule frame_okD) (auto simp: Tkeeps_def)

lemma host_top: "evm_host (Transition_host E 1025) (Tinv (env_K E)) (Tkeeps (env_K E)) False 1"
  using Transition_host_ok [of 1024 1 E] by (simp only: eval_nat_numeral BitM.simps)

lemma Create2_ok:
  assumes "Tinv (env_K E) t" "0 \<le> v"
  shows "\<exists>r s. Create2 E a cd v g t = Some (r, t\<lparr>t_state := s\<rparr>) \<and> GasLeft r \<le> g
    \<and> keeps (env_K E) (t_state t) s"
proof -
  let ?c = "NewContractCreation 1 a a (CreateAddress (env_K E) a (GetNonce (env_K E) (t_state t) a)) (Some v) g cd"
  from frame_ok_state [OF applyCreate_ok [OF _ assms(1), where c = ?c and H = "Transition_host E 1025"]]
  show ?thesis
    using host_top [of E] assms(2)
    by (simp add: Create2_def Let_def NewContractCreation_def NewContract_def)
qed

lemma Call2_ok:
  assumes "Tinv (env_K E) t" "0 \<le> v"
  shows "\<exists>r s. Call2 E a b inp v g t = Some (r, t\<lparr>t_state := s\<rparr>) \<and> GasLeft r \<le> g
    \<and> keeps (env_K E) (t_state t) s"
proof -
  obtain cd s0 where g: "GetCode (env_K E) (env_L E) (t_state t) b = (cd, s0)" by fastforce
  have k: "keeps (env_K E) (t_state t) s0"
    using GetCode_keeps [OF g] by (intro keeps_balances) auto
  have "Tinv (env_K E) (t\<lparr>t_state := s0\<rparr>)"
    using assms(1) Tkeeps_state [OF k] by (rule Tinv_Tkeeps)
  from frame_ok_state [OF applyCall_ok [OF _ this, where ct = Call
      and c = "NewContractCall 1 a a b (Some v) g cd inp" and H = "Transition_host E 1025"]]
  show ?thesis
    using host_top [of E] assms(2) k
    by (fastforce simp: Call2_def g NewContractCall_def NewContract_def intro: keeps_trans)
qed

lemma execute_message_ok:
  assumes "Tinv (env_K E) t" "tx_ok m"
  shows "\<exists>r ctx s. execute_message E m g t = Some (r, t\<lparr>t_ctx := ctx, t_state := s\<rparr>) \<and> GasLeft r \<le> g
    \<and> keeps (env_K E) (t_state t) s \<and> ctx_ok ctx"
proof -
  let ?ctx = "(t_ctx t)\<lparr>GasPrice := word_of_int \<bar>tx_GasPrice m\<bar>, Origin := tx_From m\<rparr>"
  let ?s = "IncrNonce (env_K E) (tx_From m) (t_state t)"
  have k: "keeps (env_K E) (t_state t) ?s"
    by (rule keeps_balances) (simp_all add: txn_simps)
  have inv: "Tinv (env_K E) (t\<lparr>t_ctx := ?ctx\<rparr>)" "Tinv (env_K E) (t\<lparr>t_ctx := ?ctx, t_state := ?s\<rparr>)"
    using assms(1) k by (auto simp: Tinv_def ctx_ok_def keeps_def)
  have v: "0 \<le> tx_Value m" using assms(2) by (simp add: tx_ok_def)
  show ?thesis
  proof (cases "tx_To m")
    case None
    then show ?thesis
      using Create2_ok [OF inv(1) v, of "tx_From m" "tx_Input m" g] inv(1)
      by (fastforce simp: execute_message_def Tinv_def)
  next
    case (Some to)
    then show ?thesis
      using Call2_ok [OF inv(2) v, of "tx_From m" to "tx_Input m" g] inv(1) keeps_trans [OF k]
      by (fastforce simp: execute_message_def Tinv_def)
  qed
qed


text \<open>A transaction advances the block: the state keeps the supply, and the receipts and the gas total are
  left to \<^verbatim>\<open>Write\<close>.\<close>

definition advances :: "Crypto \<Rightarrow> 'c Transition \<Rightarrow> 'c Transition \<Rightarrow> bool" where
  "advances K t t' \<longleftrightarrow> keeps K (t_state t) (t_state t') \<and> Tinv K t' \<and> t_receipts t' = t_receipts t
    \<and> t_totalGas t' = t_totalGas t"

text \<open>The gas of a settled transaction is split into used and left, and the pool pays for the used.\<close>

definition gas_settled :: "Transaction \<Rightarrow> 'c Transition \<Rightarrow> applicationError + ExecutionResult \<Rightarrow> 'c Transition \<Rightarrow> bool"
  where
  "gas_settled m t r t' \<longleftrightarrow> (case r of Inl _ \<Rightarrow> True
     | Inr res \<Rightarrow> unat (GasUsed res) + unat (GasLeft res) = unat (tx_Gas m)
         \<and> unat (t_gasPool t') + unat (GasUsed res) = unat (t_gasPool t))"

lemma checks_charge:
  assumes "(if tx_Type m = StateTx then checkAndProcessStateTx m t else checkAndProcessLegacyTx E m t) = Inr t1"
  shows "\<exists>s. t1 = t\<lparr>t_state := s\<rparr> \<and> snapshot s = snapshot (t_state t) \<and> snapshots s = snapshots (t_state t)
    \<and> totalSupply (env_K E) s = totalSupply (env_K E) (t_state t) - tx_GasPrice m * uint (tx_Gas m)"
proof (cases "tx_Type m = StateTx")
  case True
  with assms show ?thesis
    by (intro exI [of _ "t_state t"]) (auto simp: checkAndProcessStateTx_def split: if_splits)
next
  case False
  with assms show ?thesis
    by (auto simp: checkAndProcessLegacyTx_def subGasLimitPrice_def supply_SubBalance
        dest: SubBalance_frame split: option.splits sum.splits)
qed

lemma settle_ok:
  assumes "GasLeft r \<le> tx_Gas m" "tx_ok m" "settle E m r t = (res, t')"
  shows "\<exists>s. t' = (addGasPool (GasLeft res) t)\<lparr>t_state := s\<rparr> \<and> snapshot s = snapshot (t_state t)
      \<and> snapshots s = snapshots (t_state t)
      \<and> totalSupply (env_K E) s = totalSupply (env_K E) (t_state t) + tx_GasPrice m * uint (tx_Gas m)"
    and "unat (GasUsed res) + unat (GasLeft res) = unat (tx_Gas m)"
proof -
  have "res = UpdateGasUsed r (tx_Gas m) (GetRefund (t_state t))"
    using assms(3) by (simp add: settle_def Let_def)
  with UpdateGasUsed_conserves [OF assms(1)]
  show sum: "unat (GasUsed res) + unat (GasLeft res) = unat (tx_Gas m)" by (metis add.commute)
  have "uint (GasUsed res) + uint (GasLeft res) = uint (tx_Gas m)"
    using sum by (metis of_nat_add of_nat_unat)
  then have price: "uint (GasLeft res) * tx_GasPrice m + uint (GasUsed res) * tx_GasPrice m
      = tx_GasPrice m * uint (tx_Gas m)"
    by (metis add.commute distrib_right mult.commute)
  define s1 where "s1 = AddBalance (env_K E) (tx_From m) (uint (GasLeft res) * tx_GasPrice m) (t_state t)"
  define s2 where "s2 = AddBalance (env_K E) (Coinbase (t_ctx t)) (uint (GasUsed res) * tx_GasPrice m) s1"
  have t': "t' = (addGasPool (GasLeft res) t)\<lparr>t_state := s2\<rparr>"
    using assms(3) by (auto simp: settle_def Let_def addGasPool_def s1_def s2_def)
  have s2: "totalSupply (env_K E) s2 = totalSupply (env_K E) (t_state t) + tx_GasPrice m * uint (tx_Gas m)"
    using assms(2) price by (simp add: s2_def s1_def supply_AddBalance tx_ok_def)
  show "\<exists>s. t' = (addGasPool (GasLeft res) t)\<lparr>t_state := s\<rparr> \<and> snapshot s = snapshot (t_state t)
      \<and> snapshots s = snapshots (t_state t)
      \<and> totalSupply (env_K E) s = totalSupply (env_K E) (t_state t) + tx_GasPrice m * uint (tx_Gas m)"
    by (rule exI [of _ s2], simp only: t' s2) (simp add: s1_def s2_def txn_simps)
qed


subsection \<open>A concrete chain\<close>

text \<open>An environment, a committed state with one funded account, and a frame, on which the properties
  are instantiated.\<close>

definition demo_env :: "unit Env" where
  "demo_env =
    \<lparr> env_K = \<lparr> Keccak256 = (\<lambda>bs. of_nat (Suc (length bs))),
                rlp_addr_nonce = (\<lambda>a n. be_bytes 20 (uint a) @ be_bytes 8 (uint n)) \<rparr>,
      env_L = \<lparr> lru_Get = (\<lambda>_ _. (None, ())), lru_Add = (\<lambda>_ _ _. ()) \<rparr>,
      env_A = \<lparr> abi_ReadAllowList = [1], abi_SetAdmin = [2], abi_SetEnabled = [3], abi_SetNone = [4],
                abi_bool = (\<lambda>b. [if b then 1 else 0]) \<rparr>,
      env_P = \<lparr> pre_gas = (\<lambda>_ _ _. 3000), pre_run = (\<lambda>_ bs. (bs, None)) \<rparr>,
      env_newCache = (), env_Sender = (\<lambda>_ _ _. None) \<rparr>"

definition demo_snap :: Snap where
  "demo_snap =
    \<lparr> snap_GetStorage = (\<lambda>_ _ _. 0),
      snap_GetAccount = (\<lambda>a. if a = 1 then Some \<lparr> acc_Nonce = 0, acc_Balance = 1000000,
        acc_Root = emptyStateHash, acc_CodeHash = emptyCodeHash (env_K demo_env) \<rparr> else None),
      snap_GetCode = (\<lambda>_. []) \<rparr>"

definition demo_params :: ChainParams where
  "demo_params = \<lparr> cp_Forks = AllForksEnabled, cp_ChainID = 100, cp_ContractDeployerAllowList = False,
     cp_TransactionsAllowList = False \<rparr>"

definition demo_header :: ExecHeader where
  "demo_header = \<lparr> hdr_Number = 1, hdr_Timestamp = 10, hdr_Difficulty = 1, hdr_GasLimit = 5000000 \<rparr>"

definition demo_block :: "unit Transition" where
  "demo_block = BeginTxn demo_env demo_params (\<lambda>_ _. 0) demo_snap demo_header 3"

lemma demo_supply: "totalSupply (env_K demo_env) (newTxn demo_snap ()) = 1000000"
proof -
  have "GetBalance (env_K demo_env) (newTxn demo_snap ()) a = (if a = 1 then 1000000 else 0)" for a
    by (simp add: GetBalance_def getStateObject_def newTxn_def demo_snap_def Account_Copy_def)
  then show ?thesis by (simp add: totalSupply_def)
qed

lemma demo_Tinv: "Tinv (env_K demo_env) demo_block"
  using demo_supply
  by (simp add: Tinv_def demo_block_def BeginTxn_def ctx_ok_def in_range_def demo_params_def
      demo_header_def demo_env_def)

subsection \<open>Running code\<close>

text \<open>C2. Running code never diverges or panics: whatever the bytes of the contract, a frame of the
  virtual machine with the block executor as its host, at any depth of the call stack the executor
  admits, returns a result, with no more gas than it was given and without adding to the sum of all
  balances; nested calls and creations, precompiles, reverts and self-destructs are included. Assumed
  are the EIP-150 gas rules, an unsigned call value and a supply below \<open>2 ^ 256\<close>.\<close>

theorem EVM_Run_total:
  assumes "Tinv (env_K E) t" "c_Depth k = 1025 - int n" "\<forall>v. c_Value k = Some v \<longrightarrow> in_range v"
  shows "\<exists>r t'. EVM_Run (env_K E) (Transition_host E (Suc n)) t k (t_config t) = Some (r, t')
    \<and> GasLeft r \<le> c_Gas k \<and> totalSupply (env_K E) (t_state t') \<le> totalSupply (env_K E) (t_state t)"
proof -
  have "EIP150 (t_config t)" using assms(1) by (simp add: Tinv_def)
  from transition.EVM_Run_ok [OF assms(1) this assms(2) _ assms(3), of "env_K E"]
  show ?thesis by (auto simp: Tkeeps_def keeps_def)
qed

theorem EVM_Run_total_witness:
  "\<exists>r t'. EVM_Run (env_K demo_env) (Transition_host demo_env (Suc 1024)) demo_block
      (NewContract 1 1 1 2 (Some 5) 100000 [0x5b, 0x60, 0x00, 0x56]) (t_config demo_block) = Some (r, t')
    \<and> GasLeft r \<le> 100000"
  using EVM_Run_total [OF demo_Tinv, where n = 1024
      and k = "NewContract 1 1 1 2 (Some 5) 100000 [0x5b, 0x60, 0x00, 0x56]"]
  by (auto simp: NewContract_def in_range_def)

end
