(* ===== verification/BlockSafety.thy ===== *)
theory BlockSafety
  imports ExecutorSafety
begin

text \<open>
  Transactions and blocks of \<^verbatim>\<open>state/executor.go\<close> as a whole: every transaction returns, settles its gas
  exactly and creates no money, and the receipts of a block account for the gas that the block used.
\<close>

subsection \<open>Applying a transaction\<close>

lemma advances_rejected:
  "Tinv K t \<Longrightarrow> keeps K (t_state t) s \<Longrightarrow> advances K t (t\<lparr>t_state := s, t_gasPool := g\<rparr>)"
  by (auto simp: advances_def Tinv_def keeps_def)

lemma message_ok:
  assumes inv: "Tinv (env_K E) t" and m: "tx_ok m" and g: "g \<le> tx_Gas m" and p: "tx_Gas m \<le> t_gasPool t"
    and s: "snapshot s = snapshot (t_state t)" "snapshots s = snapshots (t_state t)"
      "totalSupply (env_K E) s = totalSupply (env_K E) (t_state t) - tx_GasPrice m * uint (tx_Gas m)"
  shows "\<exists>r t'. (do { (result, t) \<leftarrow> execute_message E m g (t\<lparr>t_state := s, t_gasPool := t_gasPool t - tx_Gas m\<rparr>);
      (let (result, t) = settle E m result t in Some (Inr result, t)) }) = Some (r, t')
    \<and> advances (env_K E) t t' \<and> gas_settled m t r t'"
proof -
  let ?t1 = "t\<lparr>t_state := s, t_gasPool := t_gasPool t - tx_Gas m\<rparr>"
  have pos: "0 \<le> tx_GasPrice m * uint (tx_Gas m)" using m by (simp add: tx_ok_def)
  then have "Tinv (env_K E) ?t1" using inv s(3) by (simp add: Tinv_def)
  from execute_message_ok [OF this m, of g] obtain r ctx s1 where
    r: "execute_message E m g ?t1 = Some (r, ?t1\<lparr>t_ctx := ctx, t_state := s1\<rparr>)" "GasLeft r \<le> g"
      "keeps (env_K E) s s1" "ctx_ok ctx" by auto
  let ?t2 = "?t1\<lparr>t_ctx := ctx, t_state := s1\<rparr>"
  obtain res t3 where st: "settle E m r ?t2 = (res, t3)" by fastforce
  from settle_ok [OF order.trans [OF r(2) g] m st] obtain s3
    where t3: "t3 = (addGasPool (GasLeft res) ?t2)\<lparr>t_state := s3\<rparr>" "snapshot s3 = snapshot s1"
      "snapshots s3 = snapshots s1"
      "totalSupply (env_K E) s3 = totalSupply (env_K E) s1 + tx_GasPrice m * uint (tx_Gas m)"
    and sum: "unat (GasUsed res) + unat (GasLeft res) = unat (tx_Gas m)" by auto
  have keep: "keeps (env_K E) (t_state t) s3"
    using r(3) s t3 by (auto simp: keeps_def)
  have "unat (t_gasPool t - tx_Gas m) = unat (t_gasPool t) - unat (tx_Gas m)"
    using p by (simp add: unat_sub)
  then have pool: "unat (t_gasPool t - tx_Gas m + GasLeft res) + unat (GasUsed res) = unat (t_gasPool t)"
    using unat_add_below [of "t_gasPool t - tx_Gas m" "GasLeft res" "t_gasPool t"] p sum
    by (simp add: word_le_nat_alt)
  have "advances (env_K E) t t3"
    using inv keep r(4) by (auto simp: advances_def t3 addGasPool_def Tinv_def keeps_def)
  moreover have "gas_settled m t (Inr res) t3"
    using sum pool by (simp add: gas_settled_def t3 addGasPool_def)
  ultimately show ?thesis using r(1) st by simp
qed

lemma apply_tx_ok:
  assumes inv: "Tinv (env_K E) t" and m: "tx_ok m"
  shows "\<exists>r t'. apply_tx E m t = Some (r, t') \<and> advances (env_K E) t t' \<and> gas_settled m t r t'"
proof -
  let ?chk = "if tx_Type m = StateTx then checkAndProcessStateTx m t else checkAndProcessLegacyTx E m t"
  have stay: "advances (env_K E) t t"
    using inv by (simp add: advances_def keeps_refl)
  show ?thesis
  proof (cases ?chk)
    case (Inl e)
    then show ?thesis
      using stay by (auto simp: apply_tx_def gas_settled_def)
  next
    case (Inr t1)
    from checks_charge [OF Inr] obtain s where s: "t1 = t\<lparr>t_state := s\<rparr>" "snapshot s = snapshot (t_state t)"
      "snapshots s = snapshots (t_state t)"
      "totalSupply (env_K E) s = totalSupply (env_K E) (t_state t) - tx_GasPrice m * uint (tx_Gas m)" by auto
    have keep: "keeps (env_K E) (t_state t) s"
      using s m by (simp add: keeps_def tx_ok_def)
    have adv: "advances (env_K E) t (t\<lparr>t_state := s, t_gasPool := g\<rparr>)" for g
      by (rule advances_rejected [OF inv keep])
    show ?thesis
    proof (cases "t_gasPool t < tx_Gas m")
      case True
      then show ?thesis
        using Inr adv [of "t_gasPool t"] by (auto simp: apply_tx_def subGasPool_def gas_settled_def s(1))
    next
      case False
      then show ?thesis
        using Inr adv message_ok [OF inv m _ _ s(2-4)]
        by (auto simp: apply_tx_def subGasPool_def gas_settled_def s(1) Let_def not_less split: sum.split)
    qed
  qed
qed


text \<open>A rejected transaction leaves the state as it was; the gas it took from the pool is not given back.\<close>

lemma Apply_ok:
  assumes inv: "Tinv (env_K E) t" and m: "tx_ok m"
  shows "\<exists>r t'. Apply E m t = Some (r, t') \<and> advances (env_K E) t t' \<and> gas_settled m t r t'
    \<and> (\<forall>e. r = Inl e \<longrightarrow> txn (t_state t') = txn (t_state t))"
proof -
  let ?s0 = "t_state t"
  let ?t1 = "t\<lparr>t_state := snd (Snapshot ?s0)\<rparr>"
  have inv1: "Tinv (env_K E) ?t1"
    using inv supply_cong [of "env_K E" "snd (Snapshot ?s0)" ?s0] by (simp add: Tinv_def Snapshot_def txn_simps)
  have k1: "keeps (env_K E) ?s0 (snd (Snapshot ?s0))"
    using supply_cong [of "env_K E" "snd (Snapshot ?s0)" ?s0] by (simp add: keeps_def Snapshot_def txn_simps)
  from apply_tx_ok [OF inv1 m] obtain r t2 where
    r: "apply_tx E m ?t1 = Some (r, t2)" "advances (env_K E) ?t1 t2" "gas_settled m ?t1 r t2" by auto
  have adv: "advances (env_K E) t t2"
    using r(2) keeps_trans [OF k1] by (simp add: advances_def)
  show ?thesis
  proof (cases r)
    case (Inl e)
    have pre: "prefix (snapshots ?s0 @ [txn ?s0]) (snapshots (t_state t2))"
      using r(2) by (simp add: advances_def keeps_def Snapshot_def)
    then have i: "length (snapshots ?s0) < length (snapshots (t_state t2))"
      "snapshots (t_state t2) ! length (snapshots ?s0) = txn ?s0"
      by (auto simp: prefix_def nth_append)
    let ?s3 = "(t_state t2)\<lparr>txn := txn ?s0\<rparr>"
    have "GetBalance (env_K E) ?s3 = GetBalance (env_K E) ?s0"
      using adv by (intro GetBalance_txn_cong) (auto simp: advances_def keeps_def)
    then have "advances (env_K E) t (t2\<lparr>t_state := ?s3\<rparr>)"
      using adv inv supply_cong [of "env_K E" ?s3 ?s0] by (auto simp: advances_def keeps_def Tinv_def)
    then show ?thesis
      using r(1) i Inl
      by (simp add: Apply_def Snapshot_def revertTo_def RevertToSnapshot_def gas_settled_def)
  next
    case (Inr res)
    then show ?thesis
      using r adv by (simp add: Apply_def Snapshot_def gas_settled_def)
  qed
qed

subsection \<open>Writing a transaction\<close>

text \<open>The accounts of a block after some receipts: \<open>used\<close> is the gas they report, and the pool has paid
  for it.\<close>

definition gas_of :: "Receipt list \<Rightarrow> nat" where
  "gas_of rs = sum_list (map (\<lambda>r. unat (rc_GasUsed r)) rs)"

definition accounts_ok :: "uint64 \<Rightarrow> 'c Transition \<Rightarrow> bool" where
  "accounts_ok limit t \<longleftrightarrow> unat (t_totalGas t) = gas_of (t_receipts t)
    \<and> gas_of (t_receipts t) + unat (t_gasPool t) \<le> unat limit"

lemma CleanDeleteObjects_keeps: "keeps K s (CleanDeleteObjects K d s)"
proof -
  have "GetBalance K (CleanDeleteObjects K d s) a \<le> GetBalance K s a" for a
    by (auto simp: GetBalance_def getStateObject_def CleanDeleteObjects_def StateObject_Copy_def
        Account_Copy_def split: option.splits)
  then have "totalSupply K (CleanDeleteObjects K d s) \<le> totalSupply K s"
    by (simp add: totalSupply_def sum_mono)
  then show ?thesis
    by (simp add: keeps_def CleanDeleteObjects_def)
qed

lemma Logs_keeps: "Logs s = (ls, s') \<Longrightarrow> keeps K s s'"
  by (auto simp: Logs_def intro!: keeps_balances GetBalance_txn_cong split: option.splits)


lemma keeps_Tinv: "Tinv K t \<Longrightarrow> keeps K (t_state t) s \<Longrightarrow> Tinv K (t\<lparr>t_state := s\<rparr>)"
  by (rule Tinv_Tkeeps [OF _ Tkeeps_state])

text \<open>What is known of the block after a step that added the receipt of a transaction.\<close>

definition written :: "Crypto \<Rightarrow> uint64 \<Rightarrow> 'c Transition \<Rightarrow> 'c Transition \<Rightarrow> bool" where
  "written K limit t t' \<longleftrightarrow> keeps K (t_state t) (t_state t') \<and> Tinv K t' \<and> accounts_ok limit t'
    \<and> length (t_receipts t') = Suc (length (t_receipts t))"

lemma WriteFailedReceipt_ok:
  assumes "Tinv (env_K E) t" "accounts_ok limit t" "WriteFailedReceipt E m t = Inr t'"
  shows "written (env_K E) limit t t'"
proof -
  obtain ls s where l: "Logs (t_state t) = (ls, s)" by fastforce
  have "\<exists>r. t' = t\<lparr>t_state := s, t_receipts := t_receipts t @ [r]\<rparr> \<and> rc_GasUsed r = 0"
    using assms(3) by (auto simp: WriteFailedReceipt_def l Let_def split: sum.splits)
  then show ?thesis
    using assms(1,2) Logs_keeps [OF l, of "env_K E"] keeps_Tinv [of "env_K E" t s]
    by (auto simp: written_def accounts_ok_def gas_of_def Tinv_def)
qed

lemma recoverFrom_ok: "recoverFrom E t m = Inr m' \<Longrightarrow> tx_ok m \<Longrightarrow> tx_ok m'"
  by (auto simp: recoverFrom_def tx_ok_def split: if_splits option.splits)

lemma Write_ok:
  assumes inv: "Tinv (env_K E) t" and m: "tx_ok m" and acc: "accounts_ok limit t"
  shows "\<exists>e t'. Write E m t = Some (e, t') \<and> (e = None \<longrightarrow> written (env_K E) limit t t')"
proof (cases "recoverFrom E t m")
  case (Inl e)
  then show ?thesis by (simp add: Write_def)
next
  case (Inr m')
  from Apply_ok [OF inv recoverFrom_ok [OF Inr m]] obtain r t1 where
    r: "Apply E m' t = Some (r, t1)" "advances (env_K E) t t1" "gas_settled m' t r t1" by auto
  show ?thesis
  proof (cases r)
    case (Inl e)
    then show ?thesis using Inr r(1) by (simp add: Write_def)
  next
    case res: (Inr res)
    obtain ls s where l: "Logs (t_state t1) = (ls, s)" by fastforce
    let ?s = "CleanDeleteObjects (env_K E) True s"
    have k: "keeps (env_K E) (t_state t1) ?s"
      by (rule keeps_trans [OF Logs_keeps [OF l] CleanDeleteObjects_keeps])
    have "\<exists>rc. Write E m t = Some (None, t1\<lparr>t_totalGas := t_totalGas t1 + GasUsed res, t_state := ?s,
        t_receipts := t_receipts t1 @ [rc]\<rparr>) \<and> rc_GasUsed rc = GasUsed res"
      by (simp add: Write_def Inr r(1) res l Let_def split del: if_split) (intro exI conjI, rule refl, simp)
    then obtain rc where w: "Write E m t = Some (None, t1\<lparr>t_totalGas := t_totalGas t1 + GasUsed res,
        t_state := ?s, t_receipts := t_receipts t1 @ [rc]\<rparr>)" "rc_GasUsed rc = GasUsed res" by auto
    have pool: "unat (t_gasPool t1) + unat (GasUsed res) = unat (t_gasPool t)"
      using r(3) res by (simp add: gas_settled_def)
    have "unat (t_totalGas t + GasUsed res) = unat (t_totalGas t) + unat (GasUsed res)"
      using acc pool by (intro unat_add_below [where c = limit]) (simp add: accounts_ok_def)
    then have "accounts_ok limit (t1\<lparr>t_totalGas := t_totalGas t1 + GasUsed res, t_state := ?s,
        t_receipts := t_receipts t1 @ [rc]\<rparr>)"
      using acc pool r(2) w(2) by (simp add: accounts_ok_def gas_of_def advances_def)
    then show ?thesis
      using w(1) k r(2) keeps_Tinv [of "env_K E" t1 ?s] keeps_trans [OF _ k]
      by (simp add: written_def advances_def Tinv_def)
  qed
qed

subsection \<open>Blocks\<close>

lemma ProcessTransactions_ok:
  assumes "Tinv (env_K E) t" "accounts_ok limit t" "list_all tx_ok ms"
  shows "\<exists>r. ProcessTransactions E gl ms t = Some r \<and> (\<forall>t'. r = Inr t' \<longrightarrow>
    keeps (env_K E) (t_state t) (t_state t') \<and> accounts_ok limit t'
    \<and> length (t_receipts t') = length (t_receipts t) + length ms)"
  using assms
proof (induction ms arbitrary: t)
  case Nil
  then show ?case by (simp add: keeps_refl)
next
  case (Cons m ms)
  have step: ?case if "written (env_K E) limit t t1"
    "ProcessTransactions E gl (m # ms) t = ProcessTransactions E gl ms t1" for t1
  proof -
    have t1: "keeps (env_K E) (t_state t) (t_state t1)" "Tinv (env_K E) t1" "accounts_ok limit t1"
      "length (t_receipts t1) = Suc (length (t_receipts t))"
      using that(1) by (auto simp: written_def)
    show ?thesis
      using Cons.IH [OF t1(2,3)] Cons.prems(3) keeps_trans [OF t1(1)] that(2) t1(4) by fastforce
  qed
  show ?case
  proof (cases "ExceedsBlockGasLimit m gl")
    case True
    then show ?thesis
      using step WriteFailedReceipt_ok [OF Cons.prems(1,2), of m]
      by (cases "WriteFailedReceipt E m t") auto
  next
    case False
    from Write_ok [OF Cons.prems(1) _ Cons.prems(2), of m] Cons.prems(3) obtain e t1
      where "Write E m t = Some (e, t1)" "e = None \<longrightarrow> written (env_K E) limit t t1" by auto
    with False show ?thesis
      using step by (cases e) auto
  qed
qed


lemma sint_in_range: "(w :: uint64) < 2 ^ 63 \<Longrightarrow> in_range (sint w)"
proof -
  assume "w < 2 ^ 63"
  then have w: "uint w < 2 ^ 63" by (simp add: word_less_def)
  have "- (2 ^ 63) \<le> uint w"
    by (rule order.trans [OF _ uint_ge_0]) simp
  with w have "sint w = uint w"
    using signed_take_bit_int_eq_self [of 63 "uint w"] by (simp add: sint_uint)
  then show "in_range (sint w)"
    using uint_ge_0 [of w] w by (simp add: in_range_def)
qed

subsection \<open>The properties of the executor\<close>

text \<open>C1. Executing a block is total, conserves money and accounts for its gas: for every list of
  transactions and every contract code they run, \<^verbatim>\<open>ProcessBlock\<close> returns; and when it accepts the block, the sum
  of all balances has not grown, there is one receipt per transaction, the total gas is the exact
  sum of the gas of the receipts, without wrap-around, and it does not exceed the gas limit of the
  header.\<close>

theorem ProcessBlock_safe:
  assumes "EIP150 (Forks_At (cp_Forks cp) (hdr_Number header))"
    and "hdr_Number header < 2 ^ 63" "hdr_Timestamp header < 2 ^ 63" "hdr_GasLimit header < 2 ^ 63"
    and "list_all tx_ok txs" "totalSupply (env_K E) (newTxn snap (env_newCache E)) < 2 ^ 256"
  shows "\<exists>r. ProcessBlock E cp getHash snap header txs creator = Some r
    \<and> (\<forall>t. r = Inr t \<longrightarrow>
          totalSupply (env_K E) (t_state t) \<le> totalSupply (env_K E) (newTxn snap (env_newCache E))
        \<and> length (t_receipts t) = length txs
        \<and> unat (t_totalGas t) = sum_list (map (\<lambda>rc. unat (rc_GasUsed rc)) (t_receipts t))
        \<and> t_totalGas t \<le> hdr_GasLimit header)"
proof -
  let ?t = "BeginTxn E cp getHash snap header creator"
  have inv: "Tinv (env_K E) ?t"
    using assms(1,6) sint_in_range [OF assms(2)] sint_in_range [OF assms(3)] sint_in_range [OF assms(4)]
    by (simp add: Tinv_def BeginTxn_def ctx_ok_def)
  have acc: "accounts_ok (hdr_GasLimit header) ?t"
    by (simp add: accounts_ok_def gas_of_def BeginTxn_def)
  from ProcessTransactions_ok [OF inv acc assms(5), of "hdr_GasLimit header"] show ?thesis
    by (auto simp: ProcessBlock_def keeps_def accounts_ok_def gas_of_def BeginTxn_def word_le_nat_alt)
qed

definition demo_tx :: Transaction where
  "demo_tx = \<lparr> tx_Nonce = 0, tx_GasPrice = 1, tx_Gas = 21000, tx_To = Some 2, tx_Value = 5, tx_Input = [],
     tx_V = 27, tx_R = 1, tx_S = 1, tx_Hash = 0, tx_From = 1, tx_Type = LegacyTx \<rparr>"

theorem ProcessBlock_safe_witness:
  "\<exists>r. ProcessBlock demo_env demo_params (\<lambda>_ _. 0) demo_snap demo_header [demo_tx] 3 = Some r
    \<and> (\<forall>t. r = Inr t \<longrightarrow> length (t_receipts t) = 1)"
  using ProcessBlock_safe [of demo_params demo_header "[demo_tx]" demo_env demo_snap "\<lambda>_ _. 0" 3] demo_supply
  by (auto simp: demo_params_def demo_header_def demo_tx_def tx_ok_def demo_env_def)

text \<open>C3. A transaction is all or nothing and pays exactly for its gas: \<^verbatim>\<open>Apply\<close> returns; a rejected
  transaction leaves the transient state as it was; of an executed one the gas used and the gas left add
  up to its gas limit, the block's gas pool goes down by exactly the gas used, and the up-front
  charge, the refund and the fee of the coinbase cancel out, so that the sum of all balances does not
  grow.\<close>

theorem Apply_settles:
  assumes "Tinv (env_K E) t" "tx_ok m"
  shows "\<exists>r t'. Apply E m t = Some (r, t')
    \<and> totalSupply (env_K E) (t_state t') \<le> totalSupply (env_K E) (t_state t)
    \<and> (case r of
         Inl e \<Rightarrow> txn (t_state t') = txn (t_state t)
       | Inr res \<Rightarrow> unat (GasUsed res) + unat (GasLeft res) = unat (tx_Gas m)
           \<and> unat (t_gasPool t') + unat (GasUsed res) = unat (t_gasPool t))"
  using Apply_ok [OF assms] by (fastforce simp: advances_def keeps_def gas_settled_def split: sum.split)

theorem Apply_settles_witness:
  "\<exists>r t'. Apply demo_env demo_tx demo_block = Some (r, t')
    \<and> totalSupply (env_K demo_env) (t_state t') \<le> totalSupply (env_K demo_env) (t_state demo_block)"
  using Apply_settles [OF demo_Tinv, of demo_tx] by (auto simp: tx_ok_def demo_tx_def)

end
