(* ===== verification/TxnProps.thy ===== *)
theory TxnProps
  imports TxnSupply
begin

text \<open>
  What the transient state of \<^verbatim>\<open>state/txn.go\<close> promises to the executor: reads after writes, the net gas
  metering of storage, and snapshots.
\<close>

subsection \<open>Reads after writes\<close>

text \<open>The committed state below the transaction: the storage trie of an account whose root is the empty
  root has no entries.\<close>

definition Snap_ok :: "Snap \<Rightarrow> bool" where
  "Snap_ok sn \<longleftrightarrow> (\<forall>a key. snap_GetStorage sn a emptyStateHash key = 0)"

lemma getStateObject_Insert:
  "getStateObject K (Insert a obj s) b =
    (if b = a then (if so_Deleted obj then None else Some (StateObject_Copy obj)) else getStateObject K s b)"
  by (simp add: getStateObject_def Insert_def split: option.split)

lemma getStateObject_not_deleted: "getStateObject K s a = Some obj \<Longrightarrow> \<not> so_Deleted obj"
  using getStateObject_props by blast

lemma getStateObject_upsert:
  assumes "\<And>obj. so_Deleted (f obj) = so_Deleted obj"
  shows "getStateObject K (upsertAccount K a True f s) b =
    (if b = a then Some (StateObject_Copy (f (case getStateObject K s a of None \<Rightarrow> newStateObject K | Some obj \<Rightarrow> obj)))
     else getStateObject K s b)"
  using assms getStateObject_not_deleted [of K s a]
  by (auto simp: upsertAccount_def getStateObject_Insert newStateObject_def split: option.split)

lemma getStateObject_SetState:
  "getStateObject K (SetState K a key val s) b =
    (if b = a then
       (let obj = (case getStateObject K s a of None \<Rightarrow> newStateObject K | Some obj \<Rightarrow> obj)
        in Some (StateObject_Copy (obj\<lparr>so_Txn := Some ((case so_Txn obj of None \<Rightarrow> Map.empty | Some m \<Rightarrow> m)
             (key \<mapsto> (if val = 0 then None else Some val)))\<rparr>)))
     else getStateObject K s b)"
  by (simp add: SetState_def getStateObject_upsert Let_def)

lemma GetState_SetState_same: "GetState K (SetState K a key val s) a key = val"
  by (simp add: GetState_def getStateObject_SetState Let_def StateObject_Copy_def)

lemma snapshot_SetState [simp]: "snapshot (SetState K a key val s) = snapshot s"
  by (simp add: txn_simps)

lemma GetState_SetState:
  assumes "Snap_ok (snapshot s)"
  shows "GetState K (SetState K a key val s) b k = (if b = a \<and> k = key then val else GetState K s b k)"
  using assms
  by (auto simp: GetState_def getStateObject_SetState Let_def StateObject_Copy_def Account_Copy_def
      newStateObject_def Snap_ok_def split: option.split)

lemma GetCommittedState_SetState:
  "getStateObject K s a \<noteq> None \<Longrightarrow>
    GetCommittedState K (SetState K a key val s) b k = GetCommittedState K s b k"
  by (auto simp: GetCommittedState_def getStateObject_SetState Let_def StateObject_Copy_def
      Account_Copy_def split: option.split)

lemma getStateObject_txn_cong:
  "rx_objects (txn s') = rx_objects (txn s) \<Longrightarrow> snapshot s' = snapshot s \<Longrightarrow> getStateObject K s' = getStateObject K s"
  by (rule ext) (simp add: getStateObject_def split: option.split)

lemma getStateObject_refund [simp]:
  "getStateObject K (AddRefund g s) = getStateObject K s" "getStateObject K (SubRefund g s) = getStateObject K s"
  "snapshot (AddRefund g s) = snapshot s" "snapshot (SubRefund g s) = snapshot s"
  by (auto intro!: getStateObject_txn_cong simp: AddRefund_def SubRefund_def)

lemma reads_cong:
  assumes "getStateObject K s' = getStateObject K s" "snapshot s' = snapshot s"
  shows "GetState K s' = GetState K s" "GetCommittedState K s' = GetCommittedState K s"
  using assms by (auto simp: GetState_def GetCommittedState_def fun_eq_iff split: option.split)

lemma reads_refund [simp]:
  "GetState K (AddRefund g s) = GetState K s" "GetState K (SubRefund g s) = GetState K s"
  "GetCommittedState K (AddRefund g s) = GetCommittedState K s"
  "GetCommittedState K (SubRefund g s) = GetCommittedState K s"
  by (rule reads_cong; simp)+

text \<open>Up to the refund counter, \<^verbatim>\<open>SetStorage\<close> writes the slot.\<close>

lemma SetStorage_state:
  assumes "SetStorage K a key val cfg s = (st, s')"
  shows "getStateObject K s' = getStateObject K (if GetState K s a key = val then s else SetState K a key val s)"
    and "snapshot s' = snapshot s"
  using assms by (auto simp: SetStorage_def Let_def txn_simps split: if_splits)

lemma SetStorage_GetState:
  assumes "SetStorage K a key val cfg s = (st, s')"
  shows "GetState K s' = (if GetState K s a key = val then GetState K s else GetState K (SetState K a key val s))"
  using SetStorage_state [OF assms] by (auto intro: reads_cong)

text \<open>A storage write is read back and touches nothing else: after \<^verbatim>\<open>SetStorage\<close> the slot holds the
  value, every other slot of the account and every slot of every other account is as before, and so is
  every balance; the status is \<open>StorageUnchanged\<close> exactly when the slot already held the value.\<close>

theorem SetStorage_reads:
  assumes "Snap_ok (snapshot s)" "SetStorage K a key val cfg s = (st, s')"
  shows "GetState K s' b k = (if b = a \<and> k = key then val else GetState K s b k)
    \<and> GetBalance K s' b = GetBalance K s b
    \<and> (st = StorageUnchanged \<longleftrightarrow> GetState K s a key = val)"
proof -
  have "GetState K s' b k = (if b = a \<and> k = key then val else GetState K s b k)"
    using SetStorage_GetState [OF assms(2)] GetState_SetState [OF assms(1)] by auto
  moreover have "GetBalance K s' = GetBalance K s"
    by (rule SetStorage_keeps [OF assms(2)])
  moreover have "st = StorageUnchanged \<longleftrightarrow> GetState K s a key = val"
    using assms(2) by (auto simp: SetStorage_def Let_def split: if_splits)
  ultimately show ?thesis by simp
qed

definition demo_store :: "unit Txn" where
  "demo_store = newTxn \<lparr> snap_GetStorage = (\<lambda>a root key. if root = 1 \<and> key = 5 then 9 else 0),
     snap_GetAccount = (\<lambda>a. Some \<lparr> acc_Nonce = 1, acc_Balance = 3, acc_Root = 1, acc_CodeHash = 2 \<rparr>),
     snap_GetCode = (\<lambda>_. []) \<rparr> ()"

definition demo_forks :: ForksInTime where
  "demo_forks = Forks_At AllForksEnabled 0"

lemma demo_store_ok: "Snap_ok (snapshot demo_store)"
  by (simp add: Snap_ok_def demo_store_def newTxn_def emptyStateHash_def)

theorem SetStorage_reads_witness:
  "GetState demo_hash (snd (SetStorage demo_hash 7 5 4 demo_forks demo_store)) 7 5 = 4"
  using SetStorage_reads [OF demo_store_ok prod.collapse [symmetric], of demo_hash 7 5 4 demo_forks 7 5] by simp

subsection \<open>The refund counter\<close>

text \<open>A run of storage writes to the slots of existing accounts, and the slots that it has cleared: those
  for which the counter holds 15000 that a later write may take back.\<close>

definition write_slot ::
  "Crypto \<Rightarrow> ForksInTime \<Rightarrow> 'c Txn \<Rightarrow> (address \<times> hash) \<times> hash \<Rightarrow> 'c Txn" where
  "write_slot K cfg s w = snd (SetStorage K (fst (fst w)) (snd (fst w)) (snd w) cfg s)"

definition cleared :: "Crypto \<Rightarrow> (address \<times> hash) set \<Rightarrow> 'c Txn \<Rightarrow> (address \<times> hash) set" where
  "cleared K W s = {(a, k) \<in> W. GetCommittedState K s a k \<noteq> 0 \<and> GetState K s a k = 0}"

lemma write_slot_reads:
  assumes "Snap_ok (snapshot s)" "getStateObject K s a \<noteq> None"
  shows "GetState K (write_slot K cfg s ((a, key), val)) b k = (if b = a \<and> k = key then val else GetState K s b k)"
    and "GetCommittedState K (write_slot K cfg s ((a, key), val)) b k = GetCommittedState K s b k"
    and "getStateObject K s b \<noteq> None \<Longrightarrow> getStateObject K (write_slot K cfg s ((a, key), val)) b \<noteq> None"
    and "snapshot (write_slot K cfg s ((a, key), val)) = snapshot s"
proof -
  obtain st s' where w: "SetStorage K a key val cfg s = (st, s')" by fastforce
  note st = SetStorage_state [OF w]
  show "GetState K (write_slot K cfg s ((a, key), val)) b k = (if b = a \<and> k = key then val else GetState K s b k)"
    using SetStorage_GetState [OF w] GetState_SetState [OF assms(1)] by (auto simp: write_slot_def w)
  have "GetCommittedState K s' = GetCommittedState K (if GetState K s a key = val then s else SetState K a key val s)"
    by (rule reads_cong) (simp_all add: st)
  then show "GetCommittedState K (write_slot K cfg s ((a, key), val)) b k = GetCommittedState K s b k"
    by (simp add: write_slot_def w GetCommittedState_SetState [OF assms(2)])
  show "getStateObject K s b \<noteq> None \<Longrightarrow> getStateObject K (write_slot K cfg s ((a, key), val)) b \<noteq> None"
    by (simp add: write_slot_def w st getStateObject_SetState Let_def)
  show "snapshot (write_slot K cfg s ((a, key), val)) = snapshot s"
    by (simp add: write_slot_def w st)
qed

lemma cleared_write_slot:
  assumes "Snap_ok (snapshot s)" "getStateObject K s a \<noteq> None" "(a, key) \<in> W"
  shows "cleared K W (write_slot K cfg s ((a, key), val)) =
    (if GetCommittedState K s a key \<noteq> 0 \<and> val = 0 then insert (a, key) (cleared K W s)
     else cleared K W s - {(a, key)})"
  using assms by (auto simp: cleared_def write_slot_reads)

lemma GetRefund_simps [simp]:
  "GetRefund (AddRefund g s) = GetRefund s + g" "GetRefund (SubRefund g s) = GetRefund s - g"
  "GetRefund (SetState K a key val s) = GetRefund s"
  by (auto simp: GetRefund_def AddRefund_def SubRefund_def SetState_def upsertAccount_def Insert_def
      split: option.split)

text \<open>The counter follows the cleared slots.\<close>

lemma refund_step:
  fixes val :: hash
  assumes "Istanbul cfg" "unat (GetRefund s) + 19200 < 2 ^ 64"
    and "GetCommittedState K s a key \<noteq> 0 \<and> GetState K s a key = 0 \<Longrightarrow> 15000 \<le> unat (GetRefund s)"
  defines "s' \<equiv> write_slot K cfg s ((a, key), val)"
    and "o0 \<equiv> GetCommittedState K s a key" and "c0 \<equiv> GetState K s a key"
  shows "unat (GetRefund s') \<le> unat (GetRefund s) + 19200
    \<and> unat (GetRefund s) + (if o0 \<noteq> 0 \<and> val = 0 then 15000 else 0)
      \<le> unat (GetRefund s') + (if o0 \<noteq> 0 \<and> c0 = 0 then 15000 else 0)"
proof -
  have add: "unat (GetRefund s + g) = unat (GetRefund s) + unat g" if "unat g \<le> 19200" for g
    using that assms(2) by (intro unat_plus) simp
  have sub: "unat (GetRefund s - 15000) = unat (GetRefund s) - 15000"
    "unat (GetRefund s - 10800) = unat (GetRefund s) - 10800" if "o0 \<noteq> 0" "c0 = 0"
    using assms(3) that by (simp_all add: o0_def c0_def unat_sub word_le_nat_alt)
  show ?thesis
    using assms(1) assms(3)
    unfolding s'_def write_slot_def o0_def [symmetric] c0_def [symmetric]
    by (auto simp: SetStorage_def Let_def o0_def [symmetric] c0_def [symmetric] add sub)
qed

lemma refund_writes:
  assumes "Istanbul cfg" "Snap_ok (snapshot s)" "fst ` set ws \<subseteq> W" "\<forall>(a, k) \<in> W. getStateObject K s a \<noteq> None"
    and "r0 + 15000 * card (cleared K W s) \<le> unat (GetRefund s)"
    and "unat (GetRefund s) + 19200 * length ws < 2 ^ 64"
  shows "r0 + 15000 * card (cleared K W (foldl (write_slot K cfg) s ws)) \<le> unat (GetRefund (foldl (write_slot K cfg) s ws))
    \<and> unat (GetRefund (foldl (write_slot K cfg) s ws)) \<le> unat (GetRefund s) + 19200 * length ws"
  using assms
proof (induction ws arbitrary: s)
  case (Cons w ws)
  obtain a key val where w: "w = ((a, key), val)" by (metis surj_pair)
  let ?s = "write_slot K cfg s w" and ?C = "cleared K W s"
  have W: "(a, key) \<in> W" using Cons.prems(3) w by auto
  with Cons.prems(4) have ex: "getStateObject K s a \<noteq> None" by auto
  note reads = write_slot_reads [OF Cons.prems(2) ex, where cfg = cfg and key = key and val = val, folded w]
  have fin: "finite ?C" by (rule finite)
  have mem: "(a, key) \<in> ?C \<longleftrightarrow> GetCommittedState K s a key \<noteq> 0 \<and> GetState K s a key = 0"
    using W by (simp add: cleared_def)
  have "15000 \<le> 15000 * card ?C" if "(a, key) \<in> ?C"
    using that fin card_gt_0_iff [of ?C] by auto
  then have "15000 \<le> unat (GetRefund s)" if "(a, key) \<in> ?C"
    using that Cons.prems(5) by linarith
  then have step: "unat (GetRefund ?s) \<le> unat (GetRefund s) + 19200
    \<and> unat (GetRefund s) + (if GetCommittedState K s a key \<noteq> 0 \<and> val = 0 then 15000 else 0)
      \<le> unat (GetRefund ?s) + (if (a, key) \<in> ?C then 15000 else 0)"
    using refund_step [OF Cons.prems(1), of s K a key val] Cons.prems(6) by (simp add: mem w)
  have clr: "cleared K W ?s = (if GetCommittedState K s a key \<noteq> 0 \<and> val = 0 then insert (a, key) ?C
      else ?C - {(a, key)})"
    by (simp add: w cleared_write_slot [OF Cons.prems(2) ex W])
  have "card (cleared K W ?s) + (if (a, key) \<in> ?C then 1 else 0)
      = card ?C + (if GetCommittedState K s a key \<noteq> 0 \<and> val = 0 then 1 else 0)"
    using fin card_gt_0_iff [of ?C]
    by (auto simp: clr card_insert_if card_Diff_singleton_if insert_absorb simp del: card_0_eq)
  then have "r0 + 15000 * card (cleared K W ?s) \<le> unat (GetRefund ?s)"
    using step Cons.prems(5) by (auto split: if_splits)
  moreover have "\<forall>(b, k) \<in> W. getStateObject K ?s b \<noteq> None"
    using Cons.prems(4) reads(3) by blast
  ultimately show ?case
    using Cons.IH [of ?s] Cons.prems(1-3,6) reads(4) step by simp
qed simp

text \<open>C6. Within a transaction the refund counter never wraps: starting from slots that still hold their
  committed values, any sequence of storage writes under the Istanbul rules, to any slots of existing
  accounts and through any values, leaves the counter at or above where it was and adds at most 19200 per
  write; every \<^verbatim>\<open>SubRefund\<close> takes back what an earlier clearing added.\<close>

theorem refund_no_wrap:
  assumes "Istanbul cfg" "Snap_ok (snapshot s)"
    and "\<forall>((a, k), v) \<in> set ws. getStateObject K s a \<noteq> None \<and> GetState K s a k = GetCommittedState K s a k"
    and "unat (GetRefund s) + 19200 * length ws < 2 ^ 64"
  shows "unat (GetRefund s) \<le> unat (GetRefund (foldl (write_slot K cfg) s ws))
    \<and> unat (GetRefund (foldl (write_slot K cfg) s ws)) \<le> unat (GetRefund s) + 19200 * length ws"
proof -
  let ?W = "fst ` set ws"
  have "cleared K ?W s = {}"
    using assms(3) by (fastforce simp: cleared_def)
  moreover have "\<forall>(a, k) \<in> ?W. getStateObject K s a \<noteq> None"
    using assms(3) by fastforce
  ultimately show ?thesis
    using refund_writes [OF assms(1,2), of ws ?W K "unat (GetRefund s)"] assms(4) by auto
qed

theorem refund_no_wrap_witness:
  "0 \<le> unat (GetRefund (foldl (write_slot demo_hash demo_forks) demo_store [((7, 5), 0), ((7, 5), 4)]))
    \<and> unat (GetRefund (foldl (write_slot demo_hash demo_forks) demo_store [((7, 5), 0), ((7, 5), 4)])) \<le> 38400"
proof -
  have "GetRefund demo_store = 0" by (simp add: GetRefund_def demo_store_def newTxn_def)
  then show ?thesis
    using refund_no_wrap [OF _ demo_store_ok, of demo_forks "[((7, 5), 0), ((7, 5), 4)]" demo_hash]
    by (simp add: demo_forks_def demo_store_def newTxn_def GetState_def GetCommittedState_def
        getStateObject_def newStateObject_def)
qed



subsection \<open>Allow lists\<close>

text \<open>C12. Only an administrator changes an allow list: if a call to the list changes any storage slot of any
  account, then the caller had the admin role, the call was not static and could pay 20000 gas, it
  succeeded, the slot is the role of the address in the call data, and the new role is one of the
  three roles.\<close>

theorem allowlist_only_admin:
  assumes "Snap_ok (snapshot s)" "AllowList_Run K A a c s = (r, s')" "GetState K s' b k \<noteq> GetState K s b k"
  shows "GetRole K a s (c_Caller c) = AdminRole \<and> \<not> c_Static c \<and> 20000 \<le> c_Gas c \<and> Err r = None
    \<and> b = a \<and> k = ucast (BytesToAddress (drop 4 (c_Input c)))
    \<and> GetRole K a s' (BytesToAddress (drop 4 (c_Input c))) \<in> {NoRole, EnabledRole, AdminRole}"
  using assms
  by (auto simp: AllowList_Run_def runInputCall_def Let_def SetRole_def GetRole_def GetState_SetState
      writeAllowListCost_def not_less split: if_splits)

definition demo_abi :: Abi where
  "demo_abi = \<lparr> abi_ReadAllowList = [1, 0, 0, 0], abi_SetAdmin = [2, 0, 0, 0], abi_SetEnabled = [3, 0, 0, 0],
     abi_SetNone = [4, 0, 0, 0], abi_bool = (\<lambda>b. [if b then 1 else 0]) \<rparr>"

definition demo_list :: "unit Txn" where
  "demo_list = SetRole demo_hash AllowListContractsAddr 1 AdminRole demo_store"

text \<open>The administrator \<open>1\<close> enables the address \<open>6\<close>.\<close>

theorem allowlist_only_admin_witness:
  "let c = (NewContract 1 1 1 AllowListContractsAddr (Some 0) 30000 [])\<lparr>c_Input := [3, 0, 0, 0] @ be_bytes 32 6\<rparr>;
       s' = snd (AllowList_Run demo_hash demo_abi AllowListContractsAddr c demo_list)
   in GetRole demo_hash AllowListContractsAddr s' 6 = EnabledRole \<and> \<not> c_Static c"
proof -
  let ?c = "(NewContract 1 1 1 AllowListContractsAddr (Some 0) 30000 [])\<lparr>c_Input := [3, 0, 0, 0] @ be_bytes 32 6\<rparr>"
  let ?s = "SetRole demo_hash AllowListContractsAddr 6 EnabledRole demo_list"
  have ok: "Snap_ok (snapshot demo_list)"
    using demo_store_ok by (simp add: demo_list_def SetRole_def)
  have addr: "BytesToAddress (be_bytes 32 6) = 6"
    by (simp add: BytesToAddress_def big_SetBytes_be_bytes)
  have admin: "GetRole demo_hash AllowListContractsAddr demo_list 1 = AdminRole"
    by (simp add: GetRole_def demo_list_def SetRole_def GetState_SetState [OF demo_store_ok])
  have before: "GetState demo_hash demo_list AllowListContractsAddr 6 = 0"
    by (simp add: demo_list_def SetRole_def GetState_SetState [OF demo_store_ok])
      (simp add: GetState_def demo_store_def newTxn_def getStateObject_def newStateObject_def Account_Copy_def)
  have run: "AllowList_Run demo_hash demo_abi AllowListContractsAddr ?c demo_list
      = (\<lparr> ReturnValue = [], GasLeft = 10000, GasUsed = 20000, Err = None, ResAddress = 0 \<rparr>, ?s)"
    by (simp add: AllowList_Run_def runInputCall_def Let_def demo_abi_def NewContract_def addr admin
        readAllowListCost_def writeAllowListCost_def)
  have after: "GetState demo_hash ?s AllowListContractsAddr 6 = EnabledRole"
    by (simp add: SetRole_def GetState_SetState [OF ok])
  then have "GetState demo_hash ?s AllowListContractsAddr 6 \<noteq> GetState demo_hash demo_list AllowListContractsAddr 6"
    unfolding before by (simp add: EnabledRole_def)
  from allowlist_only_admin [OF ok run this] show ?thesis
    unfolding Let_def run using after by (simp add: GetRole_def)
qed

end
