(* ===== verification/ExecutorProps.thy ===== *)
theory ExecutorProps
  imports BlockSafety TxnProps
begin

text \<open>
  What a failed frame of \<^verbatim>\<open>state/executor.go\<close> leaves behind, and the intrinsic gas of a transaction.
\<close>

subsection \<open>Failed calls\<close>

text \<open>Two states that no account can tell apart, with the same logs and the same refund counter.\<close>

definition same_view :: "Crypto \<Rightarrow> 'c Txn \<Rightarrow> 'c Txn \<Rightarrow> bool" where
  "same_view K s s' \<longleftrightarrow> GetBalance K s' = GetBalance K s \<and> GetNonce K s' = GetNonce K s
    \<and> GetState K s' = GetState K s \<and> GetRefund s' = GetRefund s \<and> rx_logs (txn s') = rx_logs (txn s)"

lemma same_view_refl: "same_view K s s"
  by (simp add: same_view_def)

lemma same_view_txn: "txn s' = txn s \<Longrightarrow> snapshot s' = snapshot s \<Longrightarrow> same_view K s s'"
proof -
  assume a: "txn s' = txn s" "snapshot s' = snapshot s"
  then have "getStateObject K s' = getStateObject K s" by (intro getStateObject_txn_cong) simp_all
  with a show ?thesis
    using reads_cong [of K s' s]
    by (auto simp: same_view_def GetBalance_def GetNonce_def GetRefund_def fun_eq_iff)
qed

lemma same_view_Touch:
  assumes "Snap_ok (snapshot s)"
  shows "same_view K s (TouchAccount K a (s\<lparr>snapshots := ss\<rparr>))"
proof -
  let ?s = "TouchAccount K a (s\<lparr>snapshots := ss\<rparr>)"
  have g: "getStateObject K (s\<lparr>snapshots := ss\<rparr>) = getStateObject K s"
    by (rule getStateObject_txn_cong) simp_all
  have obj: "getStateObject K ?s b = (if b = a
      then Some (case getStateObject K s a of None \<Rightarrow> newStateObject K | Some obj \<Rightarrow> obj)
      else getStateObject K s b)" for b
    using getStateObject_props [of K s a] GetBalance_nonneg [of K s a]
    by (auto simp: TouchAccount_def getStateObject_upsert g StateObject_Copy_def Account_Copy_def
        newStateObject_def split: option.split)
  have sn: "snapshot ?s = snapshot s" by (simp add: txn_simps)
  show ?thesis
    unfolding same_view_def
  proof (intro conjI)
    show "GetState K ?s = GetState K s"
      using assms by (auto simp: GetState_def obj sn fun_eq_iff newStateObject_def Snap_ok_def split: option.split)
    show "GetBalance K ?s = GetBalance K s" "GetNonce K ?s = GetNonce K s"
      by (auto simp: GetBalance_def GetNonce_def obj fun_eq_iff newStateObject_def split: option.split)
    show "GetRefund ?s = GetRefund s" "rx_logs (txn ?s) = rx_logs (txn s)"
      by (auto simp: GetRefund_def TouchAccount_def upsertAccount_def Insert_def split: option.split)
  qed
qed

lemma revertTo_exact:
  assumes "Tkeeps K (t\<lparr>t_state := s1\<rparr>) t2" "prefix (snapshots s0 @ [txn s0]) (snapshots s1)"
    and "snapshot s1 = snapshot s0" "revertTo (length (snapshots s0)) t2 = Some t3"
  shows "same_view K s0 (t_state t3)"
proof -
  obtain s2 where t2: "t2 = t\<lparr>t_state := s2\<rparr>" and s2: "keeps K s1 s2"
    using assms(1) by (auto simp: Tkeeps_def)
  have "prefix (snapshots s0 @ [txn s0]) (snapshots s2)"
    using assms(2) s2 by (auto simp: keeps_def intro: prefix_order.trans)
  then have "snapshots s2 ! length (snapshots s0) = txn s0"
    by (auto simp: prefix_def nth_append)
  then have "txn (t_state t3) = txn s0" "snapshot (t_state t3) = snapshot s2"
    using assms(4) by (auto simp: t2 revertTo_def RevertToSnapshot_def split: if_splits)
  then show ?thesis
    using s2 assms(3) by (intro same_view_txn) (auto simp: keeps_def)
qed

lemma Transfer_failed: "Transfer K from to v s = (Some e, s') \<Longrightarrow> s' = s"
  by (auto simp: Transfer_def split: option.splits sum.splits)

text \<open>C5. A failed call leaves no trace: when the frame of a message call fails, at whatever depth and for
  whatever reason (too deep, not enough balance, out of gas, revert, invalid instruction), every balance,
  nonce and storage slot of every account, the logs and the refund counter are what they were before the
  call.\<close>

theorem failed_call_no_trace:
  assumes "Tinv (env_K E) t" "Snap_ok (snapshot (t_state t))" "\<forall>v. c_Value c = Some v \<longrightarrow> in_range v"
    and "1025 - int n \<le> c_Depth c" "applyCall E (Transition_host E (Suc n)) c ct t = Some (r, t')" "Failed r"
  shows "same_view (env_K E) (t_state t) (t_state t')"
proof (cases "1025 < c_Depth c")
  case True
  then show ?thesis using assms(5) by (simp add: applyCall_def same_view_refl)
next
  case False
  let ?K = "env_K E" and ?s0 = "t_state t" and ?H = "Transition_host E (Suc n)"
  define s1 where "s1 = TouchAccount ?K (c_Address c) (?s0\<lparr>snapshots := snapshots ?s0 @ [txn ?s0]\<rparr>)"
  obtain e s2 where e: "(if ct = Call then Transfer ?K (c_Caller c) (c_Address c) (c_Value c) s1 else (None, s1)) = (e, s2)"
    by (cases "if ct = Call then Transfer ?K (c_Caller c) (c_Address c) (c_Value c) s1 else (None, s1)")
  have s1: "totalSupply ?K s1 = totalSupply ?K ?s0" "snapshot s1 = snapshot ?s0"
    "snapshots s1 = snapshots ?s0 @ [txn ?s0]"
    by (auto simp: s1_def txn_simps intro: supply_cong)
  have s2: "totalSupply ?K s2 = totalSupply ?K s1" "snapshot s2 = snapshot s1" "snapshots s2 = snapshots s1"
    using e assms(3) by (auto simp: Transfer_keeps in_range_def split: if_splits)
  have call: "applyCall E ?H c ct t = (case e of
      Some e \<Rightarrow> Some (result_err (c_Gas c) e, t\<lparr>t_state := s2\<rparr>)
    | None \<Rightarrow> do { (result, t) \<leftarrow> run E ?H c (t\<lparr>t_state := s2\<rparr>);
               (if Failed result then do { t \<leftarrow> revertTo (length (snapshots ?s0)) t; Some (result, t) }
                else Some (result, t)) })"
    unfolding applyCall_def Let_def Snapshot_def prod.case s1_def [symmetric] e using False by simp
  show ?thesis
  proof (cases e)
    case (Some x)
    then have "s2 = s1" using e by (auto dest: Transfer_failed split: if_splits)
    then show ?thesis
      using call Some assms(5) same_view_Touch [OF assms(2)] by (auto simp: s1_def)
  next
    case None
    have keep: "Tkeeps ?K t (t\<lparr>t_state := s2\<rparr>)"
      by (rule Tkeeps_state) (simp add: keeps_def s1 s2)
    have "frame_ok ?K c (t\<lparr>t_state := s2\<rparr>) (run E ?H c (t\<lparr>t_state := s2\<rparr>))"
      by (intro run_ok Transition_host_ok assms(3,4) Tinv_Tkeeps [OF assms(1) keep])
    from frame_okD [OF this] obtain r2 t2 where
      run: "run E ?H c (t\<lparr>t_state := s2\<rparr>) = Some (r2, t2)" "Tkeeps ?K (t\<lparr>t_state := s2\<rparr>) t2" by auto
    have "r2 = r" using call None run(1) assms(5) by (auto split: if_splits bind_splits)
    then have "revertTo (length (snapshots ?s0)) t2 = Some t'"
      using call None run(1) assms(5,6) by (auto split: bind_splits)
    then show ?thesis
      using revertTo_exact [OF run(2)] by (simp add: s1 s2)
  qed
qed

definition demo_call :: Contract where
  "demo_call = NewContract 1 1 1 2 (Some 2000000) 50000 []"

lemma demo_balance: "GetBalance (env_K demo_env) (t_state demo_block) a = (if a = 1 then 1000000 else 0)"
  by (simp add: GetBalance_def getStateObject_def newTxn_def demo_snap_def Account_Copy_def demo_block_def
      BeginTxn_def demo_env_def)

theorem failed_call_no_trace_witness:
  "\<exists>t'. applyCall demo_env (Transition_host demo_env (Suc 1024)) demo_call Call demo_block
      = Some (result_err 50000 ErrInsufficientBalance, t')
    \<and> same_view (env_K demo_env) (t_state demo_block) (t_state t')"
proof -
  let ?app = "applyCall demo_env (Transition_host demo_env (Suc 1024)) demo_call Call demo_block"
  have "\<exists>t'. ?app = Some (result_err 50000 ErrInsufficientBalance, t')"
    by (simp add: applyCall_def Snapshot_def Transfer_def SubBalance_def demo_call_def NewContract_def
        txn_simps demo_balance Let_def)
  moreover have "Snap_ok (snapshot (t_state demo_block))"
    by (simp add: Snap_ok_def demo_block_def BeginTxn_def newTxn_def demo_snap_def)
  ultimately show ?thesis
    using failed_call_no_trace [OF demo_Tinv, of demo_call 1024 Call]
    by (fastforce simp: demo_call_def NewContract_def in_range_def Failed_def)
qed

subsection \<open>Failed creations\<close>

lemma getStateObject_simps:
  "getStateObject K (IncrNonce K a s) b = (if b = a then Some (StateObject_Copy (upd_Nonce (\<lambda>n. n + 1)
      (case getStateObject K s a of None \<Rightarrow> newStateObject K | Some obj \<Rightarrow> obj))) else getStateObject K s b)"
  "b \<noteq> a \<Longrightarrow> getStateObject K (CreateAccount K a s) b = getStateObject K s b"
  "b \<noteq> a \<Longrightarrow> getStateObject K (AddBalance K a v s) b = getStateObject K s b"
  "b \<noteq> a \<Longrightarrow> SubBalance K a v s = Inr s' \<Longrightarrow> getStateObject K s' b = getStateObject K s b"
  by (auto simp: IncrNonce_def CreateAccount_def AddBalance_def SubBalance_def getStateObject_upsert
      getStateObject_Insert upd_Nonce_def upd_Balance_def split: if_splits)

lemma GetRole_cong:
  "getStateObject K s' a = getStateObject K s a \<Longrightarrow> snapshot s' = snapshot s \<Longrightarrow> GetRole K a s' b = GetRole K a s b"
  by (simp add: GetRole_def GetState_def split: option.split)

text \<open>C36. A creation that the deployer allow list refuses has already moved the money: the value is
  transferred to the address of the new contract before the role of the caller is checked, and the failing
  return does not go back to the snapshot; the creation reports \<^verbatim>\<open>ErrNotAuth\<close>, the caller has lost the
  value and the address has it.\<close>

theorem refused_creation_keeps_value:
  assumes "c_Depth c \<le> 1025" "c_Value c = Some v" "0 < v" "v \<le> GetBalance (env_K E) (t_state t) (c_Caller c)"
    and "\<not> hasCodeOrNonce (env_K E) (IncrNonce (env_K E) (c_Caller c) (t_state t)) (c_Address c)"
    and "t_deploymentAllowlist t = Some a" "\<not> Enabled (GetRole (env_K E) a (t_state t) (c_Caller c))"
    and "a \<noteq> c_Caller c" "a \<noteq> c_Address c" "c_Caller c \<noteq> c_Address c"
  shows "\<exists>t'. applyCreate E H c t = Some (result_err 0 ErrNotAuth, t')
    \<and> GetBalance (env_K E) (t_state t') (c_Caller c) = GetBalance (env_K E) (t_state t) (c_Caller c) - v
    \<and> GetBalance (env_K E) (t_state t') (c_Address c) = GetBalance (env_K E) (t_state t) (c_Address c) + v"
proof -
  let ?K = "env_K E"
  define s0 where "s0 = IncrNonce ?K (c_Caller c) (t_state t)"
  define sn where "sn = s0\<lparr>snapshots := snapshots s0 @ [txn s0]\<rparr>"
  define s1 where "s1 = (if EIP158 (t_config t)
    then IncrNonce ?K (c_Address c) (CreateAccount ?K (c_Address c) sn) else sn)"
  have bal: "GetBalance ?K s1 = GetBalance ?K (t_state t)"
    by (simp add: s1_def sn_def s0_def txn_simps)
  then obtain s2 where sub: "SubBalance ?K (c_Caller c) v s1 = Inr s2"
    using assms(3,4) by (auto simp: SubBalance_def)
  define s3 where "s3 = AddBalance ?K (c_Address c) v s2"
  have sn: "getStateObject ?K sn = getStateObject ?K s0"
    by (rule getStateObject_txn_cong) (simp_all add: sn_def)
  have obj: "getStateObject ?K s3 a = getStateObject ?K (t_state t) a"
    using assms(8,9) getStateObject_simps(4) [OF assms(8) sub]
    by (simp add: s3_def s1_def sn s0_def getStateObject_simps)
  have sna: "snapshot s3 = snapshot (t_state t)"
    using SubBalance_frame [OF sub] by (simp add: s3_def s1_def sn_def s0_def txn_simps)
  have role: "GetRole ?K a s3 (c_Caller c) = GetRole ?K a (t_state t) (c_Caller c)"
    by (rule GetRole_cong [OF obj sna])
  have "applyCreate E H c t = Some (result_err 0 ErrNotAuth, t\<lparr>t_state := s3\<rparr>)"
    using assms(1,2,5,6,7) sub role
    by (simp add: applyCreate_def Let_def Snapshot_def s0_def [symmetric] sn_def [symmetric]
        s1_def [symmetric] Transfer_def s3_def [symmetric])
  then show ?thesis
    using assms(3,10) by (simp add: s3_def GetBalance_AddBalance GetBalance_SubBalance [OF sub] bal)
qed

theorem refused_creation_keeps_value_witness:
  "\<exists>t'. applyCreate demo_env (Transition_host demo_env 1025) (NewContractCreation 1 1 1 9 (Some 5) 90000 [])
      (demo_block\<lparr>t_deploymentAllowlist := Some AllowListContractsAddr\<rparr>) = Some (result_err 0 ErrNotAuth, t')
    \<and> GetBalance (env_K demo_env) (t_state t') 9 = 5"
proof -
  let ?c = "NewContractCreation 1 1 1 9 (Some 5) 90000 []"
  let ?t = "demo_block\<lparr>t_deploymentAllowlist := Some AllowListContractsAddr\<rparr>"
  have none: "getStateObject (env_K demo_env) (t_state demo_block) a = None" if "a \<noteq> 1" for a
    using that by (simp add: getStateObject_def newTxn_def demo_snap_def demo_block_def BeginTxn_def)
  have "\<not> hasCodeOrNonce (env_K demo_env) (IncrNonce (env_K demo_env) 1 (t_state demo_block)) 9"
    by (simp add: hasCodeOrNonce_def GetNonce_def GetCodeHash_def getStateObject_simps none)
  moreover have "\<not> Enabled (GetRole (env_K demo_env) AllowListContractsAddr (t_state demo_block) 1)"
    by (simp add: GetRole_def GetState_def none AllowListContractsAddr_def Enabled_def EnabledRole_def AdminRole_def)
  ultimately show ?thesis
    using refused_creation_keeps_value [of ?c 5 demo_env ?t AllowListContractsAddr "Transition_host demo_env 1025"]
    by (auto simp: NewContractCreation_def NewContract_def demo_balance AllowListContractsAddr_def)
qed

subsection \<open>Intrinsic gas\<close>

text \<open>The intrinsic gas as a natural number.\<close>

definition intrinsic_gas :: "Transaction \<Rightarrow> bool \<Rightarrow> bool \<Rightarrow> nat" where
  "intrinsic_gas m hs ist =
    (if tx_To m = None \<and> hs then 53000 else 21000)
    + 4 * length (filter (\<lambda>b. b = 0) (tx_Input m))
    + (if ist then 16 else 68) * length (filter (\<lambda>b. b \<noteq> 0) (tx_Input m))"

lemma mult_fits:
  fixes cost n k :: uint64
  assumes "0 < k"
  shows "(- 1 - cost) div k < n \<longleftrightarrow> 2 ^ 64 \<le> unat cost + unat n * unat k"
proof -
  have "unat (- 1 - cost) = 2 ^ 64 - 1 - unat cost"
    using word_n1_ge [of cost] by (simp add: unat_sub unsigned_minus_1_eq_mask mask_eq_exp_minus_1)
  moreover have "0 < unat k" using assms by (simp add: unat_gt_0 word_neq_0_conv)
  moreover have "unat cost < 2 ^ 64" using unsigned_less [of cost] by simp
  ultimately show ?thesis
    by (auto simp: word_less_nat_alt unat_div div_less_iff_less_mult)
qed

lemma add_fits:
  "unat c + unat n * unat k < 2 ^ 64 \<Longrightarrow> unat (c + n * k :: uint64) = unat c + unat n * unat k"
proof -
  assume a: "unat c + unat n * unat k < 2 ^ 64"
  then have "unat (n * k) = unat n * unat k" by (intro unat_mult_lem [THEN iffD1]) simp
  with a show ?thesis using unat_plus [of c "n * k"] by simp
qed

text \<open>C11. The intrinsic gas is exact or refused: \<^verbatim>\<open>TransactionGasCost\<close> computes the base cost plus 4 gas
  for each zero byte and 16 (68 before Istanbul) for each other byte of the payload, and reports an overflow
  exactly when that number does not fit in 64 bits; no intermediate result wraps.\<close>

theorem TransactionGasCost_exact:
  assumes "length (tx_Input m) < 2 ^ 64"
  shows "TransactionGasCost m hs ist =
    (if intrinsic_gas m hs ist < 2 ^ 64 then Inr (of_nat (intrinsic_gas m hs ist)) else Inl ErrIntrinsicGasOverflow)"
proof -
  let ?z = "length (filter (\<lambda>b. b = 0) (tx_Input m))" and ?n = "length (filter (\<lambda>b. b \<noteq> 0) (tx_Input m))"
  let ?k = "if ist then 16 else 68 :: uint64" and ?c = "if tx_To m = None \<and> hs then 53000 else 21000 :: uint64"
  have len: "?z + ?n = length (tx_Input m)" by (rule sum_length_filter_compl)
  have z: "unat (of_nat ?z :: uint64) = ?z" and nz: "unat (of_nat ?n :: uint64) = ?n"
    using assms len by (simp_all add: unat_of_nat take_bit_nat_eq_self)
  have diff: "of_nat (length (tx_Input m)) - of_nat ?z = (of_nat ?n :: uint64)"
    by (simp flip: len)
  have k: "0 < ?k" "unat ?k = (if ist then 16 else 68)" by simp_all
  have c: "unat ?c = (if tx_To m = None \<and> hs then 53000 else 21000)" by simp
  have first: "(- 1 - ?c) div ?k < of_nat ?n \<longleftrightarrow> 2 ^ 64 \<le> unat ?c + ?n * unat ?k"
    using mult_fits [OF k(1)] by (simp add: nz)
  have sum: "unat (?c + of_nat ?n * ?k) = unat ?c + ?n * unat ?k" if "unat ?c + ?n * unat ?k < 2 ^ 64"
    using add_fits [of ?c "of_nat ?n" ?k] that by (simp add: nz)
  have second: "(- 1 - (?c + of_nat ?n * ?k)) div 4 < of_nat ?z \<longleftrightarrow> 2 ^ 64 \<le> unat ?c + ?n * unat ?k + ?z * 4"
    if "unat ?c + ?n * unat ?k < 2 ^ 64"
    using mult_fits [of 4 "?c + of_nat ?n * ?k" "of_nat ?z"] sum [OF that] by (simp add: z)
  have total: "intrinsic_gas m hs ist = unat ?c + ?n * unat ?k + ?z * 4"
    unfolding intrinsic_gas_def c k(2) by simp
  have result: "?c + of_nat ?n * ?k + of_nat ?z * 4 = of_nat (intrinsic_gas m hs ist)"
    unfolding total by simp
  show ?thesis
  proof (cases "tx_Input m = []")
    case True
    then show ?thesis
      by (simp add: TransactionGasCost_def IsContractCreation_def intrinsic_gas_def TxGas_def TxGasContractCreation_def)
  next
    case False
    then have "TransactionGasCost m hs ist =
        (if (- 1 - ?c) div ?k < of_nat ?n then Inl ErrIntrinsicGasOverflow
         else if (- 1 - (?c + of_nat ?n * ?k)) div 4 < of_nat ?z then Inl ErrIntrinsicGasOverflow
         else Inr (?c + of_nat ?n * ?k + of_nat ?z * 4))"
      unfolding TransactionGasCost_def IsContractCreation_def TxGas_def TxGasContractCreation_def Let_def diff by simp
    then show ?thesis
      unfolding first result total using second by (auto simp: not_less)
  qed
qed

theorem TransactionGasCost_exact_witness:
  "TransactionGasCost (demo_tx\<lparr>tx_Input := [0, 1, 2, 0]\<rparr>) True True = Inr 21040"
  using TransactionGasCost_exact [of "demo_tx\<lparr>tx_Input := [0, 1, 2, 0]\<rparr>" True True]
  by (simp add: intrinsic_gas_def demo_tx_def)

end
