(* ===== verification/StaticCalls.thy ===== *)
theory StaticCalls
  imports ExecutorProps
begin

text \<open>
  Static frames do not write. The executor keeps the contract of the interpreter a second time, for frames
  that must not write: with the relation that no storage slot, no nonce, no log and no refund changes.
  Balances are left out of the relation, because the native transfer precompile moves them in a
  static frame as well.
\<close>

subsection \<open>The relation\<close>

definition unwritten :: "Crypto \<Rightarrow> 'c Txn \<Rightarrow> 'c Txn \<Rightarrow> bool" where
  "unwritten K s s' \<longleftrightarrow> GetNonce K s' = GetNonce K s \<and> GetState K s' = GetState K s
    \<and> GetRefund s' = GetRefund s \<and> rx_logs (txn s') = rx_logs (txn s)"

definition Sinv :: "Crypto \<Rightarrow> 'c Transition \<Rightarrow> bool" where
  "Sinv K t \<longleftrightarrow> Tinv K t \<and> Snap_ok (snapshot (t_state t))"

definition Skeeps :: "Crypto \<Rightarrow> 'c Transition \<Rightarrow> 'c Transition \<Rightarrow> bool" where
  "Skeeps K t t' \<longleftrightarrow> Tkeeps K t t' \<and> unwritten K (t_state t) (t_state t')"

lemma unwritten_refl [simp]: "unwritten K s s"
  by (simp add: unwritten_def)

lemma unwritten_trans: "unwritten K s1 s2 \<Longrightarrow> unwritten K s2 s3 \<Longrightarrow> unwritten K s1 s3"
  by (simp add: unwritten_def)

lemma same_view_unwritten: "same_view K s s' \<Longrightarrow> unwritten K s s'"
  by (simp add: same_view_def unwritten_def)

lemma Skeeps_refl: "Skeeps K t t"
  by (simp add: Skeeps_def Tkeeps_refl)

lemma Skeeps_trans: "Skeeps K t1 t2 \<Longrightarrow> Skeeps K t2 t3 \<Longrightarrow> Skeeps K t1 t3"
  by (auto simp: Skeeps_def intro: Tkeeps_trans unwritten_trans)

lemma Sinv_Skeeps: "Sinv K t \<Longrightarrow> Skeeps K t t' \<Longrightarrow> Sinv K t'"
  using Tinv_Tkeeps by (fastforce simp: Sinv_def Skeeps_def Tkeeps_def keeps_def)

lemma upsert_unwritten:
  assumes "Snap_ok (snapshot s)" "\<And>obj. so_Deleted (f obj) = so_Deleted obj \<and> so_Txn (f obj) = so_Txn obj
    \<and> acc_Nonce (so_Account (f obj)) = acc_Nonce (so_Account obj)
    \<and> acc_Root (so_Account (f obj)) = acc_Root (so_Account obj)"
  shows "unwritten K s (upsertAccount K a True f s)"
proof -
  let ?s = "upsertAccount K a True f s"
  note obj = getStateObject_upsert [of f K a s, OF conjunct1 [OF assms(2)]]
  have "GetNonce K ?s b = GetNonce K s b" "GetState K ?s b k = GetState K s b k" for b k
    using assms
    by (auto simp: GetNonce_def GetState_def obj StateObject_Copy_def Account_Copy_def newStateObject_def
        Snap_ok_def split: option.split)
  moreover have "GetRefund ?s = GetRefund s" "rx_logs (txn ?s) = rx_logs (txn s)"
    by (auto simp: GetRefund_def upsertAccount_def Insert_def split: option.split)
  ultimately show ?thesis by (simp add: unwritten_def fun_eq_iff)
qed

lemma Transfer_unwritten:
  assumes "Snap_ok (snapshot s)" "Transfer K from to amount s = (e, s')"
  shows "unwritten K s s'"
proof (cases amount)
  case None
  then show ?thesis using assms(2) by (simp add: Transfer_def)
next
  case (Some v)
  show ?thesis
  proof (cases "SubBalance K from v s")
    case (Inl e)
    then show ?thesis using assms(2) Some by (simp add: Transfer_def)
  next
    case (Inr s1)
    have "unwritten K s s1"
      using Inr assms(1) by (auto simp: SubBalance_def upd_Balance_def intro!: upsert_unwritten split: if_splits)
    moreover have "unwritten K s1 (AddBalance K to v s1)"
      using SubBalance_frame [OF Inr] assms(1) by (auto simp: AddBalance_def upd_Balance_def intro!: upsert_unwritten)
    ultimately show ?thesis
      using assms(2) Some Inr by (auto simp: Transfer_def intro: unwritten_trans)
  qed
qed

subsection \<open>Frames\<close>

lemma AllowList_Run_static: "c_Static c \<Longrightarrow> snd (AllowList_Run K A a c s) = s"
  by (auto simp: AllowList_Run_def runInputCall_def Let_def split: option.split)

lemma Precompiled_Run_unwritten:
  assumes "Snap_ok (snapshot s)" "Precompiled_Run K A P c cfg s = (r, s')"
  shows "unwritten K s s'"
  using assms(2)
  by (auto simp: Precompiled_Run_def nativeTransfer_run_def Let_def split: option.splits if_splits prod.splits
      dest: Transfer_unwritten [OF assms(1)])

definition sframe_ok ::
  "Crypto \<Rightarrow> Contract \<Rightarrow> 'c Transition \<Rightarrow> (ExecutionResult \<times> 'c Transition) option \<Rightarrow> bool" where
  "sframe_ok K c t m \<longleftrightarrow> holds m (\<lambda>(r, t'). GasLeft r \<le> c_Gas c \<and> Skeeps K t t')"

lemma sframe_ok_Some: "sframe_ok K c t (Some (r, t')) \<longleftrightarrow> GasLeft r \<le> c_Gas c \<and> Skeeps K t t'"
  by (simp add: sframe_ok_def holds_def)

lemma sframe_okD: "sframe_ok K c t m \<Longrightarrow> \<exists>r t'. m = Some (r, t') \<and> GasLeft r \<le> c_Gas c \<and> Skeeps K t t'"
  by (auto simp: sframe_ok_def dest: holds_SomeD)

lemma Skeeps_state: "keeps K (t_state t) s \<Longrightarrow> unwritten K (t_state t) s \<Longrightarrow> Skeeps K t (t\<lparr>t_state := s\<rparr>)"
  by (simp add: Skeeps_def Tkeeps_state)

lemma run_static:
  assumes "evm_host H (Sinv (env_K E)) (Skeeps (env_K E)) True (c_Depth c)" "Sinv (env_K E) t" "c_Static c"
    and "\<forall>v. c_Value c = Some v \<longrightarrow> in_range v"
  shows "sframe_ok (env_K E) c t (run E H c t)"
proof -
  let ?K = "env_K E"
  have snap: "Snap_ok (snapshot (t_state t))" using assms(2) by (simp add: Sinv_def)
  have allow: "sframe_ok ?K c t (let (r, s) = AllowList_Run ?K (env_A E) a c (t_state t)
      in Some (r, t\<lparr>t_state := s\<rparr>))" for a
  proof -
    obtain r where r: "AllowList_Run ?K (env_A E) a c (t_state t) = (r, t_state t)"
      using AllowList_Run_static [OF assms(3)] by (metis prod.collapse)
    then show ?thesis
      using AllowList_Run_keeps(4) [OF r] by (simp add: sframe_ok_Some Skeeps_refl)
  qed
  have pre: "sframe_ok ?K c t (let (r, s) = Precompiled_Run ?K (env_A E) (env_P E) c (t_config t) (t_state t)
      in Some (r, t\<lparr>t_state := s\<rparr>))"
    using Precompiled_Run_unwritten [OF snap]
    by (auto simp: sframe_ok_Some keeps_def Precompiled_Run_keeps split: prod.split intro!: Skeeps_state)
  have evm: "sframe_ok ?K c t (EVM_Run ?K H t c (t_config t))"
    using evm_host.EVM_Run_ok [OF assms(1,2) _ refl, of "t_config t" ?K] assms(2-4)
    by (auto simp: sframe_ok_Some Tinv_def Sinv_def)
  show ?thesis
    unfolding run_def Let_def
    using allow pre evm by (auto simp: sframe_ok_Some Skeeps_refl Let_def split: option.split)
qed

lemma applyCall_static:
  assumes host: "c_Depth c \<le> 1025 \<Longrightarrow> evm_host H (Sinv (env_K E)) (Skeeps (env_K E)) True (c_Depth c)"
    and inv: "Sinv (env_K E) t" and st: "c_Static c"
    and val: "\<forall>v. c_Value c = Some v \<longrightarrow> in_range v"
  shows "sframe_ok (env_K E) c t (applyCall E H c ct t)"
proof (cases "1025 < c_Depth c")
  case True
  then show ?thesis by (simp add: applyCall_def sframe_ok_Some Skeeps_refl)
next
  case False
  let ?K = "env_K E" and ?s0 = "t_state t"
  have snap: "Snap_ok (snapshot ?s0)" using inv by (simp add: Sinv_def)
  define s1 where "s1 = TouchAccount ?K (c_Address c) (?s0\<lparr>snapshots := snapshots ?s0 @ [txn ?s0]\<rparr>)"
  obtain e s2 where e: "(if ct = Call then Transfer ?K (c_Caller c) (c_Address c) (c_Value c) s1 else (None, s1)) = (e, s2)"
    by (cases "if ct = Call then Transfer ?K (c_Caller c) (c_Address c) (c_Value c) s1 else (None, s1)")
  have s1: "totalSupply ?K s1 = totalSupply ?K ?s0" "snapshot s1 = snapshot ?s0"
    "snapshots s1 = snapshots ?s0 @ [txn ?s0]"
    by (auto simp: s1_def txn_simps intro: supply_cong)
  have s2: "totalSupply ?K s2 = totalSupply ?K s1" "snapshot s2 = snapshot s1" "snapshots s2 = snapshots s1"
    using e val by (auto simp: Transfer_keeps in_range_def split: if_splits)
  have "unwritten ?K ?s0 s1"
    using same_view_unwritten [OF same_view_Touch [OF snap]] by (simp add: s1_def)
  moreover have "unwritten ?K s1 s2"
    using e Transfer_unwritten [of s1 ?K] snap by (auto simp: s1 split: if_splits)
  ultimately have keep: "Skeeps ?K t (t\<lparr>t_state := s2\<rparr>)"
    by (intro Skeeps_state) (auto simp: keeps_def s1 s2 intro: unwritten_trans)
  have call: "applyCall E H c ct t = (case e of
      Some e \<Rightarrow> Some (result_err (c_Gas c) e, t\<lparr>t_state := s2\<rparr>)
    | None \<Rightarrow> do { (result, t) \<leftarrow> run E H c (t\<lparr>t_state := s2\<rparr>);
               (if Failed result then do { t \<leftarrow> revertTo (length (snapshots ?s0)) t; Some (result, t) }
                else Some (result, t)) })"
    unfolding applyCall_def Let_def Snapshot_def prod.case s1_def [symmetric] e using False by simp
  have "sframe_ok ?K c (t\<lparr>t_state := s2\<rparr>) (run E H c (t\<lparr>t_state := s2\<rparr>))"
    using False by (intro run_static host Sinv_Skeeps [OF inv keep] st val) simp
  from sframe_okD [OF this] obtain r2 t2 where
    run: "run E H c (t\<lparr>t_state := s2\<rparr>) = Some (r2, t2)" "GasLeft r2 \<le> c_Gas c" "Skeeps ?K (t\<lparr>t_state := s2\<rparr>) t2" by auto
  have t2: "Tkeeps ?K (t\<lparr>t_state := s2\<rparr>) t2" using run(3) by (simp add: Skeeps_def)
  from revertTo_ok [OF t2, of ?s0] obtain t3 where
    t3: "revertTo (length (snapshots ?s0)) t2 = Some t3" "Tkeeps ?K t t3" by (auto simp: s1 s2)
  then have "\<exists>t3. revertTo (length (snapshots ?s0)) t2 = Some t3 \<and> Skeeps ?K t t3"
    using revertTo_exact [OF t2 _ _ t3(1)] by (auto simp: Skeeps_def s1 s2 intro: same_view_unwritten)
  then show ?thesis
    using keep run Skeeps_trans [OF keep run(3)]
    by (auto simp: call sframe_ok_Some split: option.split)
qed

subsection \<open>The host\<close>

lemma host_with_static:
  assumes "\<And>t c. Sinv (env_K E) t \<Longrightarrow> c_Depth c = d + 1 \<Longrightarrow> c_Static c \<Longrightarrow> c_Type c \<noteq> Create
    \<Longrightarrow> (\<And>v. c_Value c = Some v \<Longrightarrow> in_range v) \<Longrightarrow> sframe_ok (env_K E) c t (callx t c)"
  shows "evm_host (host_with E callx) (Sinv (env_K E)) (Skeeps (env_K E)) True d"
proof
  let ?K = "env_K E" and ?H = "host_with E callx"
  have code: "Sinv ?K (t\<lparr>t_state := s\<rparr>) \<and> Skeeps ?K t (t\<lparr>t_state := s\<rparr>)"
    if "Sinv ?K t" "GetCode ?K (env_L E) (t_state t) a = (cd, s)" for t :: "'a Transition" and a cd s
  proof -
    note g = GetCode_keeps [OF that(2)]
    have "Skeeps ?K t (t\<lparr>t_state := s\<rparr>)"
      by (intro Skeeps_state keeps_balances same_view_unwritten same_view_txn g)
    with Sinv_Skeeps [OF that(1)] show ?thesis by blast
  qed
  show "Skeeps ?K t t" for t :: "'a Transition" by (rule Skeeps_refl)
  show "Skeeps ?K t1 t3" if "Skeeps ?K t1 t2" "Skeeps ?K t2 t3" for t1 t2 t3 :: "'a Transition"
    using that by (rule Skeeps_trans)
  show "in_range (h_GetBalance ?H t a)" if "Sinv ?K t" for t a
    using that by (simp add: host_with_def balance_in_range Sinv_def)
  show "in_range (Timestamp (h_GetTxContext ?H t)) \<and> in_range (Number (h_GetTxContext ?H t))
      \<and> in_range (GasLimit (h_GetTxContext ?H t))" if "Sinv ?K t" for t
    using that by (simp add: host_with_def Sinv_def Tinv_def ctx_ok_def)
  show "Sinv ?K t' \<and> Skeeps ?K t t'" if "Sinv ?K t" "h_GetCode ?H t a = (cd, t')" for t a cd t'
    using that code by (auto simp: host_with_def split: prod.splits)
  show "Sinv ?K t' \<and> Skeeps ?K t t'" if "Sinv ?K t" "h_GetCodeSize ?H t a = (n, t')" for t a n t'
    using that code by (auto simp: host_with_def GetCodeSize_def split: prod.splits)
  show "\<exists>r t'. h_Callx ?H t c = Some (r, t') \<and> GasLeft r \<le> c_Gas c \<and> Sinv ?K t' \<and> Skeeps ?K t t'"
    if "Sinv ?K t" "c_Depth c = d + 1"
      "True \<Longrightarrow> c_Static c \<and> c_Type c \<noteq> Create \<and> (c_Type c = Call \<longrightarrow> c_Value c = Some 0)"
      "\<And>v. c_Value c = Some v \<Longrightarrow> in_range v" for t c
    using sframe_okD [OF assms [OF that(1,2) _ _ that(4)]] that(3) Sinv_Skeeps [OF that(1)]
    by (auto simp: host_with_def)
qed simp_all

lemma Transition_host_static:
  "1025 - int n \<le> d \<Longrightarrow> evm_host (Transition_host E (Suc n)) (Sinv (env_K E)) (Skeeps (env_K E)) True d"
proof (induction n arbitrary: d)
  case 0
  then show ?case
    unfolding Transition_host.simps(2)
    by (intro host_with_static) (auto simp: Callx_def intro!: applyCall_static)
next
  case (Suc n)
  then show ?case
    unfolding Transition_host.simps(2) [of E "Suc n"]
    by (intro host_with_static) (auto simp: Callx_def simp del: Transition_host.simps intro!: applyCall_static Suc.IH)
qed

text \<open>The executor implements the contract for frames that must not write.\<close>

interpretation static_transition: evm_host "Transition_host E (Suc n)" "Sinv (env_K E)" "Skeeps (env_K E)"
  True "1025 - int n" for E n
  by (rule Transition_host_static) simp

text \<open>C4. A static call writes nothing: a call frame marked static, at any depth and with any code, returns,
  and every storage slot and nonce of every account, the logs and the refund counter are as they were,
  whatever the frame and the frames it opens in turn try to do.\<close>

theorem static_call_writes_nothing:
  assumes "Tinv (env_K E) t" "Snap_ok (snapshot (t_state t))" "c_Static c" "1025 - int n \<le> c_Depth c"
    and "\<forall>v. c_Value c = Some v \<longrightarrow> in_range v"
  shows "\<exists>r t'. applyCall E (Transition_host E (Suc n)) c StaticCall t = Some (r, t')
    \<and> (\<forall>a. GetNonce (env_K E) (t_state t') a = GetNonce (env_K E) (t_state t) a)
    \<and> (\<forall>a k. GetState (env_K E) (t_state t') a k = GetState (env_K E) (t_state t) a k)
    \<and> rx_logs (txn (t_state t')) = rx_logs (txn (t_state t)) \<and> GetRefund (t_state t') = GetRefund (t_state t)"
proof -
  have "sframe_ok (env_K E) c t (applyCall E (Transition_host E (Suc n)) c StaticCall t)"
    using assms by (intro applyCall_static Transition_host_static) (simp_all add: Sinv_def)
  from sframe_okD [OF this] show ?thesis
    by (auto simp: Skeeps_def unwritten_def)
qed

theorem static_call_writes_nothing_witness:
  "\<exists>r t'. applyCall demo_env (Transition_host demo_env (Suc 1024))
      ((NewContract 1 1 1 2 None 50000 [0x60, 1, 0x60, 0, 0x55])\<lparr>c_Static := True\<rparr>) StaticCall demo_block = Some (r, t')
    \<and> GetState (env_K demo_env) (t_state t') 2 0 = GetState (env_K demo_env) (t_state demo_block) 2 0"
proof -
  have "Snap_ok (snapshot (t_state demo_block))"
    by (simp add: Snap_ok_def demo_block_def BeginTxn_def newTxn_def demo_snap_def)
  then show ?thesis
    using static_call_writes_nothing [OF demo_Tinv, of "(NewContract 1 1 1 2 None 50000 [0x60, 1, 0x60, 0, 0x55])\<lparr>c_Static := True\<rparr>" 1024]
    by (auto simp: NewContract_def)
qed

text \<open>The native transfer precompile does not honour a static frame: called from the native token contract
  it moves the amount between the two accounts of its input although the frame is static.\<close>

theorem native_transfer_ignores_static:
  assumes "c_Static c" "c_CodeAddress c = NativeTransferPrecompile" "c_Caller c = NativeERC20TokenContract"
    and "21000 \<le> c_Gas c" "c_Input c = be_bytes 32 (uint from) @ be_bytes 32 (uint to) @ be_bytes 32 v"
    and "0 < v" "v < 2 ^ 256" "v \<le> GetBalance K s from" "from \<noteq> to"
  shows "let (r, s') = Precompiled_Run K A P c cfg s in Err r = None
    \<and> GetBalance K s' from = GetBalance K s from - v \<and> GetBalance K s' to = GetBalance K s to + v"
proof -
  have addr: "BytesToAddress (be_bytes 32 (uint (a :: address))) = a" for a
  proof -
    have "uint a < 256 ^ 32" using uint_lt2p [of a] by simp
    then show ?thesis by (simp add: BytesToAddress_def big_SetBytes_be_bytes)
  qed
  have amount: "big_SetBytes (be_bytes 32 v) = v"
    using assms(6,7) by (simp add: big_SetBytes_be_bytes)
  obtain s1 where s1: "SubBalance K from v s = Inr s1"
    using assms(6,8) by (auto simp: SubBalance_def)
  have "Transfer K from to (Some v) s = (None, AddBalance K to v s1)"
    by (simp add: Transfer_def s1)
  then have "Precompiled_Run K A P c cfg s = (\<lparr> ReturnValue = abi_bool A True, GasLeft = c_Gas c - 21000,
      GasUsed = 0, Err = None, ResAddress = 0 \<rparr>, AddBalance K to v s1)"
    using assms(2-5)
    by (simp add: Precompiled_Run_def nativeTransfer_gas_def nativeTransfer_run_def addr amount Failed_def Let_def
        not_less)
  then show ?thesis
    using assms(6,9) by (simp add: GetBalance_AddBalance GetBalance_SubBalance [OF s1])
qed

theorem native_transfer_ignores_static_witness:
  "GetBalance (env_K demo_env) (snd (Precompiled_Run (env_K demo_env) (env_A demo_env) (env_P demo_env)
      ((NewContract 2 1 NativeERC20TokenContract NativeTransferPrecompile (Some 0) 30000 [])
        \<lparr>c_Static := True, c_Input := be_bytes 32 (uint (1 :: address)) @ be_bytes 32 (uint (2 :: address)) @ be_bytes 32 5\<rparr>)
      (t_config demo_block) (t_state demo_block))) 2 = 5"
proof -
  let ?c = "(NewContract 2 1 NativeERC20TokenContract NativeTransferPrecompile (Some 0) 30000 [])
        \<lparr>c_Static := True, c_Input := be_bytes 32 (uint (1 :: address)) @ be_bytes 32 (uint (2 :: address)) @ be_bytes 32 5\<rparr>"
  show ?thesis
    using native_transfer_ignores_static [of ?c 1 2 5 "env_K demo_env" "t_state demo_block" "env_A demo_env"
        "env_P demo_env" "t_config demo_block"]
    by (simp add: NewContract_def demo_balance split: prod.splits)
qed

end
