(* ===== verification/EvmProps.thy ===== *)
theory EvmProps
  imports EvmSafetyRun
begin

text \<open>
  Memory and gas of the virtual machine: a word that \<open>MSTORE\<close> writes is the word that \<open>MLOAD\<close> reads,
  memory is paid for exactly once and at the quadratic price, and a call passes on all but a 64th of
  the gas.
\<close>

subsection \<open>Storing a word\<close>

lemma mstore_limb_nth:
  assumes "j \<le> i" "i \<le> length buf" "mstore_limb j d i buf = Some (i', buf')" "k < length buf"
  shows "buf' ! k = (if i - j \<le> k \<and> k < i then ucast (drop_bit (8 * (i - 1 - k)) d) else buf ! k)"
  using assms
proof (induction j arbitrary: d i buf)
  case (Suc j)
  then obtain m where i: "i = Suc m" by (cases i) auto
  have IH: "buf' ! k = (if m - j \<le> k \<and> k < m then ucast (drop_bit (8 * (m - 1 - k)) (drop_bit 8 d))
      else buf[m := ucast d] ! k)"
    using Suc.prems by (intro Suc.IH) (simp_all add: i)
  have "8 * (m - 1 - k) + 8 = 8 * (m - k)" if "k < m" using that by simp
  then show ?case
    using IH Suc.prems by (auto simp: i drop_bit_drop_bit nth_list_update not_less le_Suc_eq)
qed auto

lemma ucast_limb:
  assumes "e < 8"
  shows "ucast (drop_bit (8 * e) (of_nat (n mod 2 ^ 64) :: uint64)) = (of_nat (n div 256 ^ e) :: byte)"
proof -
  have "unat (of_nat (n mod 2 ^ 64) :: uint64) = n mod 2 ^ 64"
    by (simp add: unat_of_nat take_bit_eq_mod)
  then have "unat (drop_bit (8 * e) (of_nat (n mod 2 ^ 64) :: uint64)) = n mod 2 ^ 64 div 2 ^ (8 * e)"
    by (simp only: unat_drop_bit_eq) (simp only: drop_bit_eq_div)
  also have "\<dots> = n div 2 ^ (8 * e) mod 2 ^ (64 - 8 * e)"
    using take_bit_drop_bit [of "64 - 8 * e" "8 * e" n] drop_bit_take_bit [of "8 * e" 64 n] assms
    by (simp add: take_bit_eq_mod drop_bit_eq_div)
  finally have "unat (drop_bit (8 * e) (of_nat (n mod 2 ^ 64) :: uint64)) mod 2 ^ 8 = n div 2 ^ (8 * e) mod 2 ^ 8"
    using mod_mod_cancel [OF le_imp_power_dvd [of 8 "64 - 8 * e" "2 :: nat"], of "n div 2 ^ (8 * e)"] assms by simp
  then show ?thesis
    by (simp add: word_unat_eq_iff unsigned_ucast_eq unat_of_nat take_bit_eq_mod power_mult)
qed

lemma mstore_limbs_nth:
  assumes "8 * length (big_limbs n) \<le> i" "i \<le> length buf" "mstore_limbs (big_limbs n) i buf = Some (i', buf')"
    and "k < length buf"
  shows "buf' ! k = (if i' \<le> k \<and> k < i then of_nat (n div 256 ^ (i - 1 - k)) else buf ! k)"
  using assms
proof (induction n arbitrary: i buf rule: big_limbs.induct)
  case (1 n)
  show ?case
  proof (cases "n = 0")
    case True
    then show ?thesis using "1.prems" by (auto simp: big_limbs.simps)
  next
    case False
    then have bl: "big_limbs n = of_nat (n mod 2 ^ 64) # big_limbs (n div 2 ^ 64)"
      by (subst big_limbs.simps) simp
    then have i8: "8 \<le> i" using "1.prems" by simp
    obtain b1 where b1: "mstore_limb 8 (of_nat (n mod 2 ^ 64)) i buf = Some (i - 8, b1)" "length b1 = length buf"
      using mstore_limb_total [OF i8] by blast
    have rest: "mstore_limbs (big_limbs (n div 2 ^ 64)) (i - 8) b1 = Some (i', buf')"
      using "1.prems" bl b1 by simp
    have le: "8 * length (big_limbs (n div 2 ^ 64)) \<le> i - 8" using "1.prems" bl by simp
    have i': "i' \<le> i - 8" using mstore_limbs_total [OF le, of b1] rest by auto
    have b: "b1 ! k = (if i - 8 \<le> k \<and> k < i then of_nat (n div 256 ^ (i - 1 - k)) else buf ! k)"
      using mstore_limb_nth [OF i8 _ b1(1), of k] ucast_limb [of "i - 1 - k" n] "1.prems" by auto
    have IH: "buf' ! k = (if i' \<le> k \<and> k < i - 8 then of_nat (n div 2 ^ 64 div 256 ^ (i - 8 - 1 - k)) else b1 ! k)"
      using "1.prems" by (intro "1.IH" [OF False le _ rest]) (simp_all add: b1(2))
    have "n div 2 ^ 64 div 256 ^ (i - 8 - 1 - k) = n div 256 ^ (i - 1 - k)" if "k < i - 8"
    proof -
      have "(2 ^ 64 :: nat) * 256 ^ (i - 8 - 1 - k) = 256 ^ (8 + (i - 8 - 1 - k))"
        by (simp add: power_add)
      also have "8 + (i - 8 - 1 - k) = i - 1 - k" using that by simp
      finally show ?thesis by (simp only: div_mult2_eq [symmetric])
    qed
    then show ?thesis using IH b i' by auto
  qed
qed

lemma limbs_val_less: "limbs_val ds < 2 ^ (64 * length ds)"
proof (induction ds)
  case (Cons d ds)
  have "unat d < 2 ^ 64" using unsigned_less [of d] by simp
  moreover have "2 ^ 64 * limbs_val ds \<le> 2 ^ 64 * (2 ^ (64 * length ds) - 1)"
    using Cons by (intro mult_le_mono2) simp
  moreover have "2 ^ 64 * (2 ^ (64 * length ds) - 1) + 2 ^ 64 = (2 :: nat) ^ (64 * length (d # ds))"
    by (simp add: power_add diff_mult_distrib2)
  ultimately show ?case by (simp del: length_Cons)
qed simp

lemma mstore_zeros_nth: "k < length buf \<Longrightarrow> mstore_zeros i buf ! k = (if k < i then 0 else buf ! k)"
  by (induction i arbitrary: buf) (auto simp: nth_list_update less_Suc_eq)

lemma mstore_buf_bytes:
  assumes "length buf = 32"
  shows "mstore_buf (uint (v :: hash)) buf = Some (be_bytes 32 (uint v))"
proof -
  let ?n = "unat v"
  have n: "nat \<bar>uint v\<bar> = ?n" by simp
  have lt: "?n < 2 ^ (64 * 4)" using unsigned_less [of v] by simp
  then have len: "8 * length (big_limbs ?n) \<le> 32" using length_big_limbs [of ?n 4] by simp
  then obtain b where b: "mstore_limbs (big_limbs ?n) 32 buf = Some (32 - 8 * length (big_limbs ?n), b)"
    "length b = length buf" using mstore_limbs_total by blast
  let ?i = "32 - 8 * length (big_limbs ?n)"
  have small: "?n div 256 ^ (31 - k) = 0" if "k < ?i" for k
  proof -
    have "?n < 2 ^ (64 * length (big_limbs ?n))"
      using limbs_val_less [of "big_limbs ?n"] by (simp add: limbs_val_big_limbs)
    also have "\<dots> \<le> 2 ^ (8 * (31 - k))" using that by (intro power_increasing) auto
    finally show ?thesis by (simp add: power_mult)
  qed
  have "mstore_zeros ?i b ! k = be_bytes 32 (uint v) ! k" if "k < 32" for k
  proof -
    have "uint v div 256 ^ (31 - k) = int (?n div 256 ^ (31 - k))" by (simp add: zdiv_int)
    then have "be_bytes 32 (uint v) ! k = (of_nat (?n div 256 ^ (31 - k)) :: byte)"
      using that by (simp add: be_bytes_def rev_nth del: of_nat_div)
    then show ?thesis
      using that mstore_limbs_nth [OF len _ b(1), of k] small [of k] b(2) assms
      by (auto simp: mstore_zeros_nth)
  qed
  then have "mstore_zeros ?i b = be_bytes 32 (uint v)"
    using b(2) assms by (intro nth_equalityI) (simp_all add: be_bytes_def)
  then show ?thesis
    by (simp add: mstore_buf_def big_Bits_def n b)
qed

lemma allocateMemory_True:
  assumes "length (memory c) \<le> mem_bound" "allocateMemory offset sz c = (True, c')" "sz \<noteq> 0"
  shows "big_IsUint64 offset" "big_IsUint64 sz" "big_Uint64 offset \<le> 0xffffffffe0" "big_Uint64 sz \<le> 0xffffffffe0"
    "unat (big_Uint64 offset) + unat (big_Uint64 sz) \<le> length (memory c')" "length (memory c') \<le> mem_bound"
    "stack c' = stack c"
proof -
  let ?o = "big_Uint64 offset" and ?s = "big_Uint64 sz"
  show r: "big_IsUint64 offset" "big_IsUint64 sz" "?o \<le> 0xffffffffe0" "?s \<le> 0xffffffffe0"
    using assms(2,3) by (auto simp: allocateMemory_def not_less Let_def split: if_splits)
  note w = alloc_words [OF r(3,4)]
  have "\<not> of_nat (length (memory c)) < ?o + ?s \<Longrightarrow> unat ?o + unat ?s \<le> length (memory c)"
    using unat_memory_length [OF assms(1)] by (simp add: word_less_nat_alt w(1))
  then show "unat ?o + unat ?s \<le> length (memory c')" "length (memory c') \<le> mem_bound" "stack c' = stack c"
    using assms(1-3) r w
    by (auto simp: allocateMemory_def Let_def consumeGas_def split: if_splits)
qed

lemma allocateMemory_within:
  assumes "length (memory c) \<le> mem_bound" "big_IsUint64 offset" "big_IsUint64 sz"
    and "big_Uint64 offset \<le> 0xffffffffe0" "big_Uint64 sz \<le> 0xffffffffe0"
    and "unat (big_Uint64 offset) + unat (big_Uint64 sz) \<le> length (memory c)"
  shows "allocateMemory offset sz c = (True, c)"
  using assms unat_memory_length [OF assms(1)] alloc_words(1) [OF assms(4,5)]
  by (auto simp: allocateMemory_def Let_def word_less_nat_alt word_le_nat_alt not_less)

text \<open>C9. What \<open>MSTORE\<close> writes \<open>MLOAD\<close> reads: after a store of the 256-bit word \<open>v\<close> at an offset, done limb
  by limb into the memory slice, a load from the same offset pushes \<open>v\<close>, and the load allocates nothing and
  costs no memory gas.\<close>

theorem mstore_mload:
  assumes "length (memory c) \<le> mem_bound" "stack c = offset # uint (v :: hash) # vs" "\<not> stop c"
    and "opMStore c = Some c1" "\<not> stop c1"
  shows "opMload (c1\<lparr>stack := offset # stack c1\<rparr>) = Some (c1\<lparr>stack := uint v # stack c1\<rparr>)"
proof -
  let ?c = "c\<lparr>stack := vs\<rparr>" and ?o = "unat (big_Uint64 offset)"
  obtain ok c' where al: "allocateMemory offset 32 ?c = (ok, c')" by fastforce
  have step: "opMStore c = (if \<not> ok then Some c' else do {
      buf \<leftarrow> slice (memory c') ?o (?o + 32); buf' \<leftarrow> mstore_buf (uint v) buf;
      Some (c'\<lparr>memory := overwrite (memory c') ?o buf'\<rparr>) })"
    using assms(2) al by (simp add: opMStore_def popv_def pop_def Let_def)
  have "stop c'" if "\<not> ok"
    using al that assms(3) by (auto simp: allocateMemory_def exit_def Let_def split: if_splits prod.splits)
  with step assms(4,5) have ok: "ok" by (cases ok) auto
  note a = allocateMemory_True [OF _ al [unfolded ok [THEN eqTrueI]]]
  have u32: "unat (big_Uint64 32) = 32" "big_IsUint64 32" by (simp_all add: big_Uint64_def big_IsUint64_def)
  have len: "?o + 32 \<le> length (memory c')" "length (memory c') \<le> mem_bound"
    using a(5,6) assms(1) u32 by simp_all
  then obtain buf where buf: "slice (memory c') ?o (?o + 32) = Some buf" "length buf = 32"
    by (auto simp: slice_def)
  let ?m = "overwrite (memory c') ?o (be_bytes 32 (uint v))"
  have c1: "c1 = c'\<lparr>memory := ?m\<rparr>"
    using step ok assms(4) buf mstore_buf_bytes [OF buf(2), of v] by simp
  have m: "length ?m = length (memory c')" "take 32 (drop ?o ?m) = be_bytes 32 (uint v)"
    using len(1) by (simp_all add: overwrite_def)
  let ?c1 = "c1\<lparr>stack := stack c1\<rparr>"
  have "allocateMemory offset 32 ?c1 = (True, ?c1)"
    using a(1-4) assms(1) len m(1) u32 by (intro allocateMemory_within) (simp_all add: c1)
  moreover have "unat (big_Uint64 offset + big_Uint64 32) = ?o + 32"
    using alloc_words(1) [OF a(3) a(4)] assms(1) u32 by simp
  moreover have "big_SetBytes (be_bytes 32 (uint v)) = uint v"
    using uint_hash_less [of v] by (simp add: big_SetBytes_be_bytes)
  ultimately show ?thesis
    using len m by (simp add: opMload_def popv_def pop_def get2_def push_def slice_def c1)
qed

theorem mstore_mload_witness:
  "\<exists>c1. opMStore (fresh\<lparr>stack := [64, uint (0x1234 :: hash)]\<rparr>) = Some c1
    \<and> opMload (c1\<lparr>stack := 64 # stack c1\<rparr>) = Some (c1\<lparr>stack := uint (0x1234 :: hash) # stack c1\<rparr>)"
proof -
  let ?c = "fresh\<lparr>stack := [64, uint (0x1234 :: hash)]\<rparr>"
  have al: "allocateMemory 64 32 (fresh\<lparr>stack := []\<rparr>) = (True, fresh\<lparr>lastGasCost := 9, gas := 991,
      currentConsumedGas := 9, memory := replicate 96 0\<rparr>)"
    by (simp add: allocateMemory_def acquireState_def big_IsUint64_def big_Uint64_def memory_cost_def
        consumeGas_def NewContract_def ExtendByteSlice_def del: replicate.simps)
  have "slice (replicate 96 (0 :: byte)) 64 96 = Some (replicate 32 0)"
    by (simp add: slice_def del: replicate.simps)
  then obtain c1 where c1: "opMStore ?c = Some c1" "\<not> stop c1"
    using al mstore_buf_bytes [of "replicate 32 0" "0x1234"]
    by (simp add: opMStore_def popv_def pop_def big_Uint64_def acquireState_def del: replicate.simps)
  then show ?thesis
    using mstore_mload [of ?c 64 "0x1234" "[]" c1] by (auto simp: acquireState_def)
qed

subsection \<open>The price of memory\<close>

definition mem_price :: "nat \<Rightarrow> nat" where
  "mem_price words = 3 * words + words * words div 512"

lemma memory_cost_exact: "unat w < 2 ^ 32 \<Longrightarrow> unat (memory_cost w) = mem_price (unat w)"
proof -
  assume w: "unat w < 2 ^ 32"
  have sq: "unat (w * w) = unat w * unat w"
    using mult_strict_mono [OF w w] by (intro unat_mult_lem [THEN iffD1]) simp
  have "unat w * unat w div 512 \<le> 2 ^ 55"
    using mult_strict_mono [OF w w] by simp
  moreover have "unat (3 * w) = 3 * unat w"
    using w unat_mult_lem [of 3 w] by simp
  ultimately have "unat (3 * w + w * w div 512) = unat (3 * w) + unat (w * w div 512)"
    using w by (intro unat_plus) (simp add: unat_div sq)
  with \<open>unat (3 * w) = 3 * unat w\<close> show ?thesis
    by (simp add: memory_cost_def mem_price_def unat_div sq)
qed

lemma mem_price_mono: "m \<le> n \<Longrightarrow> mem_price m \<le> mem_price n"
  by (auto simp: mem_price_def intro!: add_mono mult_le_mono div_le_mono)

text \<open>The memory of a frame has been paid for: it is a whole number of words and the last cost is theirs.\<close>

definition mem_paid :: "'h state \<Rightarrow> bool" where
  "mem_paid c \<longleftrightarrow> 32 dvd length (memory c) \<and> unat (lastGasCost c) = mem_price (length (memory c) div 32)"

text \<open>C8. Memory is paid for exactly: a successful allocation keeps the contents, appends zero bytes up to
  the whole word that covers the range, never shrinks the memory, and takes from the gas exactly the
  difference of the prices \<open>3 w + w\<^sup>2 / 512\<close> of the new and the old number of words, as long as the
  range ends by \<open>2 ^ 37 - 32\<close>, where the 64-bit square does not wrap.\<close>

theorem allocateMemory_exact:
  assumes "mem_paid c" "length (memory c) \<le> mem_bound" "allocateMemory offset sz c = (True, c')"
    and "sz \<noteq> 0" "offset + sz \<le> 2 ^ 37 - 32"
  shows "mem_paid c' \<and> unat (gas c) = unat (gas c')
        + (mem_price (length (memory c') div 32) - mem_price (length (memory c) div 32))
    \<and> memory c' = memory c @ replicate (length (memory c') - length (memory c)) 0
    \<and> length (memory c') = max (length (memory c)) ((nat (offset + sz) + 31) div 32 * 32)"
proof -
  let ?o = "big_Uint64 offset" and ?s = "big_Uint64 sz" and ?n = "length (memory c)"
  note a = allocateMemory_True [OF assms(2,3,4)]
  note w = alloc_words [OF a(3,4)]
  have n: "unat ?o + unat ?s = nat (offset + sz)"
    using a(1,2) by (simp add: unat_big_Uint64 nat_add_distrib big_IsUint64_def)
  let ?w = "(?o + ?s + 31) div 32" and ?W = "(nat (offset + sz) + 31) div 32"
  have W: "unat ?w = ?W" "unat (?w * 32) = ?W * 32" using w(2,5) n by simp_all
  have small: "unat ?w < 2 ^ 32"
    using assms(5) unfolding W by (intro less_mult_imp_div_less) simp
  have cmp: "of_nat ?n < ?o + ?s \<longleftrightarrow> ?n < nat (offset + sz)"
    using unat_memory_length [OF assms(2)] by (simp add: word_less_nat_alt w(1) n)
  have paid: "?n = ?n div 32 * 32" "unat (lastGasCost c) = mem_price (?n div 32)"
    using assms(1) by (simp_all add: mem_paid_def)
  show ?thesis
  proof (cases "?n < nat (offset + sz)")
    case False
    obtain k where k: "?n = 32 * k" using assms(1) by (auto simp: mem_paid_def)
    with False have "?W \<le> (32 * k + 31) div 32" by (intro div_le_mono) simp
    then have "?W * 32 \<le> ?n" using k by simp
    moreover have "c' = c" using assms(3,4) a cmp False by (simp add: allocateMemory_def Let_def not_less split: if_splits)
    ultimately show ?thesis using assms(1) by simp
  next
    case True
    then have le: "?n div 32 \<le> ?W" "?n \<le> ?W * 32" using paid(1) by linarith+
    let ?cost = "memory_cost ?w - lastGasCost c"
    have cost: "unat (memory_cost ?w) = mem_price ?W" using memory_cost_exact [OF small] W by simp
    then have "unat ?cost = mem_price ?W - mem_price (?n div 32)"
      using paid(2) mem_price_mono [OF le(1)] by (simp add: unat_sub word_le_nat_alt)
    moreover have c': "\<not> gas c < ?cost" "c' = c\<lparr>lastGasCost := memory_cost ?w,
        currentConsumedGas := currentConsumedGas c + ?cost, gas := gas c - ?cost,
        memory := ExtendByteSlice (memory c) (?W * 32)\<rparr>"
      using assms(3,4) a cmp True W by (auto simp: allocateMemory_def Let_def consumeGas_def split: if_splits)
    ultimately show ?thesis
      using cost le by (simp add: mem_paid_def ExtendByteSlice_def unat_sub not_less word_le_nat_alt)
  qed
qed

theorem allocateMemory_exact_witness:
  "\<exists>c'. allocateMemory 64 32 fresh = (True, c') \<and> unat (gas fresh) = unat (gas c') + 9"
proof -
  let ?c = "fresh\<lparr>lastGasCost := 9, gas := 991, currentConsumedGas := 9, memory := replicate 96 0\<rparr>"
  have paid: "mem_paid fresh" by (simp add: mem_paid_def acquireState_def mem_price_def)
  have al: "allocateMemory 64 32 fresh = (True, ?c)"
    by (simp add: allocateMemory_def acquireState_def big_IsUint64_def big_Uint64_def memory_cost_def
        consumeGas_def NewContract_def ExtendByteSlice_def del: replicate.simps)
  have "length (memory fresh) = 0" "length (memory ?c) = 96"
    by (simp_all add: acquireState_def del: replicate.simps)
  with allocateMemory_exact [OF paid _ al] have "unat (gas fresh) = unat (gas ?c) + (mem_price 3 - mem_price 0)"
    by (simp only: numeral_eq_iff) simp
  then show ?thesis using al by (simp add: mem_price_def)
qed

subsection \<open>The gas of a call\<close>

text \<open>C7. All but one 64th: under EIP-150 the gas of a call instruction, when the frame can pay the sum of
  its cost and the gas passed on, is the smaller of the requested amount and 63/64 of what is left after the
  cost; nothing wraps, although the source subtracts and adds in 64 bits without checks, and the caller
  keeps at least a 64th.\<close>

theorem call_gas_all_but_one_64th:
  assumes "EIP150 (config c)" "call_gas (config c) (gas c) (call_gasCost H op c addr tv) initialGas = Some g"
    and "consumeGas (call_gasCost H op c addr tv + g) c = (True, c')" "0 \<le> initialGas"
  shows "let cost = unat (call_gasCost H op c addr tv); available = unat (gas c) - cost in
      unat (gas c) = unat (gas c') + cost + unat g
    \<and> unat g = min (nat initialGas) (available - available div 64) \<and> available div 64 \<le> unat (gas c')"
proof -
  let ?k = "call_gasCost H op c addr tv"
  have le: "?k + g \<le> gas c" and gas': "gas c' = gas c - (?k + g)"
    using assms(3) by (auto simp: consumeGas_def Let_def not_less split: if_splits)
  have fits: "unat ?k + unat g \<le> unat (gas c)"
    by (rule call_gas_sum [OF assms(1,2) call_gasCost_bounds(2) [OF assms(1)] le])
  then have sum: "unat (?k + g) = unat ?k + unat g" by (rule unat_add_below)
  define av where "av = gas c - ?k"
  have av: "unat av = unat (gas c) - unat ?k"
    using fits by (simp add: av_def unat_sub word_le_nat_alt)
  have av64: "unat (av - av div 64) = unat av - unat av div 64"
    by (simp add: unat_sub word_le_nat_alt unat_div)
  have g: "g = (if \<not> big_IsUint64 initialGas \<or> av - av div 64 < big_Uint64 initialGas then av - av div 64
      else big_Uint64 initialGas)"
    using assms(1,2) by (simp add: call_gas_def Let_def av_def [symmetric])
  have min: "unat g = min (nat initialGas) (unat av - unat av div 64)"
  proof (cases "big_IsUint64 initialGas")
    case True
    then show ?thesis by (simp add: g word_less_nat_alt av64 unat_big_Uint64)
  next
    case False
    then have "2 ^ 64 \<le> nat initialGas"
      using assms(4) by (simp add: big_IsUint64_def not_less le_nat_iff)
    moreover have "unat av < 2 ^ 64" using unsigned_less [of av] by simp
    ultimately show ?thesis using False by (simp add: g av64)
  qed
  have rest: "unat (gas c') = unat (gas c) - unat ?k - unat g"
    using le by (simp add: gas' unat_sub sum)
  have "unat av div 64 \<le> unat av" by simp
  moreover have "unat g \<le> unat av - unat av div 64" unfolding min by simp
  ultimately have "unat av div 64 \<le> unat (gas c')"
    using rest av by linarith
  moreover have "unat (gas c) = unat (gas c') + unat ?k + unat g"
    using rest fits by linarith
  ultimately show ?thesis
    using min unfolding Let_def av by blast
qed

text \<open>Asking for more gas than there is, with 64000 gas.\<close>

theorem call_gas_all_but_one_64th_witness:
  "\<exists>c'. consumeGas (700 + 62311) (fresh\<lparr>gas := 64000\<rparr>) = (True, c') \<and> 64000 = unat (gas c') + 700 + 62311"
proof -
  let ?c = "fresh\<lparr>gas := 64000\<rparr>"
  have k: "call_gasCost undefined STATICCALL ?c 0 False = 700"
    by (simp add: call_gasCost_def acquireState_def STATICCALL_def CALL_def)
  moreover have "call_gas (config ?c) (gas ?c) 700 100000 = Some 62311"
    by (simp add: call_gas_def acquireState_def big_IsUint64_def big_Uint64_def)
  moreover obtain c' where "consumeGas (700 + 62311) ?c = (True, c')"
    by (simp add: consumeGas_def)
  ultimately show ?thesis
    using call_gas_all_but_one_64th [of ?c undefined STATICCALL 0 False 100000 62311 c']
    by (simp add: acquireState_def)
qed



end
