(* ===== verification/Rlp.thy ===== *)
theory Rlp
  imports Types
begin

text \<open>
  The RLP encodings of \<^verbatim>\<open>types/rlp_marshal.go\<close>, \<^verbatim>\<open>types/rlp_unmarshal.go\<close> and their storage variants:
  transactions, logs, receipts, headers, bodies and blocks are turned into trees of byte strings and
  arrays and read back.

  The trees and their byte format belong to the \<^verbatim>\<open>fastrlp\<close> library, which is a parameter: \<open>'a\<close> are the
  values that an \<^verbatim>\<open>Arena\<close> builds, \<open>'v\<close> those that a \<^verbatim>\<open>Parser\<close> returns. An array and the \<^verbatim>\<open>Set\<close> calls that
  fill it are one constructor applied to the list of its elements. The arrays \<^verbatim>\<open>Hash\<close>, \<^verbatim>\<open>Address\<close> and
  \<^verbatim>\<open>Nonce\<close> are big-endian words.

  A decoder changes the object it is called on; here it takes the object and returns the changed one.
  Its errors are values; \<open>IndexOutOfRange\<close> is the run-time panic of an index beyond a slice.
\<close>

record ('a, 'v) Codec =
  NewUint :: "uint64 \<Rightarrow> 'a"
  NewBigInt :: "int \<Rightarrow> 'a"
  NewBytes :: "byte list \<Rightarrow> 'a"
  NewBool :: "bool \<Rightarrow> 'a"
  NewNull :: 'a
  NewNullArray :: 'a
  NewArray :: "'a list \<Rightarrow> 'a"
  MarshalTo :: "'a \<Rightarrow> byte list"
  Parse :: "byte list \<Rightarrow> 'v option"
  IsTypeBytes :: "'v \<Rightarrow> bool"
  ElemsOf :: "'v \<Rightarrow> nat"
  LenOf :: "'v \<Rightarrow> nat"
  GetElems :: "'v \<Rightarrow> 'v list option"
  BytesOf :: "'v \<Rightarrow> byte list option"
  GetBytes :: "'v \<Rightarrow> byte list option"
  GetBytesN :: "'v \<Rightarrow> nat \<Rightarrow> byte list option"
  GetHashOf :: "'v \<Rightarrow> hash option"
  GetAddr :: "'v \<Rightarrow> address option"
  GetUint64 :: "'v \<Rightarrow> uint64 option"
  GetBigInt :: "'v \<Rightarrow> int option"
  GetBool :: "'v \<Rightarrow> bool option"
  RawOf :: "'v \<Rightarrow> byte list"
  Keccak :: "byte list \<Rightarrow> hash"

datatype rlpError =
    FastrlpError
  | IncorrectNumberOfElements nat
  | TransactionTypeSize nat
  | UnknownTransactionType byte
  | IndexOutOfRange

definition rbind :: "'e + 'a \<Rightarrow> ('a \<Rightarrow> 'e + 'b) \<Rightarrow> 'e + 'b" where
  "rbind x f = (case x of Inl e \<Rightarrow> Inl e | Inr y \<Rightarrow> f y)"

definition get :: "'a option \<Rightarrow> ('a \<Rightarrow> rlpError + 'b) \<Rightarrow> rlpError + 'b" where
  "get x f = (case x of None \<Rightarrow> Inl FastrlpError | Some y \<Rightarrow> f y)"

lemma rbind_simps [simp]: "rbind (Inr y) f = f y" "rbind (Inl e) f = Inl e"
  by (simp_all add: rbind_def)

lemma get_simps [simp]: "get (Some y) f = f y" "get None f = Inl FastrlpError"
  by (simp_all add: get_def)

abbreviation hashBytes :: "hash \<Rightarrow> byte list" where "hashBytes h \<equiv> be_bytes 32 (uint h)"
abbreviation addrBytes :: "address \<Rightarrow> byte list" where "addrBytes a \<equiv> be_bytes 20 (uint a)"

lemma read_hash [simp]: "(word_of_int (big_SetBytes (hashBytes h)) :: hash) = h"
proof -
  have "uint h < 256 ^ 32" using uint_lt2p [of h] by simp
  then show ?thesis by (simp add: big_SetBytes_be_bytes)
qed

lemma read_addr [simp]: "(word_of_int (big_SetBytes (addrBytes a)) :: address) = a"
proof -
  have "uint a < 256 ^ 20" using uint_lt2p [of a] by simp
  then show ?thesis by (simp add: big_SetBytes_be_bytes)
qed

lemma read_nonce [simp]: "(word_of_int (big_SetBytes (be_bytes 8 (uint n))) :: uint64) = n"
proof -
  have "uint n < 256 ^ 8" using uint_lt2p [of n] by simp
  then show ?thesis by (simp add: big_SetBytes_be_bytes)
qed

subsection \<open>Types\<close>

record Header =
  hd_ParentHash :: hash
  hd_Sha3Uncles :: hash
  hd_Miner :: "byte list"
  hd_StateRoot :: hash
  hd_TxRoot :: hash
  hd_ReceiptsRoot :: hash
  hd_LogsBloom :: "byte list"
  hd_Difficulty :: uint64
  hd_Number :: uint64
  hd_GasLimit :: uint64
  hd_GasUsed :: uint64
  hd_Timestamp :: uint64
  hd_ExtraData :: "byte list"
  hd_MixHash :: hash
  hd_Nonce :: uint64
  hd_Hash :: hash

record Body =
  bd_Transactions :: "Transaction list"
  bd_Uncles :: "Header list"

record Block =
  bl_Header :: Header
  bl_Transactions :: "Transaction list"
  bl_Uncles :: "Header list"

text \<open>The zero values, which \<^verbatim>\<open>&Header{}\<close> and the like denote.\<close>

definition zeroHeader :: Header where
  "zeroHeader = \<lparr> hd_ParentHash = 0, hd_Sha3Uncles = 0, hd_Miner = [], hd_StateRoot = 0, hd_TxRoot = 0,
     hd_ReceiptsRoot = 0, hd_LogsBloom = replicate 256 0, hd_Difficulty = 0, hd_Number = 0, hd_GasLimit = 0,
     hd_GasUsed = 0, hd_Timestamp = 0, hd_ExtraData = [], hd_MixHash = 0, hd_Nonce = 0, hd_Hash = 0 \<rparr>"

definition zeroTransaction :: Transaction where
  "zeroTransaction = \<lparr> tx_Nonce = 0, tx_GasPrice = 0, tx_Gas = 0, tx_To = None, tx_Value = 0, tx_Input = [],
     tx_V = 0, tx_R = 0, tx_S = 0, tx_Hash = 0, tx_From = 0, tx_Type = LegacyTx \<rparr>"

definition zeroReceipt :: Receipt where
  "zeroReceipt = \<lparr> rc_Root = 0, rc_CumulativeGasUsed = 0, rc_LogsBloom = replicate 256 0, rc_Logs = [],
     rc_Status = None, rc_GasUsed = 0, rc_ContractAddress = None, rc_TxHash = 0, rc_TransactionType = LegacyTx \<rparr>"

definition zeroBody :: Body where "zeroBody = \<lparr> bd_Transactions = [], bd_Uncles = [] \<rparr>"

definition zeroBlock :: Block where
  "zeroBlock = \<lparr> bl_Header = zeroHeader, bl_Transactions = [], bl_Uncles = [] \<rparr>"

fun TxType_byte :: "TxType \<Rightarrow> byte" where
  "TxType_byte LegacyTx = 0"
| "TxType_byte StateTx = 0x7f"

definition txTypeFromByte :: "byte \<Rightarrow> rlpError + TxType" where
  "txTypeFromByte b =
    (if b = TxType_byte LegacyTx then Inr LegacyTx
     else if b = TxType_byte StateTx then Inr StateTx
     else Inl (UnknownTransactionType b))"

definition RLPSingleByteUpperLimit :: byte where "RLPSingleByteUpperLimit = 0x7f"

subsection \<open>Encoding\<close>

definition Transaction_MarshalRLPWith :: "('a, 'v) Codec \<Rightarrow> Transaction \<Rightarrow> 'a" where
  "Transaction_MarshalRLPWith R t =
    NewArray R
      ([NewUint R (tx_Nonce t), NewBigInt R (tx_GasPrice t), NewUint R (tx_Gas t),
        (case tx_To t of Some to \<Rightarrow> NewBytes R (addrBytes to) | None \<Rightarrow> NewNull R),
        NewBigInt R (tx_Value t), NewBytes R (tx_Input t),
        NewBigInt R (tx_V t), NewBigInt R (tx_R t), NewBigInt R (tx_S t)]
       @ (if tx_Type t = StateTx then [NewBytes R (addrBytes (tx_From t))] else []))"

definition Transaction_MarshalRLPTo :: "('a, 'v) Codec \<Rightarrow> Transaction \<Rightarrow> byte list \<Rightarrow> byte list" where
  "Transaction_MarshalRLPTo R t dst =
    (dst @ (if tx_Type t \<noteq> LegacyTx then [TxType_byte (tx_Type t)] else []))
      @ MarshalTo R (Transaction_MarshalRLPWith R t)"

definition Transaction_MarshalRLP :: "('a, 'v) Codec \<Rightarrow> Transaction \<Rightarrow> byte list" where
  "Transaction_MarshalRLP R t = Transaction_MarshalRLPTo R t []"

definition Transaction_ComputeHash :: "('a, 'v) Codec \<Rightarrow> Transaction \<Rightarrow> Transaction" where
  "Transaction_ComputeHash R t = t\<lparr>tx_Hash := Keccak R (MarshalTo R (Transaction_MarshalRLPWith R t))\<rparr>"

definition Header_MarshalRLPWith :: "('a, 'v) Codec \<Rightarrow> Header \<Rightarrow> 'a" where
  "Header_MarshalRLPWith R h =
    NewArray R
      [NewBytes R (hashBytes (hd_ParentHash h)), NewBytes R (hashBytes (hd_Sha3Uncles h)),
       NewBytes R (hd_Miner h), NewBytes R (hashBytes (hd_StateRoot h)), NewBytes R (hashBytes (hd_TxRoot h)),
       NewBytes R (hashBytes (hd_ReceiptsRoot h)), NewBytes R (hd_LogsBloom h),
       NewUint R (hd_Difficulty h), NewUint R (hd_Number h), NewUint R (hd_GasLimit h),
       NewUint R (hd_GasUsed h), NewUint R (hd_Timestamp h),
       NewBytes R (hd_ExtraData h), NewBytes R (hashBytes (hd_MixHash h)),
       NewBytes R (be_bytes 8 (uint (hd_Nonce h)))]"

text \<open>The hash of a header is a function variable, which \<^verbatim>\<open>init\<close> sets to \<^verbatim>\<open>defHeaderHash\<close> and a consensus
  engine may replace.\<close>

definition defHeaderHash :: "('a, 'v) Codec \<Rightarrow> Header \<Rightarrow> hash" where
  "defHeaderHash R h = Keccak R (MarshalTo R (Header_MarshalRLPWith R h))"

definition Header_ComputeHash :: "(Header \<Rightarrow> hash) \<Rightarrow> Header \<Rightarrow> Header" where
  "Header_ComputeHash HeaderHash h = h\<lparr>hd_Hash := HeaderHash h\<rparr>"

definition Log_MarshalRLPWith :: "('a, 'v) Codec \<Rightarrow> Log \<Rightarrow> 'a" where
  "Log_MarshalRLPWith R l =
    NewArray R
      [NewBytes R (addrBytes (log_Address l)),
       NewArray R (map (\<lambda>t. NewBytes R (hashBytes t)) (log_Topics l)),
       NewBytes R (log_Data l)]"

definition MarshalLogsWith :: "('a, 'v) Codec \<Rightarrow> Receipt \<Rightarrow> 'a" where
  "MarshalLogsWith R r =
    (if rc_Logs r = [] then NewNullArray R else NewArray R (map (Log_MarshalRLPWith R) (rc_Logs r)))"

definition Receipt_MarshalRLPWith :: "('a, 'v) Codec \<Rightarrow> Receipt \<Rightarrow> 'a" where
  "Receipt_MarshalRLPWith R r =
    NewArray R
      [(case rc_Status r of Some s \<Rightarrow> NewUint R s | None \<Rightarrow> NewBytes R (hashBytes (rc_Root r))),
       NewUint R (rc_CumulativeGasUsed r), NewBytes R (rc_LogsBloom r), MarshalLogsWith R r]"

definition IsLegacyTx :: "Receipt \<Rightarrow> bool" where
  "IsLegacyTx r \<longleftrightarrow> rc_TransactionType r = LegacyTx"

definition Receipt_MarshalRLPTo :: "('a, 'v) Codec \<Rightarrow> Receipt \<Rightarrow> byte list \<Rightarrow> byte list" where
  "Receipt_MarshalRLPTo R r dst =
    (dst @ (if \<not> IsLegacyTx r then [TxType_byte (rc_TransactionType r)] else []))
      @ MarshalTo R (Receipt_MarshalRLPWith R r)"

definition Receipts_MarshalRLPWith :: "('a, 'v) Codec \<Rightarrow> Receipt list \<Rightarrow> 'a" where
  "Receipts_MarshalRLPWith R rs =
    NewArray R
      (concat (map (\<lambda>r. (if \<not> IsLegacyTx r then [NewBytes R [TxType_byte (rc_TransactionType r)]] else [])
                        @ [Receipt_MarshalRLPWith R r]) rs))"

definition Receipts_MarshalRLPTo :: "('a, 'v) Codec \<Rightarrow> Receipt list \<Rightarrow> byte list \<Rightarrow> byte list" where
  "Receipts_MarshalRLPTo R rs dst = dst @ MarshalTo R (Receipts_MarshalRLPWith R rs)"

definition Block_MarshalRLPWith :: "('a, 'v) Codec \<Rightarrow> Block \<Rightarrow> 'a" where
  "Block_MarshalRLPWith R b =
    NewArray R
      [Header_MarshalRLPWith R (bl_Header b),
       (if bl_Transactions b = [] then NewNullArray R
        else NewArray R
          (concat (map (\<lambda>tx. (if tx_Type tx \<noteq> LegacyTx then [NewBytes R [TxType_byte (tx_Type tx)]] else [])
                             @ [Transaction_MarshalRLPWith R tx]) (bl_Transactions b)))),
       (if bl_Uncles b = [] then NewNullArray R
        else NewArray R (map (Header_MarshalRLPWith R) (bl_Uncles b)))]"

definition Block_MarshalRLPTo :: "('a, 'v) Codec \<Rightarrow> Block \<Rightarrow> byte list \<Rightarrow> byte list" where
  "Block_MarshalRLPTo R b dst = dst @ MarshalTo R (Block_MarshalRLPWith R b)"

subsection \<open>Encoding for storage\<close>

definition Transaction_marshalStoreRLPWith :: "('a, 'v) Codec \<Rightarrow> Transaction \<Rightarrow> 'a" where
  "Transaction_marshalStoreRLPWith R t =
    NewArray R
      ((if tx_Type t \<noteq> LegacyTx then [NewBytes R [TxType_byte (tx_Type t)]] else [])
       @ [Transaction_MarshalRLPWith R t, NewBytes R (addrBytes (tx_From t))])"

definition Body_marshalRLPWith :: "('a, 'v) Codec \<Rightarrow> Body \<Rightarrow> 'a" where
  "Body_marshalRLPWith R b =
    NewArray R
      [(if bd_Transactions b = [] then NewNullArray R
        else NewArray R (map (Transaction_marshalStoreRLPWith R) (bd_Transactions b))),
       (if bd_Uncles b = [] then NewNullArray R
        else NewArray R (map (Header_MarshalRLPWith R) (bd_Uncles b)))]"

definition Body_MarshalRLPTo :: "('a, 'v) Codec \<Rightarrow> Body \<Rightarrow> byte list \<Rightarrow> byte list" where
  "Body_MarshalRLPTo R b dst = dst @ MarshalTo R (Body_marshalRLPWith R b)"

definition Receipt_marshalStoreRLPWith :: "('a, 'v) Codec \<Rightarrow> Receipt \<Rightarrow> 'a" where
  "Receipt_marshalStoreRLPWith R r =
    NewArray R
      ((if \<not> IsLegacyTx r then [NewBytes R [TxType_byte (rc_TransactionType r)]] else [])
       @ [Receipt_MarshalRLPWith R r,
          (case rc_ContractAddress r of None \<Rightarrow> NewNull R | Some a \<Rightarrow> NewBytes R (addrBytes a)),
          NewUint R (rc_GasUsed r), NewBytes R (hashBytes (rc_TxHash r))])"

definition Receipts_marshalStoreRLPWith :: "('a, 'v) Codec \<Rightarrow> Receipt list \<Rightarrow> 'a" where
  "Receipts_marshalStoreRLPWith R rs = NewArray R (map (Receipt_marshalStoreRLPWith R) rs)"

definition Receipts_MarshalStoreRLPTo :: "('a, 'v) Codec \<Rightarrow> Receipt list \<Rightarrow> byte list \<Rightarrow> byte list" where
  "Receipts_MarshalStoreRLPTo R rs dst = dst @ MarshalTo R (Receipts_marshalStoreRLPWith R rs)"

subsection \<open>Decoding\<close>

definition UnmarshalRlp :: "('a, 'v) Codec \<Rightarrow> ('v \<Rightarrow> rlpError + 'o) \<Rightarrow> byte list \<Rightarrow> rlpError + 'o" where
  "UnmarshalRlp R obj input = get (Parse R input) obj"

definition TxType_unmarshalRLPFrom :: "('a, 'v) Codec \<Rightarrow> 'v \<Rightarrow> rlpError + TxType" where
  "TxType_unmarshalRLPFrom R v =
    get (BytesOf R v) (\<lambda>bytes.
      if length bytes \<noteq> 1 then Inl (TransactionTypeSize (length bytes))
      else txTypeFromByte (bytes ! 0))"

text \<open>The loop over the elements of an array in which an element may be preceded by its type: the callback
  changes an accumulator. After a type byte the code indexes the next element without a check.\<close>

fun unmarshal_elems ::
  "('a, 'v) Codec \<Rightarrow> (TxType \<Rightarrow> 'v \<Rightarrow> 'o \<Rightarrow> rlpError + 'o) \<Rightarrow> 'v list \<Rightarrow> 'o \<Rightarrow> rlpError + 'o" where
  "unmarshal_elems R cb [] acc = Inr acc"
| "unmarshal_elems R cb (e # es) acc =
    (if IsTypeBytes R e then
       rbind (TxType_unmarshalRLPFrom R e) (\<lambda>txType.
         case es of
           [] \<Rightarrow> Inl IndexOutOfRange
         | e' # es' \<Rightarrow> rbind (cb txType e' acc) (\<lambda>acc. unmarshal_elems R cb es' acc))
     else rbind (cb LegacyTx e acc) (\<lambda>acc. unmarshal_elems R cb es acc))"

definition unmarshalRLPFrom ::
  "('a, 'v) Codec \<Rightarrow> 'v \<Rightarrow> (TxType \<Rightarrow> 'v \<Rightarrow> 'o \<Rightarrow> rlpError + 'o) \<Rightarrow> 'o \<Rightarrow> rlpError + 'o" where
  "unmarshalRLPFrom R v cb acc = get (GetElems R v) (\<lambda>elems. unmarshal_elems R cb elems acc)"

definition Transaction_unmarshalRLPFrom ::
  "('a, 'v) Codec \<Rightarrow> 'v \<Rightarrow> Transaction \<Rightarrow> rlpError + Transaction" where
  "Transaction_unmarshalRLPFrom R v t =
    get (GetElems R v) (\<lambda>elems.
      if length elems < 9 then Inl (IncorrectNumberOfElements (length elems))
      else
        let t = t\<lparr>tx_Hash := Keccak R (RawOf R v)\<rparr> in
        get (GetUint64 R (elems ! 0)) (\<lambda>nonce.
        get (GetBigInt R (elems ! 1)) (\<lambda>gasPrice.
        get (GetUint64 R (elems ! 2)) (\<lambda>gas.
        let to = (case BytesOf R (elems ! 3) of
                    Some vv \<Rightarrow> if length vv = 20 then Some (word_of_int (big_SetBytes vv)) else None
                  | None \<Rightarrow> None) in
        get (GetBigInt R (elems ! 4)) (\<lambda>val.
        get (GetBytes R (elems ! 5)) (\<lambda>inp.
        get (GetBigInt R (elems ! 6)) (\<lambda>v.
        get (GetBigInt R (elems ! 7)) (\<lambda>r.
        get (GetBigInt R (elems ! 8)) (\<lambda>s.
        let t = t\<lparr>tx_Nonce := nonce, tx_GasPrice := gasPrice, tx_Gas := gas, tx_To := to, tx_Value := val,
                  tx_Input := inp, tx_V := v, tx_R := r, tx_S := s\<rparr>;
            from = (if 10 \<le> length elems then
                      (case BytesOf R (elems ! 9) of
                         Some vv \<Rightarrow> if length vv = 20 then word_of_int (big_SetBytes vv) else 0
                       | None \<Rightarrow> 0)
                    else 0)
        in Inr (if tx_Type t = StateTx then t\<lparr>tx_From := from\<rparr> else t))))))))))"

definition Transaction_UnmarshalRLP ::
  "('a, 'v) Codec \<Rightarrow> byte list \<Rightarrow> Transaction \<Rightarrow> rlpError + Transaction" where
  "Transaction_UnmarshalRLP R input t =
    (if input \<noteq> [] \<and> input ! 0 \<le> RLPSingleByteUpperLimit then
       rbind (txTypeFromByte (input ! 0)) (\<lambda>tt.
         UnmarshalRlp R (\<lambda>v. Transaction_unmarshalRLPFrom R v (t\<lparr>tx_Type := tt\<rparr>)) (drop 1 input))
     else UnmarshalRlp R (\<lambda>v. Transaction_unmarshalRLPFrom R v (t\<lparr>tx_Type := LegacyTx\<rparr>)) input)"

definition Header_unmarshalRLPFrom ::
  "('a, 'v) Codec \<Rightarrow> (Header \<Rightarrow> hash) \<Rightarrow> 'v \<Rightarrow> Header \<Rightarrow> rlpError + Header" where
  "Header_unmarshalRLPFrom R HeaderHash v h =
    get (GetElems R v) (\<lambda>elems.
      if length elems < 15 then Inl (IncorrectNumberOfElements (length elems))
      else
        get (GetHashOf R (elems ! 0)) (\<lambda>parent.
        get (GetHashOf R (elems ! 1)) (\<lambda>sha3Uncles.
        get (GetBytes R (elems ! 2)) (\<lambda>miner.
        get (GetHashOf R (elems ! 3)) (\<lambda>stateRoot.
        get (GetHashOf R (elems ! 4)) (\<lambda>txRoot.
        get (GetHashOf R (elems ! 5)) (\<lambda>receiptsRoot.
        get (GetBytesN R (elems ! 6) 256) (\<lambda>logsBloom.
        get (GetUint64 R (elems ! 7)) (\<lambda>difficulty.
        get (GetUint64 R (elems ! 8)) (\<lambda>number.
        get (GetUint64 R (elems ! 9)) (\<lambda>gasLimit.
        get (GetUint64 R (elems ! 10)) (\<lambda>gasUsed.
        get (GetUint64 R (elems ! 11)) (\<lambda>timestamp.
        get (GetBytes R (elems ! 12)) (\<lambda>extraData.
        get (GetHashOf R (elems ! 13)) (\<lambda>mixHash.
        get (GetUint64 R (elems ! 14)) (\<lambda>nonce.
        Inr (Header_ComputeHash HeaderHash
          (h\<lparr>hd_ParentHash := parent, hd_Sha3Uncles := sha3Uncles, hd_Miner := miner,
             hd_StateRoot := stateRoot, hd_TxRoot := txRoot, hd_ReceiptsRoot := receiptsRoot,
             hd_LogsBloom := logsBloom, hd_Difficulty := difficulty, hd_Number := number,
             hd_GasLimit := gasLimit, hd_GasUsed := gasUsed, hd_Timestamp := timestamp,
             hd_ExtraData := extraData, hd_MixHash := mixHash, hd_Nonce := nonce\<rparr>))))))))))))))))))"

definition Header_UnmarshalRLP ::
  "('a, 'v) Codec \<Rightarrow> (Header \<Rightarrow> hash) \<Rightarrow> byte list \<Rightarrow> Header \<Rightarrow> rlpError + Header" where
  "Header_UnmarshalRLP R HeaderHash input h = UnmarshalRlp R (\<lambda>v. Header_unmarshalRLPFrom R HeaderHash v h) input"

text \<open>The loops that decode the elements of an array and append the results.\<close>

fun decode_all :: "('v \<Rightarrow> rlpError + 'o) \<Rightarrow> 'v list \<Rightarrow> 'o list \<Rightarrow> rlpError + 'o list" where
  "decode_all f [] acc = Inr acc"
| "decode_all f (e # es) acc = rbind (f e) (\<lambda>x. decode_all f es (acc @ [x]))"

definition Log_unmarshalRLPFrom :: "('a, 'v) Codec \<Rightarrow> 'v \<Rightarrow> rlpError + Log" where
  "Log_unmarshalRLPFrom R v =
    get (GetElems R v) (\<lambda>elems.
      if length elems < 3 then Inl (IncorrectNumberOfElements (length elems))
      else
        get (GetAddr R (elems ! 0)) (\<lambda>addr.
        get (GetElems R (elems ! 1)) (\<lambda>topicElems.
        rbind (decode_all (\<lambda>topic. get (GetHashOf R topic) Inr) topicElems []) (\<lambda>topics.
        get (GetBytes R (elems ! 2)) (\<lambda>data.
        Inr \<lparr> log_Address = addr, log_Topics = topics, log_Data = data \<rparr>)))))"

definition SetStatus :: "ReceiptStatus \<Rightarrow> Receipt \<Rightarrow> Receipt" where
  "SetStatus s r = r\<lparr>rc_Status := Some s\<rparr>"

definition Receipt_unmarshalRLPFrom :: "('a, 'v) Codec \<Rightarrow> 'v \<Rightarrow> Receipt \<Rightarrow> rlpError + Receipt" where
  "Receipt_unmarshalRLPFrom R v r =
    get (GetElems R v) (\<lambda>elems.
      if length elems < 4 then Inl (IncorrectNumberOfElements (length elems))
      else
        get (BytesOf R (elems ! 0)) (\<lambda>buf.
        let r = (if length buf = 32 then r\<lparr>rc_Root := word_of_int (big_SetBytes buf)\<rparr>
                 else if length buf = 1 then SetStatus (ucast (buf ! 0)) r
                 else SetStatus 0 r) in
        get (GetUint64 R (elems ! 1)) (\<lambda>cumulativeGasUsed.
        get (GetBytesN R (elems ! 2) 256) (\<lambda>logsBloom.
        get (GetElems R (elems ! 3)) (\<lambda>logsElems.
        rbind (decode_all (Log_unmarshalRLPFrom R) logsElems (rc_Logs r)) (\<lambda>logs.
        Inr (r\<lparr>rc_CumulativeGasUsed := cumulativeGasUsed, rc_LogsBloom := logsBloom, rc_Logs := logs\<rparr>)))))))"

definition Receipt_UnmarshalRLP :: "('a, 'v) Codec \<Rightarrow> byte list \<Rightarrow> Receipt \<Rightarrow> rlpError + Receipt" where
  "Receipt_UnmarshalRLP R input r =
    (if input \<noteq> [] \<and> input ! 0 \<le> RLPSingleByteUpperLimit then
       rbind (txTypeFromByte (input ! 0)) (\<lambda>tt.
         UnmarshalRlp R (\<lambda>v. Receipt_unmarshalRLPFrom R v (r\<lparr>rc_TransactionType := tt\<rparr>)) (drop 1 input))
     else UnmarshalRlp R (\<lambda>v. Receipt_unmarshalRLPFrom R v (r\<lparr>rc_TransactionType := LegacyTx\<rparr>)) input)"

definition Receipts_unmarshalRLPFrom ::
  "('a, 'v) Codec \<Rightarrow> 'v \<Rightarrow> Receipt list \<Rightarrow> rlpError + Receipt list" where
  "Receipts_unmarshalRLPFrom R v rs =
    unmarshalRLPFrom R v (\<lambda>txType v rs.
      rbind (Receipt_unmarshalRLPFrom R v (zeroReceipt\<lparr>rc_TransactionType := txType\<rparr>)) (\<lambda>obj.
      Inr (rs @ [obj]))) rs"

definition Receipts_UnmarshalRLP :: "('a, 'v) Codec \<Rightarrow> byte list \<Rightarrow> Receipt list \<Rightarrow> rlpError + Receipt list" where
  "Receipts_UnmarshalRLP R input rs = UnmarshalRlp R (\<lambda>v. Receipts_unmarshalRLPFrom R v rs) input"

definition Block_unmarshalRLPFrom ::
  "('a, 'v) Codec \<Rightarrow> (Header \<Rightarrow> hash) \<Rightarrow> 'v \<Rightarrow> Block \<Rightarrow> rlpError + Block" where
  "Block_unmarshalRLPFrom R HeaderHash v b =
    get (GetElems R v) (\<lambda>elems.
      if length elems < 3 then Inl (IncorrectNumberOfElements (length elems))
      else
        rbind (Header_unmarshalRLPFrom R HeaderHash (elems ! 0) zeroHeader) (\<lambda>header.
        rbind (unmarshalRLPFrom R (elems ! 1) (\<lambda>txType v txs.
                 rbind (Transaction_unmarshalRLPFrom R v (zeroTransaction\<lparr>tx_Type := txType\<rparr>)) (\<lambda>bTxn.
                 Inr (txs @ [Transaction_ComputeHash R bTxn]))) (bl_Transactions b)) (\<lambda>txs.
        get (GetElems R (elems ! 2)) (\<lambda>uncleElems.
        rbind (decode_all (\<lambda>u. Header_unmarshalRLPFrom R HeaderHash u zeroHeader) uncleElems (bl_Uncles b))
          (\<lambda>uncles.
        Inr (b\<lparr>bl_Header := header, bl_Transactions := txs, bl_Uncles := uncles\<rparr>))))))"

definition Block_UnmarshalRLP ::
  "('a, 'v) Codec \<Rightarrow> (Header \<Rightarrow> hash) \<Rightarrow> byte list \<Rightarrow> Block \<Rightarrow> rlpError + Block" where
  "Block_UnmarshalRLP R HeaderHash input b = UnmarshalRlp R (\<lambda>v. Block_unmarshalRLPFrom R HeaderHash v b) input"

subsection \<open>Decoding from storage\<close>

definition Transaction_unmarshalStoreRLPFrom ::
  "('a, 'v) Codec \<Rightarrow> 'v \<Rightarrow> Transaction \<Rightarrow> rlpError + Transaction" where
  "Transaction_unmarshalStoreRLPFrom R v t =
    get (GetElems R v) (\<lambda>elems.
      if length elems \<noteq> 2 \<and> length elems \<noteq> 3 then Inl (IncorrectNumberOfElements (length elems))
      else
        rbind (if length elems = 3
               then rbind (TxType_unmarshalRLPFrom R (elems ! 0)) (\<lambda>tt. Inr (t\<lparr>tx_Type := tt\<rparr>, drop 1 elems))
               else Inr (t, elems)) (\<lambda>(t, elems).
        rbind (Transaction_unmarshalRLPFrom R (elems ! 0) t) (\<lambda>t.
        get (GetAddr R (elems ! 1)) (\<lambda>from.
        Inr (Transaction_ComputeHash R (t\<lparr>tx_From := from\<rparr>))))))"

definition Body_unmarshalRLPFrom ::
  "('a, 'v) Codec \<Rightarrow> (Header \<Rightarrow> hash) \<Rightarrow> 'v \<Rightarrow> Body \<Rightarrow> rlpError + Body" where
  "Body_unmarshalRLPFrom R HeaderHash v b =
    get (GetElems R v) (\<lambda>tuple.
      if length tuple < 2 then Inl (IncorrectNumberOfElements (length tuple))
      else
        rbind (unmarshalRLPFrom R (tuple ! 0) (\<lambda>txType v txs.
                 rbind (Transaction_unmarshalStoreRLPFrom R v (zeroTransaction\<lparr>tx_Type := txType\<rparr>)) (\<lambda>bTxn.
                 Inr (txs @ [Transaction_ComputeHash R bTxn]))) (bd_Transactions b)) (\<lambda>txs.
        get (GetElems R (tuple ! 1)) (\<lambda>uncleElems.
        rbind (decode_all (\<lambda>u. Header_unmarshalRLPFrom R HeaderHash u zeroHeader) uncleElems (bd_Uncles b))
          (\<lambda>uncles.
        Inr (b\<lparr>bd_Transactions := txs, bd_Uncles := uncles\<rparr>)))))"

definition Body_UnmarshalRLP ::
  "('a, 'v) Codec \<Rightarrow> (Header \<Rightarrow> hash) \<Rightarrow> byte list \<Rightarrow> Body \<Rightarrow> rlpError + Body" where
  "Body_UnmarshalRLP R HeaderHash input b = UnmarshalRlp R (\<lambda>v. Body_unmarshalRLPFrom R HeaderHash v b) input"

definition Receipt_unmarshalStoreRLPFrom :: "('a, 'v) Codec \<Rightarrow> 'v \<Rightarrow> Receipt \<Rightarrow> rlpError + Receipt" where
  "Receipt_unmarshalStoreRLPFrom R v r =
    get (GetElems R v) (\<lambda>elems.
      if length elems < 4 then Inl (IncorrectNumberOfElements (length elems))
      else
        rbind (if length elems = 5
               then rbind (TxType_unmarshalRLPFrom R (elems ! 0))
                      (\<lambda>tt. Inr (r\<lparr>rc_TransactionType := tt\<rparr>, drop 1 elems))
               else Inr (r, elems)) (\<lambda>(r, elems).
        rbind (Receipt_unmarshalRLPFrom R (elems ! 0) r) (\<lambda>r.
        get (BytesOf R (elems ! 1)) (\<lambda>vv.
        let r = (if length vv = 20 then r\<lparr>rc_ContractAddress := Some (word_of_int (big_SetBytes vv))\<rparr> else r) in
        get (GetUint64 R (elems ! 2)) (\<lambda>gasUsed.
        let r = r\<lparr>rc_GasUsed := gasUsed\<rparr> in
        if length elems = 4
        then get (BytesOf R (elems ! 3)) (\<lambda>vv. Inr (r\<lparr>rc_TxHash := word_of_int (big_SetBytes vv)\<rparr>))
        else Inr r)))))"

definition Receipts_unmarshalStoreRLPFrom ::
  "('a, 'v) Codec \<Rightarrow> 'v \<Rightarrow> Receipt list \<Rightarrow> rlpError + Receipt list" where
  "Receipts_unmarshalStoreRLPFrom R v rs =
    unmarshalRLPFrom R v (\<lambda>txType v rs.
      rbind (Receipt_unmarshalStoreRLPFrom R v (zeroReceipt\<lparr>rc_TransactionType := txType\<rparr>)) (\<lambda>obj.
      Inr (rs @ [obj]))) rs"

definition Receipts_UnmarshalStoreRLP ::
  "('a, 'v) Codec \<Rightarrow> byte list \<Rightarrow> Receipt list \<Rightarrow> rlpError + Receipt list" where
  "Receipts_UnmarshalStoreRLP R input rs = UnmarshalRlp R (\<lambda>v. Receipts_unmarshalStoreRLPFrom R v rs) input"

end
