(* ===== verification/RlpSpec.thy ===== *)
theory RlpSpec
  imports Rlp
begin

text \<open>
  The documented behaviour of the RLP library, which the round trips of \<open>RlpProps\<close> assume, and RLP itself
  as its specification defines it, with a decoder and the proof that decoding undoes encoding: an instance
  of the library that has this behaviour.
\<close>

subsection \<open>What the library promises\<close>

text \<open>The documented behaviour of the library. The function \<open>pv\<close> gives the parsed form of a built value:
  parsing the bytes of a value returns it (up to the \<open>2 ^ 64\<close> bytes that a length prefix of RLP can
  express), its raw form is those bytes, and the accessors read what the constructors were given. An
  array starts with a byte from \<open>0xc0\<close> on. An unsigned number is the shortest big-endian byte string
  of its value; RLP has no negative numbers.\<close>

definition fastrlp_ok :: "('a, 'v) Codec \<Rightarrow> ('a \<Rightarrow> 'v) \<Rightarrow> bool" where
  "fastrlp_ok R pv \<longleftrightarrow>
    (\<forall>a. length (MarshalTo R a) < 2 ^ 64 \<longrightarrow> Parse R (MarshalTo R a) = Some (pv a))
  \<and> (\<forall>a. RawOf R (pv a) = MarshalTo R a)
  \<and> (\<forall>xs. MarshalTo R (NewArray R xs) \<noteq> []
       \<and> (length (MarshalTo R (NewArray R xs)) < 2 ^ 64 \<longrightarrow> 0xc0 \<le> MarshalTo R (NewArray R xs) ! 0))
  \<and> (\<forall>xs. \<not> IsTypeBytes R (pv (NewArray R xs)) \<and> GetElems R (pv (NewArray R xs)) = Some (map pv xs))
  \<and> GetElems R (pv (NewNullArray R)) = Some []
  \<and> (\<forall>b. IsTypeBytes R (pv (NewBytes R b)) \<and> BytesOf R (pv (NewBytes R b)) = Some b
       \<and> GetBytes R (pv (NewBytes R b)) = Some b)
  \<and> (\<forall>b n. GetBytesN R (pv (NewBytes R b)) n = (if length b = n then Some b else None))
  \<and> (\<forall>b. length b = 32 \<longrightarrow> GetHashOf R (pv (NewBytes R b)) = Some (word_of_int (big_SetBytes b)))
  \<and> (\<forall>b. length b = 20 \<longrightarrow> GetAddr R (pv (NewBytes R b)) = Some (word_of_int (big_SetBytes b)))
  \<and> (\<forall>b. length b \<le> 8 \<longrightarrow> GetUint64 R (pv (NewBytes R b)) = Some (word_of_int (big_SetBytes b)))
  \<and> BytesOf R (pv (NewNull R)) = Some []
  \<and> (\<forall>n. GetUint64 R (pv (NewUint R n)) = Some n
       \<and> BytesOf R (pv (NewUint R n)) = Some (be_bytes (floorlog 256 (unat n)) (uint n)))
  \<and> (\<forall>i \<ge> 0. GetBigInt R (pv (NewBigInt R i)) = Some i)
  \<and> (\<forall>b. GetBool R (pv (NewBool R b)) = Some b)
  \<and> (\<forall>xs. ElemsOf R (pv (NewArray R xs)) = length xs) \<and> ElemsOf R (pv (NewNullArray R)) = 0
  \<and> (\<forall>b. LenOf R (pv (NewBytes R b)) = length b) \<and> LenOf R (pv (NewNull R)) = 0
  \<and> GetBytes R (pv (NewNull R)) = Some []"

lemma fastrlp_simps:
  assumes "fastrlp_ok R pv"
  shows "length (MarshalTo R a) < 2 ^ 64 \<Longrightarrow> Parse R (MarshalTo R a) = Some (pv a)"
    and "RawOf R (pv a) = MarshalTo R a"
    and "MarshalTo R (NewArray R xs) \<noteq> []"
    and "length (MarshalTo R (NewArray R xs)) < 2 ^ 64 \<Longrightarrow> 0xc0 \<le> MarshalTo R (NewArray R xs) ! 0"
    and "\<not> IsTypeBytes R (pv (NewArray R xs))" "GetElems R (pv (NewArray R xs)) = Some (map pv xs)"
    and "GetElems R (pv (NewNullArray R)) = Some []"
    and "IsTypeBytes R (pv (NewBytes R b))" "BytesOf R (pv (NewBytes R b)) = Some b"
    and "GetBytes R (pv (NewBytes R b)) = Some b"
    and "length b = n \<Longrightarrow> GetBytesN R (pv (NewBytes R b)) n = Some b"
    and "length b = 32 \<Longrightarrow> GetHashOf R (pv (NewBytes R b)) = Some (word_of_int (big_SetBytes b))"
    and "length b = 20 \<Longrightarrow> GetAddr R (pv (NewBytes R b)) = Some (word_of_int (big_SetBytes b))"
    and "length b \<le> 8 \<Longrightarrow> GetUint64 R (pv (NewBytes R b)) = Some (word_of_int (big_SetBytes b))"
    and "BytesOf R (pv (NewNull R)) = Some []"
    and "GetUint64 R (pv (NewUint R u)) = Some u"
    and "BytesOf R (pv (NewUint R u)) = Some (be_bytes (floorlog 256 (unat u)) (uint u))"
    and "0 \<le> i \<Longrightarrow> GetBigInt R (pv (NewBigInt R i)) = Some i"
    and "GetBool R (pv (NewBool R q)) = Some q"
    and "ElemsOf R (pv (NewArray R xs)) = length xs" "ElemsOf R (pv (NewNullArray R)) = 0"
    and "LenOf R (pv (NewBytes R b)) = length b" "LenOf R (pv (NewNull R)) = 0"
    and "GetBytes R (pv (NewNull R)) = Some []"
  using assms by (simp_all add: fastrlp_ok_def)

subsection \<open>The format\<close>

datatype Item = Str "byte list" | Lst "Item list"

text \<open>The shortest big-endian byte string of a number, and the head of a string or an array whose
  payload has \<open>n\<close> bytes.\<close>

definition min_bytes :: "nat \<Rightarrow> byte list" where
  "min_bytes n = be_bytes (floorlog 256 n) (int n)"

definition rlp_head :: "byte \<Rightarrow> nat \<Rightarrow> byte list" where
  "rlp_head off n =
    (if n < 56 then [off + of_nat n] else (off + of_nat (55 + length (min_bytes n))) # min_bytes n)"

fun rlp_enc :: "Item \<Rightarrow> byte list" where
  "rlp_enc (Str bs) =
    (if length bs = 1 \<and> bs ! 0 < 0x80 then bs else rlp_head 0x80 (length bs) @ bs)"
| "rlp_enc (Lst xs) = rlp_head 0xc0 (length (concat (map rlp_enc xs))) @ concat (map rlp_enc xs)"

definition rlp_len :: "byte \<Rightarrow> byte \<Rightarrow> byte list \<Rightarrow> (nat \<times> byte list) option" where
  "rlp_len off b bs =
    (let k = unat (b - off) in
     if k < 56 then Some (k, bs)
     else if k - 55 \<le> length bs then Some (nat (big_SetBytes (take (k - 55) bs)), drop (k - 55) bs)
     else None)"

fun rlp_item :: "nat \<Rightarrow> byte list \<Rightarrow> (Item \<times> byte list) option"
  and rlp_items :: "nat \<Rightarrow> byte list \<Rightarrow> Item list option" where
  "rlp_item 0 bs = None"
| "rlp_item (Suc f) [] = None"
| "rlp_item (Suc f) (b # bs) =
    (if b < 0x80 then Some (Str [b], bs)
     else if b < 0xc0 then do {
       (n, bs) \<leftarrow> rlp_len 0x80 b bs;
       if n \<le> length bs then Some (Str (take n bs), drop n bs) else None }
     else do {
       (n, bs) \<leftarrow> rlp_len 0xc0 b bs;
       if n \<le> length bs then do { xs \<leftarrow> rlp_items f (take n bs); Some (Lst xs, drop n bs) } else None })"
| "rlp_items 0 bs = None"
| "rlp_items (Suc f) bs =
    (if bs = [] then Some []
     else do { (x, r) \<leftarrow> rlp_item f bs; xs \<leftarrow> rlp_items f r; Some (x # xs) })"

definition rlp_dec :: "byte list \<Rightarrow> Item option" where
  "rlp_dec bs = do { (x, r) \<leftarrow> rlp_item (2 * length bs) bs; if r = [] then Some x else None }"

subsection \<open>Decoding undoes encoding\<close>

lemma min_bytes_read:
  shows "nat (big_SetBytes (min_bytes n)) = n"
    and "n < 2 ^ 64 \<Longrightarrow> length (min_bytes n) \<le> 8"
    and "56 \<le> n \<Longrightarrow> 0 < length (min_bytes n)"
proof -
  have "n < 256 ^ floorlog 256 n" using floorlog_bounds [of n 256] by (cases "n = 0") auto
  then have "int n < 256 ^ floorlog 256 n" by (metis of_nat_less_iff of_nat_numeral of_nat_power)
  then show "nat (big_SetBytes (min_bytes n)) = n" by (simp add: min_bytes_def big_SetBytes_be_bytes)
  show "length (min_bytes n) \<le> 8" if "n < 2 ^ 64"
    using that by (simp add: min_bytes_def floorlog_le_iff)
  show "0 < length (min_bytes n)" if "56 \<le> n"
    using that by (simp add: min_bytes_def floorlog_def)
qed

lemma head_byte:
  assumes "off \<in> {0x80, 0xc0}" "k < 64"
  shows "unat (off + of_nat k :: byte) = unat off + k" "unat ((off + of_nat k :: byte) - off) = k"
proof -
  have k: "unat (of_nat k :: byte) = k" using assms(2) by (simp add: unsigned_of_nat take_bit_nat_eq_self)
  show "unat ((off + of_nat k :: byte) - off) = k" using k by simp
  show "unat (off + of_nat k :: byte) = unat off + k"
    using assms k by (subst unat_add_lem [THEN iffD1]) auto
qed

lemma rlp_head_read:
  assumes "off \<in> {0x80, 0xc0}" "n < 2 ^ 64"
  shows "\<exists>b l. rlp_head off n = b # l \<and> rlp_len off b (l @ r) = Some (n, r)
    \<and> unat off \<le> unat b \<and> unat b < unat off + 64"
proof (cases "n < 56")
  case True
  then show ?thesis using head_byte [OF assms(1), of n] by (simp add: rlp_head_def rlp_len_def Let_def)
next
  case False
  let ?l = "min_bytes n"
  have l: "0 < length ?l" "length ?l \<le> 8" using min_bytes_read(2,3) [of n] assms(2) False by simp_all
  have b: "unat (off + of_nat (55 + length ?l) :: byte) = unat off + (55 + length ?l)"
    "unat ((off + of_nat (55 + length ?l) :: byte) - off) = 55 + length ?l"
    using head_byte [OF assms(1), of "55 + length ?l"] l by auto
  show ?thesis
    unfolding rlp_head_def rlp_len_def Let_def b if_not_P [OF False]
    by (intro exI conjI, rule refl) (use l b in \<open>simp_all only: b, simp_all add: min_bytes_read(1)\<close>)
qed

lemma rlp_head_nonempty: "rlp_head off n \<noteq> []"
  by (simp add: rlp_head_def)

lemma rlp_enc_nonempty: "0 < length (rlp_enc x)"
  using rlp_head_nonempty by (cases x) auto

lemma rlp_item_Str:
  assumes "length (rlp_enc (Str bs)) < 2 ^ 64"
  shows "rlp_item (Suc f) (rlp_enc (Str bs) @ r) = Some (Str bs, r)"
proof (cases "length bs = 1 \<and> bs ! 0 < 0x80")
  case True
  then obtain b where "bs = [b]" "b < 0x80" by (cases bs) auto
  then show ?thesis by simp
next
  case False
  then have enc: "rlp_enc (Str bs) = rlp_head 0x80 (length bs) @ bs" by (simp only: rlp_enc.simps if_False)
  then have "length bs < 2 ^ 64" using assms by simp
  then obtain b l where "rlp_head 0x80 (length bs) = b # l"
    "rlp_len 0x80 b (l @ bs @ r) = Some (length bs, bs @ r)" "0x80 \<le> unat b" "unat b < 0xc0"
    using rlp_head_read [of "0x80" "length bs" "bs @ r"] by auto
  then show ?thesis unfolding enc by (simp add: word_less_nat_alt)
qed

lemma rlp_items_concat:
  assumes "\<And>x f r. x \<in> set xs \<Longrightarrow> 2 * length (rlp_enc x) \<le> f \<Longrightarrow> rlp_item f (rlp_enc x @ r) = Some (x, r)"
    and "2 * length (concat (map rlp_enc xs)) < f"
  shows "rlp_items f (concat (map rlp_enc xs)) = Some xs"
  using assms
proof (induction xs arbitrary: f)
  case Nil
  then show ?case by (cases f) simp_all
next
  case (Cons x xs)
  then obtain f' where f: "f = Suc f'" by (cases f) simp_all
  let ?r = "concat (map rlp_enc xs)"
  have pos: "0 < length (rlp_enc x)" by (rule rlp_enc_nonempty)
  have "rlp_item f' (rlp_enc x @ ?r) = Some (x, ?r)" using Cons.prems f by (intro Cons.prems(1)) simp_all
  moreover have "rlp_items f' ?r = Some xs" using Cons.prems f pos by (intro Cons.IH) (simp, simp del: length_greater_0_conv)
  ultimately show ?case using pos by (simp add: f)
qed

lemma rlp_item_read:
  "length (rlp_enc x) < 2 ^ 64 \<Longrightarrow> 2 * length (rlp_enc x) \<le> f \<Longrightarrow> rlp_item f (rlp_enc x @ r) = Some (x, r)"
proof (induction x arbitrary: f r)
  case (Str bs)
  then obtain f' where "f = Suc f'" using rlp_enc_nonempty [of "Str bs"] by (cases f) auto
  then show ?case using rlp_item_Str [OF Str(1)] by (simp only:)
next
  case (Lst xs)
  let ?p = "concat (map rlp_enc xs)"
  have len: "length ?p < 2 ^ 64" using Lst.prems(1) by simp
  obtain b l where head: "rlp_head 0xc0 (length ?p) = b # l"
    "rlp_len 0xc0 b (l @ ?p @ r) = Some (length ?p, ?p @ r)" "0xc0 \<le> unat b"
    using rlp_head_read [of "0xc0" "length ?p" "?p @ r"] len by auto
  obtain f' where f: "f = Suc f'" using Lst.prems(2) rlp_enc_nonempty [of "Lst xs"] by (cases f) auto
  have sub: "length (rlp_enc x) \<le> length ?p" if "x \<in> set xs" for x
    using that by (auto simp: length_concat comp_def intro: member_le_sum_list)
  have "rlp_items f' ?p = Some xs"
  proof (rule rlp_items_concat)
    show "rlp_item f (rlp_enc x @ r) = Some (x, r)" if "x \<in> set xs" "2 * length (rlp_enc x) \<le> f" for x f r
      using Lst.IH [OF that(1)] sub [OF that(1)] len that(2) by simp
    show "2 * length ?p < f'" using Lst.prems(2) f head(1) by simp
  qed
  then show ?case using head by (simp add: f word_less_nat_alt)
qed

lemma rlp_dec_enc: "length (rlp_enc x) < 2 ^ 64 \<Longrightarrow> rlp_dec (rlp_enc x) = Some x"
  using rlp_item_read [of x "2 * length (rlp_enc x)" "[]"] by (simp add: rlp_dec_def)

text \<open>A bound on the size of an encoding: a head has at most nine bytes.\<close>

fun rlp_bound :: "Item \<Rightarrow> nat" where
  "rlp_bound (Str bs) = length bs + 9"
| "rlp_bound (Lst xs) = sum_list (map rlp_bound xs) + 9"

lemma rlp_head_length: "n < 2 ^ 64 \<Longrightarrow> length (rlp_head off n) \<le> 9"
  using min_bytes_read(2) [of n] by (simp add: rlp_head_def)

lemma rlp_enc_bound: "rlp_bound x < 2 ^ 64 \<Longrightarrow> length (rlp_enc x) \<le> rlp_bound x"
proof (induction x)
  case (Str bs)
  then show ?case using rlp_head_length [of "length bs" "0x80"] by simp
next
  case (Lst xs)
  have "length (rlp_enc x) \<le> rlp_bound x" if "x \<in> set xs" for x
    using Lst.IH [OF that] Lst.prems member_le_sum_list [of "rlp_bound x" "map rlp_bound xs"] that by simp
  then have "length (concat (map rlp_enc xs)) \<le> sum_list (map rlp_bound xs)"
    by (simp add: length_concat comp_def sum_list_mono)
  then show ?case
    using Lst.prems rlp_head_length [of "length (concat (map rlp_enc xs))" "0xc0"] by simp
qed

subsection \<open>An instance of the library\<close>

fun item_bytes :: "Item \<Rightarrow> byte list option" where
  "item_bytes (Str bs) = Some bs"
| "item_bytes (Lst xs) = None"

fun item_elems :: "Item \<Rightarrow> Item list option" where
  "item_elems (Str bs) = None"
| "item_elems (Lst xs) = Some xs"

definition item_read :: "Item \<Rightarrow> (byte list \<Rightarrow> bool) \<Rightarrow> (byte list \<Rightarrow> 'b) \<Rightarrow> 'b option" where
  "item_read v ok f = do { bs \<leftarrow> item_bytes v; if ok bs then Some (f bs) else None }"

definition rlp_codec :: "(byte list \<Rightarrow> hash) \<Rightarrow> (Item, Item) Codec" where
  "rlp_codec keccak =
    \<lparr> NewUint = (\<lambda>n. Str (be_bytes (floorlog 256 (unat n)) (uint n))),
      NewBigInt = (\<lambda>i. Str (min_bytes (nat i))),
      NewBytes = Str, NewBool = (\<lambda>b. Str (if b then [1] else [])), NewNull = Str [], NewNullArray = Lst [], NewArray = Lst,
      MarshalTo = rlp_enc, Parse = rlp_dec,
      IsTypeBytes = (\<lambda>v. item_bytes v \<noteq> None),
      ElemsOf = (\<lambda>v. case item_elems v of None \<Rightarrow> 0 | Some xs \<Rightarrow> length xs),
      LenOf = (\<lambda>v. case item_bytes v of None \<Rightarrow> length (rlp_enc v) | Some bs \<Rightarrow> length bs), GetElems = item_elems, BytesOf = item_bytes,
      GetBytes = item_bytes, GetBytesN = (\<lambda>v n. item_read v (\<lambda>bs. length bs = n) id),
      GetHashOf = (\<lambda>v. item_read v (\<lambda>bs. length bs = 32) (\<lambda>bs. word_of_int (big_SetBytes bs))),
      GetAddr = (\<lambda>v. item_read v (\<lambda>bs. length bs = 20) (\<lambda>bs. word_of_int (big_SetBytes bs))),
      GetUint64 = (\<lambda>v. item_read v (\<lambda>bs. length bs \<le> 8) (\<lambda>bs. word_of_int (big_SetBytes bs))),
      GetBigInt = (\<lambda>v. map_option big_SetBytes (item_bytes v)),
      GetBool = (\<lambda>v. item_read v (\<lambda>bs. bs = [] \<or> bs = [1]) (\<lambda>bs. bs = [1])),
      RawOf = rlp_enc, Keccak = keccak \<rparr>"

lemma uint_bytes_read:
  "length (be_bytes (floorlog 256 (unat n)) (uint n)) \<le> 8"
  "(word_of_int (big_SetBytes (be_bytes (floorlog 256 (unat n)) (uint n))) :: uint64) = n"
proof -
  have eq: "be_bytes (floorlog 256 (unat n)) (uint n) = min_bytes (unat n)" by (simp add: min_bytes_def)
  show "length (be_bytes (floorlog 256 (unat n)) (uint n)) \<le> 8"
    unfolding eq using unsigned_less [of n] by (intro min_bytes_read(2)) simp
  have "big_SetBytes (min_bytes (unat n)) = int (unat n)" by (metis big_SetBytes_nonneg int_nat_eq min_bytes_read(1))
  then show "(word_of_int (big_SetBytes (be_bytes (floorlog 256 (unat n)) (uint n))) :: uint64) = n"
    unfolding eq by simp
qed

lemma min_bytes_int: "0 \<le> i \<Longrightarrow> big_SetBytes (min_bytes (nat i)) = i"
  by (metis big_SetBytes_nonneg int_nat_eq min_bytes_read(1) nat_int)

lemma array_first: "rlp_enc (Lst xs) ! 0 \<ge> 0xc0" if "length (rlp_enc (Lst xs)) < 2 ^ 64"
proof -
  have "length (concat (map rlp_enc xs)) < 2 ^ 64" using that by simp
  then obtain b l where "rlp_head 0xc0 (length (concat (map rlp_enc xs))) = b # l" "0xc0 \<le> unat b"
    using rlp_head_read [of "0xc0" "length (concat (map rlp_enc xs))" "[]"] by auto
  then show ?thesis by (simp add: word_le_nat_alt)
qed

lemma rlp_codec_ok: "fastrlp_ok (rlp_codec keccak) id"
proof -
  have "item_read (Str bs) ok f = (if ok bs then Some (f bs) else None)" for bs ok and f :: "byte list \<Rightarrow> 'c"
    by (simp add: item_read_def)
  then show ?thesis
    using array_first rlp_head_nonempty rlp_dec_enc min_bytes_int uint_bytes_read
    unfolding fastrlp_ok_def rlp_codec_def by (simp add: item_read_def del: rlp_enc.simps) simp
qed

end
