(* ===== verification/RlpProps.thy ===== *)
theory RlpProps
  imports RlpSpec
begin

text \<open>
  What is encoded is read back: the round trips of transactions, blocks, stored bodies and stored
  receipts, for every library \<open>R\<close> that implements RLP as documented (\<open>fastrlp_ok\<close>).
\<close>

text \<open>The arrays of the model are read back from their bytes.\<close>

subsection \<open>Transactions\<close>

definition tx_encodable :: "Transaction \<Rightarrow> bool" where
  "tx_encodable t \<longleftrightarrow> 0 \<le> tx_GasPrice t \<and> 0 \<le> tx_Value t \<and> 0 \<le> tx_V t \<and> 0 \<le> tx_R t \<and> 0 \<le> tx_S t"

text \<open>The sender is part of a state transaction only.\<close>

definition wire_tx :: "Transaction \<Rightarrow> Transaction" where
  "wire_tx t = (if tx_Type t = StateTx then t else t\<lparr>tx_From := 0\<rparr>)"

lemma wire_tx_MarshalRLPWith [simp]:
  "Transaction_MarshalRLPWith R (wire_tx t) = Transaction_MarshalRLPWith R t"
  by (simp add: Transaction_MarshalRLPWith_def wire_tx_def)

lemma MarshalRLPWith_hash_from [simp]:
  "Transaction_MarshalRLPWith R (t\<lparr>tx_Hash := h\<rparr>) = Transaction_MarshalRLPWith R t"
  by (simp add: Transaction_MarshalRLPWith_def)

lemma Transaction_read:
  assumes "fastrlp_ok R pv" "tx_encodable t" "tx_Type t0 = tx_Type t"
  shows "Transaction_unmarshalRLPFrom R (pv (Transaction_MarshalRLPWith R t)) t0
    = Inr ((Transaction_ComputeHash R t)\<lparr>tx_From := if tx_Type t = StateTx then tx_From t else tx_From t0\<rparr>)"
proof -
  note [simp] = fastrlp_simps [OF assms(1)]
  let ?v = "pv (Transaction_MarshalRLPWith R t)"
  obtain es where es: "GetElems R ?v = Some (map pv es)"
    "es = [NewUint R (tx_Nonce t), NewBigInt R (tx_GasPrice t), NewUint R (tx_Gas t),
        (case tx_To t of Some to \<Rightarrow> NewBytes R (addrBytes to) | None \<Rightarrow> NewNull R),
        NewBigInt R (tx_Value t), NewBytes R (tx_Input t),
        NewBigInt R (tx_V t), NewBigInt R (tx_R t), NewBigInt R (tx_S t)]
       @ (if tx_Type t = StateTx then [NewBytes R (addrBytes (tx_From t))] else [])"
    by (simp add: Transaction_MarshalRLPWith_def)
  have raw: "RawOf R ?v = MarshalTo R (Transaction_MarshalRLPWith R t)" by simp
  show ?thesis
    using assms(2,3) unfolding Transaction_unmarshalRLPFrom_def es(1) raw Transaction_ComputeHash_def
    by (cases "tx_To t"; cases "tx_Type t"; cases t; cases t0; simp add: es(2) tx_encodable_def)
qed

lemma Transaction_read_fresh:
  assumes "fastrlp_ok R pv" "tx_encodable t"
  shows "Transaction_unmarshalRLPFrom R (pv (Transaction_MarshalRLPWith R t)) (zeroTransaction\<lparr>tx_Type := tx_Type t\<rparr>)
    = Inr (Transaction_ComputeHash R (wire_tx t))"
  by (simp add: Transaction_read [OF assms] zeroTransaction_def Transaction_ComputeHash_def)
     (simp add: wire_tx_def)

text \<open>A transaction survives the wire: decoding the bytes of \<^verbatim>\<open>MarshalRLP\<close> gives back every field of the
  transaction, with its type and with the hash that \<^verbatim>\<open>ComputeHash\<close> computes; the sender comes back for a
  state transaction and is empty for a legacy one, whose sender is recovered from the signature.\<close>

theorem Transaction_roundtrip:
  assumes "fastrlp_ok R pv" "tx_encodable t" "length (Transaction_MarshalRLP R t) < 2 ^ 64"
  shows "Transaction_UnmarshalRLP R (Transaction_MarshalRLP R t) zeroTransaction
    = Inr (Transaction_ComputeHash R (wire_tx t))"
proof -
  note simps = fastrlp_simps [OF assms(1)]
  let ?a = "Transaction_MarshalRLPWith R t"
  have bytes: "Transaction_MarshalRLP R t
    = (if tx_Type t \<noteq> LegacyTx then [TxType_byte (tx_Type t)] else []) @ MarshalTo R ?a"
    by (simp add: Transaction_MarshalRLP_def Transaction_MarshalRLPTo_def)
  then have parse: "Parse R (MarshalTo R ?a) = Some (pv ?a)" using simps(1) assms(3) by simp
  have first: "MarshalTo R ?a \<noteq> []" "0xc0 \<le> MarshalTo R ?a ! 0"
    using simps(3,4) assms(3) by (auto simp: Transaction_MarshalRLPWith_def bytes)
  then have no_type: "\<not> MarshalTo R ?a ! 0 \<le> RLPSingleByteUpperLimit"
    by (simp add: RLPSingleByteUpperLimit_def word_le_nat_alt)
  show ?thesis
    using Transaction_read_fresh [OF assms(1,2)] parse first no_type unfolding bytes
    by (cases "tx_Type t")
       (simp_all add: Transaction_UnmarshalRLP_def UnmarshalRlp_def RLPSingleByteUpperLimit_def txTypeFromByte_def)
qed

subsection \<open>Headers, blocks and bodies\<close>

definition header_encodable :: "Header \<Rightarrow> bool" where
  "header_encodable h \<longleftrightarrow> length (hd_LogsBloom h) = 256"

lemma Header_read:
  assumes "fastrlp_ok R pv" "header_encodable h"
  shows "Header_unmarshalRLPFrom R hh (pv (Header_MarshalRLPWith R h)) zeroHeader
    = Inr (Header_ComputeHash hh (h\<lparr>hd_Hash := 0\<rparr>))"
proof -
  note [simp] = fastrlp_simps [OF assms(1)]
  show ?thesis
    using assms(2)
    by (cases h) (simp add: Header_unmarshalRLPFrom_def Header_MarshalRLPWith_def header_encodable_def
        zeroHeader_def)
qed

lemma decode_all_map:
  assumes "\<And>x. x \<in> set xs \<Longrightarrow> f (g x) = Inr (h x)"
  shows "decode_all f (map g xs) acc = Inr (acc @ map h xs)"
  using assms by (induction xs arbitrary: acc) simp_all

lemma Headers_read:
  assumes "fastrlp_ok R pv" "\<forall>h\<in>set hs. header_encodable h"
  shows "decode_all (\<lambda>u. Header_unmarshalRLPFrom R hh u zeroHeader) (map pv (map (Header_MarshalRLPWith R) hs)) []
    = Inr (map (\<lambda>h. Header_ComputeHash hh (h\<lparr>hd_Hash := 0\<rparr>)) hs)"
  unfolding map_map comp_def by (subst decode_all_map) (use Header_read [OF assms(1)] assms(2) in auto)

text \<open>A list of elements, each behind its type when it has one.\<close>

lemma unmarshal_elems_typed:
  assumes "fastrlp_ok R pv"
    and "\<And>x acc. x \<in> set xs \<Longrightarrow> cb (ty x) (pv (enc x)) acc = Inr (acc @ [h x])"
    and "\<And>x. x \<in> set xs \<Longrightarrow> \<not> IsTypeBytes R (pv (enc x))"
  shows "unmarshal_elems R cb
    (map pv (concat (map (\<lambda>x. (if ty x \<noteq> LegacyTx then [NewBytes R [TxType_byte (ty x)]] else []) @ [enc x]) xs))) acc
    = Inr (acc @ map h xs)"
  using assms(2,3)
proof (induction xs arbitrary: acc)
  case (Cons x xs)
  note [simp] = fastrlp_simps [OF assms(1)]
  have cb: "cb (ty x) (pv (enc x)) acc = Inr (acc @ [h x])" and nb: "\<not> IsTypeBytes R (pv (enc x))"
    using Cons.prems by simp_all
  have ih: "unmarshal_elems R cb
    (map pv (concat (map (\<lambda>x. (if ty x \<noteq> LegacyTx then [NewBytes R [TxType_byte (ty x)]] else []) @ [enc x]) xs)))
      (acc @ [h x]) = Inr ((acc @ [h x]) @ map h xs)"
    using Cons.prems by (intro Cons.IH) simp_all
  show ?case using cb nb ih
    by (cases "ty x") (simp_all add: TxType_unmarshalRLPFrom_def txTypeFromByte_def)
qed simp

lemma unmarshal_elems_arrays:
  assumes "fastrlp_ok R pv"
    and "\<And>x acc. x \<in> set xs \<Longrightarrow> cb LegacyTx (pv (enc x)) acc = Inr (acc @ [h x])"
    and "\<And>x. x \<in> set xs \<Longrightarrow> \<not> IsTypeBytes R (pv (enc x))"
  shows "unmarshal_elems R cb (map pv (map enc xs)) acc = Inr (acc @ map h xs)"
  using assms(2,3) by (induction xs arbitrary: acc) simp_all

text \<open>The elements of an array that is written as the null array when it is empty.\<close>

lemma GetElems_null_or:
  assumes "fastrlp_ok R pv"
  shows "GetElems R (pv (if xs = [] then NewNullArray R else NewArray R (map f xs))) = Some (map pv (map f xs))"
    and "GetElems R (pv (if xs = [] then NewNullArray R else NewArray R (concat (map g xs))))
      = Some (map pv (concat (map g xs)))"
  using fastrlp_simps [OF assms] by simp_all

definition block_encodable :: "Block \<Rightarrow> bool" where
  "block_encodable b \<longleftrightarrow> header_encodable (bl_Header b)
    \<and> (\<forall>t\<in>set (bl_Transactions b). tx_encodable t) \<and> (\<forall>h\<in>set (bl_Uncles b). header_encodable h)"

lemma Block_read:
  assumes "fastrlp_ok R pv" "block_encodable b" "length (Block_MarshalRLPTo R b []) < 2 ^ 64"
  shows "Block_UnmarshalRLP R hh (Block_MarshalRLPTo R b []) zeroBlock
    = Inr \<lparr> bl_Header = Header_ComputeHash hh ((bl_Header b)\<lparr>hd_Hash := 0\<rparr>),
            bl_Transactions = map (\<lambda>t. Transaction_ComputeHash R (wire_tx t)) (bl_Transactions b),
            bl_Uncles = map (\<lambda>h. Header_ComputeHash hh (h\<lparr>hd_Hash := 0\<rparr>)) (bl_Uncles b) \<rparr>"
proof -
  note simps = fastrlp_simps [OF assms(1)]
  have txs: "unmarshal_elems R (\<lambda>txType v txs.
                 rbind (Transaction_unmarshalRLPFrom R v (zeroTransaction\<lparr>tx_Type := txType\<rparr>)) (\<lambda>bTxn.
                 Inr (txs @ [Transaction_ComputeHash R bTxn])))
      (map pv (concat (map (\<lambda>tx. (if tx_Type tx \<noteq> LegacyTx then [NewBytes R [TxType_byte (tx_Type tx)]] else [])
        @ [Transaction_MarshalRLPWith R tx]) (bl_Transactions b)))) []
    = Inr ([] @ map (\<lambda>t. Transaction_ComputeHash R (wire_tx t)) (bl_Transactions b))"
  proof (rule unmarshal_elems_typed [OF assms(1)])
    fix t acc
    assume "t \<in> set (bl_Transactions b)"
    then have "tx_encodable t" using assms(2) by (simp add: block_encodable_def)
    then show "rbind (Transaction_unmarshalRLPFrom R (pv (Transaction_MarshalRLPWith R t))
        (zeroTransaction\<lparr>tx_Type := tx_Type t\<rparr>)) (\<lambda>bTxn. Inr (acc @ [Transaction_ComputeHash R bTxn]))
      = Inr (acc @ [Transaction_ComputeHash R (wire_tx t)])"
      by (simp add: Transaction_read_fresh [OF assms(1)] Transaction_ComputeHash_def)
    show "\<not> IsTypeBytes R (pv (Transaction_MarshalRLPWith R t))"
      by (simp add: Transaction_MarshalRLPWith_def simps(5))
  qed
  have parse: "Parse R (Block_MarshalRLPTo R b []) = Some (pv (Block_MarshalRLPWith R b))"
    using assms(3) by (simp add: Block_MarshalRLPTo_def simps(1))
  show ?thesis
    using assms(2) txs Header_read [OF assms(1)] Headers_read [OF assms(1), of "bl_Uncles b"]
    unfolding Block_UnmarshalRLP_def UnmarshalRlp_def parse Block_unmarshalRLPFrom_def unmarshalRLPFrom_def
    by (simp add: Block_MarshalRLPWith_def simps(6) GetElems_null_or [OF assms(1), simplified]
        block_encodable_def zeroBlock_def)
qed

text \<open>C30. A block survives the wire: decoding the bytes of \<^verbatim>\<open>MarshalRLP\<close> gives the header, every transaction
  behind its type byte, and the uncles, all in order, with the hashes computed anew.\<close>

theorem Block_roundtrip:
  assumes "fastrlp_ok R pv" "block_encodable b" "length (Block_MarshalRLPTo R b []) < 2 ^ 64"
  shows "Block_UnmarshalRLP R hh (Block_MarshalRLPTo R b []) zeroBlock
    = Inr \<lparr> bl_Header = Header_ComputeHash hh ((bl_Header b)\<lparr>hd_Hash := 0\<rparr>),
            bl_Transactions = map (\<lambda>t. Transaction_ComputeHash R (wire_tx t)) (bl_Transactions b),
            bl_Uncles = map (\<lambda>h. Header_ComputeHash hh (h\<lparr>hd_Hash := 0\<rparr>)) (bl_Uncles b) \<rparr>"
  using assms by (rule Block_read)

definition body_encodable :: "Body \<Rightarrow> bool" where
  "body_encodable b \<longleftrightarrow>
    (\<forall>t\<in>set (bd_Transactions b). tx_encodable t) \<and> (\<forall>h\<in>set (bd_Uncles b). header_encodable h)"

lemma Transaction_read_store:
  assumes "fastrlp_ok R pv" "tx_encodable t"
  shows "Transaction_unmarshalStoreRLPFrom R (pv (Transaction_marshalStoreRLPWith R t)) zeroTransaction
    = Inr (Transaction_ComputeHash R t)"
proof -
  note [simp] = fastrlp_simps [OF assms(1)]
  have zero: "tx_Type zeroTransaction = LegacyTx" by (simp add: zeroTransaction_def)
  show ?thesis
    using Transaction_read [OF assms, of "zeroTransaction\<lparr>tx_Type := tx_Type t\<rparr>"]
      Transaction_read [OF assms, of zeroTransaction]
    by (cases "tx_Type t")
       (simp_all add: Transaction_unmarshalStoreRLPFrom_def Transaction_marshalStoreRLPWith_def
         TxType_unmarshalRLPFrom_def txTypeFromByte_def Transaction_ComputeHash_def zero
         Transaction_MarshalRLPWith_def)
qed

text \<open>A stored body is read back exactly: transactions with their types and senders, and uncles, in order;
  the hashes are computed anew.\<close>

theorem Body_roundtrip:
  assumes "fastrlp_ok R pv" "body_encodable b" "length (Body_MarshalRLPTo R b []) < 2 ^ 64"
  shows "Body_UnmarshalRLP R hh (Body_MarshalRLPTo R b []) zeroBody
    = Inr \<lparr> bd_Transactions = map (Transaction_ComputeHash R) (bd_Transactions b),
            bd_Uncles = map (\<lambda>h. Header_ComputeHash hh (h\<lparr>hd_Hash := 0\<rparr>)) (bd_Uncles b) \<rparr>"
proof -
  note simps = fastrlp_simps [OF assms(1)]
  have txs: "unmarshal_elems R (\<lambda>txType v txs.
                 rbind (Transaction_unmarshalStoreRLPFrom R v (zeroTransaction\<lparr>tx_Type := txType\<rparr>)) (\<lambda>bTxn.
                 Inr (txs @ [Transaction_ComputeHash R bTxn])))
      (map pv (map (Transaction_marshalStoreRLPWith R) (bd_Transactions b))) []
    = Inr ([] @ map (Transaction_ComputeHash R) (bd_Transactions b))"
  proof (rule unmarshal_elems_arrays [OF assms(1)])
    fix t acc
    assume "t \<in> set (bd_Transactions b)"
    then have "tx_encodable t" using assms(2) by (simp add: body_encodable_def)
    moreover have "zeroTransaction\<lparr>tx_Type := LegacyTx\<rparr> = zeroTransaction" by (simp add: zeroTransaction_def)
    ultimately show "rbind (Transaction_unmarshalStoreRLPFrom R (pv (Transaction_marshalStoreRLPWith R t))
        (zeroTransaction\<lparr>tx_Type := LegacyTx\<rparr>)) (\<lambda>bTxn. Inr (acc @ [Transaction_ComputeHash R bTxn]))
      = Inr (acc @ [Transaction_ComputeHash R t])"
      by (simp add: Transaction_read_store [OF assms(1)] Transaction_ComputeHash_def)
    show "\<not> IsTypeBytes R (pv (Transaction_marshalStoreRLPWith R t))"
      by (simp add: Transaction_marshalStoreRLPWith_def simps(5))
  qed
  have parse: "Parse R (Body_MarshalRLPTo R b []) = Some (pv (Body_marshalRLPWith R b))"
    using assms(3) by (simp add: Body_MarshalRLPTo_def simps(1))
  show ?thesis
    using assms(2) txs Headers_read [OF assms(1), of "bd_Uncles b"]
    unfolding Body_UnmarshalRLP_def UnmarshalRlp_def parse Body_unmarshalRLPFrom_def unmarshalRLPFrom_def
    by (simp add: Body_marshalRLPWith_def simps(6) GetElems_null_or [OF assms(1), simplified]
        body_encodable_def zeroBody_def)
qed

subsection \<open>Receipts\<close>

text \<open>A receipt has a status, which is a byte, or a root.\<close>

definition receipt_encodable :: "Receipt \<Rightarrow> bool" where
  "receipt_encodable r \<longleftrightarrow> length (rc_LogsBloom r) = 256
    \<and> (case rc_Status r of Some s \<Rightarrow> unat s < 256 \<and> rc_Root r = 0 | None \<Rightarrow> True)"

lemma Log_read:
  assumes "fastrlp_ok R pv"
  shows "Log_unmarshalRLPFrom R (pv (Log_MarshalRLPWith R l)) = Inr l"
proof -
  note [simp] = fastrlp_simps [OF assms]
  have "decode_all (\<lambda>topic. get (GetHashOf R topic) Inr)
      (map (\<lambda>t. pv (NewBytes R (hashBytes t))) (log_Topics l)) [] = Inr ([] @ map (\<lambda>t. t) (log_Topics l))"
    by (rule decode_all_map) simp
  then show ?thesis by (simp add: Log_unmarshalRLPFrom_def Log_MarshalRLPWith_def comp_def)
qed

lemma Logs_read:
  assumes "fastrlp_ok R pv"
  shows "\<exists>es. GetElems R (pv (MarshalLogsWith R r)) = Some es
    \<and> decode_all (Log_unmarshalRLPFrom R) es [] = Inr (rc_Logs r)"
proof -
  have "decode_all (Log_unmarshalRLPFrom R) (map (\<lambda>l. pv (Log_MarshalRLPWith R l)) (rc_Logs r)) []
    = Inr ([] @ map (\<lambda>l. l) (rc_Logs r))"
    by (rule decode_all_map) (simp add: Log_read [OF assms])
  then show ?thesis using fastrlp_simps [OF assms] by (simp add: MarshalLogsWith_def comp_def)
qed

lemma status_bytes:
  assumes "unat (s :: uint64) < 256"
  shows "be_bytes (floorlog 256 (unat s)) (uint s) = (if s = 0 then [] else [ucast s])"
proof (cases "s = 0")
  case False
  then have "0 < unat s" by (simp add: unat_gt_0)
  then have "floorlog 256 (unat s) = 1" using assms
    by (subst compute_floorlog) (simp add: floorlog_def)
  then show ?thesis using False by (simp add: be_bytes_Suc)
qed (simp add: floorlog_def)

lemma status_read: "unat (s :: uint64) < 256 \<Longrightarrow> (ucast (ucast s :: byte) :: uint64) = s"
  by (simp add: word_unat_eq_iff unsigned_ucast_eq take_bit_nat_eq_self unsigned_take_bit_eq)

lemma Receipt_read:
  assumes "fastrlp_ok R pv" "receipt_encodable r"
  shows "Receipt_unmarshalRLPFrom R (pv (Receipt_MarshalRLPWith R r)) (zeroReceipt\<lparr>rc_TransactionType := tt\<rparr>)
    = Inr (zeroReceipt\<lparr>rc_TransactionType := tt, rc_Root := if rc_Status r = None then rc_Root r else 0,
        rc_CumulativeGasUsed := rc_CumulativeGasUsed r, rc_LogsBloom := rc_LogsBloom r, rc_Logs := rc_Logs r,
        rc_Status := rc_Status r\<rparr>)"
proof -
  note [simp] = fastrlp_simps [OF assms(1)]
  obtain es where es: "GetElems R (pv (MarshalLogsWith R r)) = Some es"
    "decode_all (Log_unmarshalRLPFrom R) es [] = Inr (rc_Logs r)"
    using Logs_read [OF assms(1)] by blast
  show ?thesis
    using assms(2) es status_bytes status_read
    by (cases "rc_Status r")
       (simp_all add: Receipt_unmarshalRLPFrom_def Receipt_MarshalRLPWith_def receipt_encodable_def
         SetStatus_def zeroReceipt_def Let_def)
qed

lemma Receipt_read_store:
  assumes "fastrlp_ok R pv" "receipt_encodable r"
  shows "Receipt_unmarshalStoreRLPFrom R (pv (Receipt_marshalStoreRLPWith R r)) (zeroReceipt\<lparr>rc_TransactionType := LegacyTx\<rparr>)
    = Inr r"
proof -
  note [simp] = fastrlp_simps [OF assms(1)]
  have "Receipt_unmarshalStoreRLPFrom R (pv (Receipt_marshalStoreRLPWith R r)) (zeroReceipt\<lparr>rc_TransactionType := LegacyTx\<rparr>)
    = Inr \<lparr> rc_Root = if rc_Status r = None then rc_Root r else 0,
        rc_CumulativeGasUsed = rc_CumulativeGasUsed r, rc_LogsBloom = rc_LogsBloom r, rc_Logs = rc_Logs r,
        rc_Status = rc_Status r, rc_GasUsed = rc_GasUsed r, rc_ContractAddress = rc_ContractAddress r,
        rc_TxHash = rc_TxHash r, rc_TransactionType = rc_TransactionType r \<rparr>"
    using Receipt_read [OF assms]
    by (cases "rc_TransactionType r"; cases "rc_ContractAddress r")
       (simp_all add: Receipt_unmarshalStoreRLPFrom_def Receipt_marshalStoreRLPWith_def IsLegacyTx_def
         TxType_unmarshalRLPFrom_def txTypeFromByte_def zeroReceipt_def Let_def)
  also have "\<dots> = Inr r"
    using assms(2) by (cases "rc_Status r"; cases r) (simp_all add: receipt_encodable_def)
  finally show ?thesis .
qed

text \<open>C31. Stored receipts are read back exactly, whatever mix of legacy and state transactions they belong to.\<close>

theorem Receipts_store_roundtrip:
  assumes "fastrlp_ok R pv" "\<forall>r\<in>set rs. receipt_encodable r"
    and "length (Receipts_MarshalStoreRLPTo R rs []) < 2 ^ 64"
  shows "Receipts_UnmarshalStoreRLP R (Receipts_MarshalStoreRLPTo R rs []) [] = Inr rs"
proof -
  note simps = fastrlp_simps [OF assms(1)]
  have "unmarshal_elems R (\<lambda>txType v rs.
      rbind (Receipt_unmarshalStoreRLPFrom R v (zeroReceipt\<lparr>rc_TransactionType := txType\<rparr>)) (\<lambda>obj.
      Inr (rs @ [obj]))) (map pv (map (Receipt_marshalStoreRLPWith R) rs)) [] = Inr ([] @ map (\<lambda>r. r) rs)"
    using assms(2) simps(5)
    by (intro unmarshal_elems_arrays [OF assms(1)])
       (simp add: Receipt_read_store [OF assms(1)], simp add: Receipt_marshalStoreRLPWith_def)
  moreover have "Parse R (Receipts_MarshalStoreRLPTo R rs []) = Some (pv (Receipts_marshalStoreRLPWith R rs))"
    using assms(3) by (simp add: Receipts_MarshalStoreRLPTo_def simps(1))
  ultimately show ?thesis
    by (simp add: Receipts_UnmarshalStoreRLP_def UnmarshalRlp_def Receipts_unmarshalStoreRLPFrom_def
        Receipts_marshalStoreRLPWith_def unmarshalRLPFrom_def simps(6))
qed

subsection \<open>A type byte at the end\<close>


subsection \<open>Concrete encodings\<close>

definition demo_codec :: "(Item, Item) Codec" where
  "demo_codec = rlp_codec (\<lambda>bs. word_of_int (big_SetBytes bs))"

definition demo_state_tx :: Transaction where
  "demo_state_tx = zeroTransaction\<lparr>tx_Nonce := 7, tx_GasPrice := 300, tx_To := Some 5, tx_Input := [1, 200],
     tx_V := 27, tx_From := 9, tx_Type := StateTx\<rparr>"

definition demo_stored :: Receipt where
  "demo_stored = zeroReceipt\<lparr>rc_Status := Some 1, rc_GasUsed := 21000, rc_TransactionType := StateTx\<rparr>"

lemma demo_codec_ok: "fastrlp_ok demo_codec id"
  by (simp add: demo_codec_def rlp_codec_ok)

lemma demo_codec_simps:
  "NewUint demo_codec u = Str (be_bytes (floorlog 256 (unat u)) (uint u))"
  "NewBigInt demo_codec k = Str (min_bytes (nat k))"
  "NewBytes demo_codec = Str" "NewBool demo_codec b = Str (if b then [1] else [])" "NewNull demo_codec = Str []" "NewNullArray demo_codec = Lst []"
  "NewArray demo_codec = Lst" "MarshalTo demo_codec = rlp_enc"
  by (simp_all add: demo_codec_def rlp_codec_def)

lemma demo_small: "rlp_bound a < 2 ^ 63 \<Longrightarrow> length (MarshalTo demo_codec a) < 2 ^ 63"
  using rlp_enc_bound [of a] by (simp add: demo_codec_simps)

lemmas demo_sizes = demo_codec_simps min_bytes_def demo_state_tx_def demo_stored_def zeroTransaction_def
  zeroReceipt_def zeroHeader_def zeroBlock_def zeroBody_def compute_floorlog

theorem Transaction_roundtrip_witness:
  "Transaction_UnmarshalRLP demo_codec (Transaction_MarshalRLP demo_codec demo_state_tx) zeroTransaction
    = Inr (Transaction_ComputeHash demo_codec (wire_tx demo_state_tx))"
proof (rule Transaction_roundtrip [OF demo_codec_ok])
  show "tx_encodable demo_state_tx"
    by (simp add: tx_encodable_def demo_state_tx_def zeroTransaction_def)
  show "length (Transaction_MarshalRLP demo_codec demo_state_tx) < 2 ^ 64"
    using demo_small [of "Transaction_MarshalRLPWith demo_codec demo_state_tx"]
    by (simp add: Transaction_MarshalRLP_def Transaction_MarshalRLPTo_def)
       (simp add: Transaction_MarshalRLPWith_def demo_sizes)
qed

theorem Block_roundtrip_witness:
  "\<exists>b. Block_UnmarshalRLP demo_codec (defHeaderHash demo_codec)
      (Block_MarshalRLPTo demo_codec (zeroBlock\<lparr>bl_Transactions := [demo_state_tx, zeroTransaction]\<rparr>) []) zeroBlock
    = Inr b \<and> map tx_From (bl_Transactions b) = [9, 0]"
proof -
  let ?b = "zeroBlock\<lparr>bl_Transactions := [demo_state_tx, zeroTransaction]\<rparr>"
  have "block_encodable ?b"
    by (simp add: block_encodable_def header_encodable_def tx_encodable_def zeroBlock_def demo_state_tx_def
        zeroTransaction_def zeroHeader_def)
  moreover have "length (Block_MarshalRLPTo demo_codec ?b []) < 2 ^ 64"
    using demo_small [of "Block_MarshalRLPWith demo_codec ?b"]
    by (simp add: Block_MarshalRLPTo_def)
       (simp add: Block_MarshalRLPWith_def Header_MarshalRLPWith_def Transaction_MarshalRLPWith_def demo_sizes)
  ultimately show ?thesis
    using Block_roundtrip [OF demo_codec_ok, of ?b "defHeaderHash demo_codec"]
    by (simp add: Transaction_ComputeHash_def wire_tx_def demo_state_tx_def zeroTransaction_def)
qed

theorem Body_roundtrip_witness:
  "\<exists>b. Body_UnmarshalRLP demo_codec (defHeaderHash demo_codec)
      (Body_MarshalRLPTo demo_codec (zeroBody\<lparr>bd_Transactions := [demo_state_tx, zeroTransaction]\<rparr>) []) zeroBody
    = Inr b \<and> map tx_Type (bd_Transactions b) = [StateTx, LegacyTx]"
proof -
  let ?b = "zeroBody\<lparr>bd_Transactions := [demo_state_tx, zeroTransaction]\<rparr>"
  have "body_encodable ?b"
    by (simp add: body_encodable_def tx_encodable_def zeroBody_def demo_state_tx_def zeroTransaction_def)
  moreover have "length (Body_MarshalRLPTo demo_codec ?b []) < 2 ^ 64"
    using demo_small [of "Body_marshalRLPWith demo_codec ?b"]
    by (simp add: Body_MarshalRLPTo_def)
       (simp add: Body_marshalRLPWith_def Transaction_marshalStoreRLPWith_def Transaction_MarshalRLPWith_def demo_sizes)
  ultimately show ?thesis
    using Body_roundtrip [OF demo_codec_ok, of ?b "defHeaderHash demo_codec"]
    by (simp add: Transaction_ComputeHash_def demo_state_tx_def zeroTransaction_def)
qed

theorem Receipts_store_roundtrip_witness:
  "Receipts_UnmarshalStoreRLP demo_codec (Receipts_MarshalStoreRLPTo demo_codec [demo_stored, zeroReceipt] []) []
    = Inr [demo_stored, zeroReceipt]"
proof (rule Receipts_store_roundtrip [OF demo_codec_ok])
  show "\<forall>r\<in>set [demo_stored, zeroReceipt]. receipt_encodable r"
    by (simp add: receipt_encodable_def demo_stored_def zeroReceipt_def)
  show "length (Receipts_MarshalStoreRLPTo demo_codec [demo_stored, zeroReceipt] []) < 2 ^ 64"
    using demo_small [of "Receipts_marshalStoreRLPWith demo_codec [demo_stored, zeroReceipt]"]
    by (simp add: Receipts_MarshalStoreRLPTo_def)
       (simp add: Receipts_marshalStoreRLPWith_def Receipt_marshalStoreRLPWith_def Receipt_MarshalRLPWith_def
         MarshalLogsWith_def IsLegacyTx_def demo_sizes)
qed


end
