(* ===== verification/Address.thy ===== *)
theory Address
  imports Rlp
begin

text \<open>
  Addresses as strings: \<^verbatim>\<open>helper/hex/hex.go\<close> and the mixed-case checksum of \<^verbatim>\<open>types/types.go\<close>, which
  \<^verbatim>\<open>Address.String\<close> returns. The checksum only changes the case of letters, so that the string still
  determines the address: code that compares such strings compares addresses.
\<close>

definition hextable :: string where
  "hextable = ''0123456789abcdef''"

definition EncodeToHex :: "byte list \<Rightarrow> string" where
  "EncodeToHex bs = ''0x'' @ concat (map (\<lambda>b.
     [hextable ! (unat b div 16), hextable ! (unat b mod 16)]) bs)"

definition toUpper :: "char \<Rightarrow> char" where
  "toUpper ch = (if 97 \<le> (of_char ch :: nat) \<and> of_char ch \<le> (122 :: nat) then char_of (of_char ch - 32 :: nat) else ch)"

definition checksumEncode :: "(byte list \<Rightarrow> hash) \<Rightarrow> address \<Rightarrow> string" where
  "checksumEncode keccak a =
    (let lowercaseHex = drop 2 (EncodeToHex (addrBytes a));
         hashedAddress = drop 2 (EncodeToHex (hashBytes (keccak (map of_char lowercaseHex))))
     in ''0x'' @ map (\<lambda>(ch, h).
          if (48 \<le> (of_char ch :: nat) \<and> of_char ch \<le> (57 :: nat))
             \<or> (48 \<le> (of_char h :: nat) \<and> of_char h \<le> (55 :: nat))
          then ch else toUpper ch) (zip lowercaseHex hashedAddress))"

text \<open>Reading a string: \<^verbatim>\<open>hex.DecodeString\<close> returns the bytes up to the first character that is not a digit.\<close>

definition fromHexChar :: "char \<Rightarrow> nat option" where
  "fromHexChar c =
    (let n = of_char c :: nat in
     if 48 \<le> n \<and> n \<le> 57 then Some (n - 48)
     else if 97 \<le> n \<and> n \<le> 102 then Some (n - 87)
     else if 65 \<le> n \<and> n \<le> 70 then Some (n - 55)
     else None)"

fun DecodeString :: "string \<Rightarrow> byte list" where
  "DecodeString (a # b # cs) =
    (case (fromHexChar a, fromHexChar b) of
       (Some x, Some y) \<Rightarrow> of_nat (16 * x + y) # DecodeString cs
     | _ \<Rightarrow> [])"
| "DecodeString cs = []"

definition StringToBytes :: "string \<Rightarrow> byte list" where
  "StringToBytes str =
    (let str = (if take 2 str = ''0x'' then drop 2 str else str);
         str = (if length str mod 2 = 1 then CHR ''0'' # str else str)
     in DecodeString str)"

definition StringToAddress :: "string \<Rightarrow> address" where
  "StringToAddress str = word_of_int (big_SetBytes (StringToBytes str))"

subsection \<open>The string determines the address\<close>

definition toLower :: "char \<Rightarrow> char" where
  "toLower ch = (if 65 \<le> (of_char ch :: nat) \<and> of_char ch \<le> (90 :: nat) then char_of (of_char ch + 32 :: nat) else ch)"

lemma hex_digits:
  assumes "ch \<in> set hextable"
  shows "toLower ch = ch" "toLower (toUpper ch) = ch"
  using assms by (auto simp: hextable_def toLower_def toUpper_def char_of_eq_iff)

lemma hex_digit_inj: "i < 16 \<Longrightarrow> j < 16 \<Longrightarrow> hextable ! i = hextable ! j \<longleftrightarrow> i = j"
  unfolding hextable_def by (subst nth_eq_iff_index_eq) simp_all

lemma hex_digit_mem: "i < 16 \<Longrightarrow> hextable ! i \<in> set hextable"
  by (rule nth_mem) (simp add: hextable_def)

lemma hex_pair: "unat (b :: byte) div 16 < 16" "unat (b :: byte) mod 16 < 16"
proof -
  have "unat b < 2 ^ LENGTH(8)" by (rule unsigned_less)
  then show "unat b div 16 < 16" "unat b mod 16 < 16" by simp_all
qed

lemma EncodeToHex_simps:
  "drop 2 (EncodeToHex []) = []"
  "drop 2 (EncodeToHex (b # bs)) = hextable ! (unat b div 16) # hextable ! (unat b mod 16) # drop 2 (EncodeToHex bs)"
  by (simp_all add: EncodeToHex_def)

lemma EncodeToHex_length: "length (drop 2 (EncodeToHex bs)) = 2 * length bs"
  by (induction bs) (simp_all add: EncodeToHex_simps del: length_drop)

lemma EncodeToHex_digits: "set (drop 2 (EncodeToHex bs)) \<subseteq> set hextable"
  by (induction bs) (simp_all add: EncodeToHex_simps hex_digit_mem hex_pair)

lemma EncodeToHex_inj: "drop 2 (EncodeToHex bs) = drop 2 (EncodeToHex cs) \<Longrightarrow> bs = cs"
proof (induction bs cs rule: list_induct2')
  case (4 b bs c cs)
  then have "unat b div 16 = unat c div 16" "unat b mod 16 = unat c mod 16" "bs = cs"
    by (simp_all add: EncodeToHex_simps hex_digit_inj hex_pair)
  then show ?case by (metis div_mult_mod_eq unsigned_word_eqI)
qed (simp_all add: EncodeToHex_simps)

lemma checksum_lower: "map toLower (drop 2 (checksumEncode keccak a)) = drop 2 (EncodeToHex (addrBytes a))"
proof -
  have case_only: "map toLower (map (\<lambda>(ch, h). if P ch h then ch else toUpper ch) (zip xs ys)) = xs"
    if "set xs \<subseteq> set hextable" "length xs \<le> length ys" for P xs and ys :: string
    using that by (induction xs ys rule: list_induct2') (simp_all add: hex_digits)
  show ?thesis
    unfolding checksumEncode_def Let_def drop_append
    by (simp del: map_map length_drop, rule case_only) (simp_all only: EncodeToHex_digits EncodeToHex_length length_be_bytes)
qed

lemma checksumEncode_inj: "checksumEncode keccak a = checksumEncode keccak b \<longleftrightarrow> a = b"
proof
  assume "checksumEncode keccak a = checksumEncode keccak b"
  then have "drop 2 (EncodeToHex (addrBytes a)) = drop 2 (EncodeToHex (addrBytes b))"
    using checksum_lower [of keccak a] checksum_lower [of keccak b] by simp
  then have "addrBytes a = addrBytes b" by (rule EncodeToHex_inj)
  then show "a = b" by (metis read_addr)
qed simp

lemma fromHexChar_digit: "i < 16 \<Longrightarrow> ch = hextable ! i \<or> ch = toUpper (hextable ! i) \<Longrightarrow> fromHexChar ch = Some i"
proof -
  assume i: "i < 16" and ch: "ch = hextable ! i \<or> ch = toUpper (hextable ! i)"
  have "\<forall>i \<in> set [0..<16]. fromHexChar (hextable ! i) = Some i \<and> fromHexChar (toUpper (hextable ! i)) = Some i" by code_simp
  then show ?thesis using i ch by auto
qed

lemma DecodeString_hex:
  assumes "length xs = 2 * length bs" "\<And>i. i < length xs \<Longrightarrow> xs ! i = drop 2 (EncodeToHex bs) ! i \<or> xs ! i = toUpper (drop 2 (EncodeToHex bs) ! i)"
  shows "DecodeString xs = bs"
  using assms
proof (induction bs arbitrary: xs)
  case (Cons b bs)
  obtain x y ys where xs: "xs = x # y # ys" using Cons.prems(1) by (cases xs; cases "tl xs") auto
  have "fromHexChar x = Some (unat b div 16)"
    using Cons.prems(2) [of 0] xs by (intro fromHexChar_digit hex_pair) (simp add: EncodeToHex_simps)
  moreover have "fromHexChar y = Some (unat b mod 16)"
    using Cons.prems(2) [of 1] xs by (intro fromHexChar_digit hex_pair) (simp add: EncodeToHex_simps)
  moreover have "DecodeString ys = bs"
    using Cons.prems xs Cons.IH [of ys] Cons.prems(2) [of "Suc (Suc i)" for i] by (simp add: EncodeToHex_simps)
  moreover have "16 * (unat b div 16) + unat b mod 16 = unat b" by simp
  ultimately show ?case using xs by simp
qed simp

lemma StringToBytes_checksum: "StringToBytes (checksumEncode keccak a) = addrBytes a"
proof -
  define xs where "xs = drop 2 (EncodeToHex (addrBytes a))"
  define ys where "ys = drop 2 (EncodeToHex (hashBytes (keccak (map of_char xs))))"
  have len: "length xs = 40" "length ys = 64"
    unfolding xs_def ys_def EncodeToHex_length by simp_all
  define zs where "zs = drop 2 (checksumEncode keccak a)"
  have zs: "zs = map (\<lambda>(ch, h). if (48 \<le> (of_char ch :: nat) \<and> of_char ch \<le> (57 :: nat))
             \<or> (48 \<le> (of_char h :: nat) \<and> of_char h \<le> (55 :: nat)) then ch else toUpper ch) (zip xs ys)"
    by (simp add: zs_def checksumEncode_def Let_def xs_def ys_def)
  then have "length zs = 40" using len by simp
  moreover have "zs ! i = xs ! i \<or> zs ! i = toUpper (xs ! i)" if "i < 40" for i using that zs len by auto
  ultimately have "DecodeString zs = addrBytes a" using DecodeString_hex [of zs "addrBytes a"] by (simp add: xs_def)
  moreover have "take 2 (checksumEncode keccak a) = ''0x''" by (simp add: checksumEncode_def Let_def)
  ultimately show ?thesis using \<open>length zs = 40\<close> by (simp add: StringToBytes_def Let_def zs_def)
qed

lemma StringToAddress_checksum: "StringToAddress (checksumEncode keccak a) = a"
  by (simp add: StringToAddress_def StringToBytes_checksum)

end
