(* ===== verification/GoHeap.thy ===== *)
theory GoHeap
  imports Prelude "HOL-Library.Multiset"
begin

text \<open>
  Go's \<^verbatim>\<open>container/heap\<close>, the library package with which the queues of the transaction pool are kept in
  order: \<^verbatim>\<open>Push\<close> and \<^verbatim>\<open>Pop\<close> on a slice, over the \<^verbatim>\<open>Less\<close> of the queue. \<open>None\<close> is the panic of an index
  out of range.

  The locale states what \<^verbatim>\<open>Less\<close> has to satisfy and proves once, for every queue, that the slice stays a
  heap, that no element is lost or duplicated, and that the first element is a least one.
\<close>

definition Swap :: "'a list \<Rightarrow> nat \<Rightarrow> nat \<Rightarrow> 'a list" where
  "Swap q i j = q[i := q ! j, j := q ! i]"

function heap_up :: "('a \<Rightarrow> 'a \<Rightarrow> bool) \<Rightarrow> 'a list \<Rightarrow> nat \<Rightarrow> 'a list" where
  "heap_up lt q j =
    (let i = (j - 1) div 2 in
     if i = j \<or> \<not> lt (q ! j) (q ! i) then q else heap_up lt (Swap q i j) i)"
  by pat_completeness auto
termination by (relation "measure (\<lambda>(_, _, j). j)") auto

function heap_down :: "('a \<Rightarrow> 'a \<Rightarrow> bool) \<Rightarrow> 'a list \<Rightarrow> nat \<Rightarrow> nat \<Rightarrow> 'a list" where
  "heap_down lt q i n =
    (let j1 = 2 * i + 1 in
     if n \<le> j1 then q
     else
       let j = (if j1 + 1 < n \<and> lt (q ! (j1 + 1)) (q ! j1) then j1 + 1 else j1) in
       if \<not> lt (q ! j) (q ! i) then q else heap_down lt (Swap q i j) j n)"
  by pat_completeness auto
termination by (relation "measure (\<lambda>(_, _, i, n). n - i)") (auto split: if_splits)

declare heap_up.simps [simp del] heap_down.simps [simp del]

definition heap_Push :: "('a \<Rightarrow> 'a \<Rightarrow> bool) \<Rightarrow> 'a list \<Rightarrow> 'a \<Rightarrow> 'a list" where
  "heap_Push lt q x = heap_up lt (q @ [x]) (length q)"

definition heap_Pop :: "('a \<Rightarrow> 'a \<Rightarrow> bool) \<Rightarrow> 'a list \<Rightarrow> ('a \<times> 'a list) option" where
  "heap_Pop lt q =
    (if q = [] then None
     else let n = length q - 1; q = heap_down lt (Swap q 0 n) 0 n in Some (q ! n, take n q))"

subsection \<open>Heaps\<close>

abbreviation parent :: "nat \<Rightarrow> nat" where "parent k \<equiv> (k - 1) div 2"

definition is_heap :: "('a \<Rightarrow> 'a \<Rightarrow> bool) \<Rightarrow> 'a list \<Rightarrow> bool" where
  "is_heap lt q \<longleftrightarrow> (\<forall>k<length q. 0 < k \<longrightarrow> \<not> lt (q ! k) (q ! parent k))"

text \<open>A heap but for the element at \<open>j\<close>, which may be too small or too large.\<close>

definition heap_but_up :: "('a \<Rightarrow> 'a \<Rightarrow> bool) \<Rightarrow> 'a list \<Rightarrow> nat \<Rightarrow> bool" where
  "heap_but_up lt q j \<longleftrightarrow>
    (\<forall>k<length q. 0 < k \<longrightarrow> k \<noteq> j \<longrightarrow> \<not> lt (q ! k) (q ! parent k))
  \<and> (\<forall>k<length q. 0 < k \<longrightarrow> parent k = j \<longrightarrow> 0 < j \<longrightarrow> \<not> lt (q ! k) (q ! parent j))"

definition heap_but_down :: "('a \<Rightarrow> 'a \<Rightarrow> bool) \<Rightarrow> 'a list \<Rightarrow> nat \<Rightarrow> nat \<Rightarrow> bool" where
  "heap_but_down lt q i n \<longleftrightarrow>
    (\<forall>k<n. 0 < k \<longrightarrow> parent k \<noteq> i \<longrightarrow> \<not> lt (q ! k) (q ! parent k))
  \<and> (\<forall>k<n. 0 < k \<longrightarrow> parent k = i \<longrightarrow> 0 < i \<longrightarrow> \<not> lt (q ! k) (q ! parent i))"

lemma length_Swap [simp]: "length (Swap q i j) = length q"
  by (simp add: Swap_def)

lemma nth_Swap:
  "i < length q \<Longrightarrow> j < length q \<Longrightarrow>
    Swap q i j ! k = (if k = j then q ! i else if k = i then q ! j else q ! k)"
  by (simp add: Swap_def nth_list_update)

lemma mset_Swap: "i < length q \<Longrightarrow> j < length q \<Longrightarrow> mset (Swap q i j) = mset q"
  by (simp add: Swap_def mset_swap)

lemma heap_up_mset: "j < length q \<Longrightarrow> mset (heap_up lt q j) = mset q \<and> length (heap_up lt q j) = length q"
proof (induction lt q j rule: heap_up.induct)
  case (1 lt q j)
  have "parent j < length q" using 1(2) by (rule le_less_trans [rotated]) simp
  then show ?case
    using 1 by (subst (1 2) heap_up.simps) (simp add: Let_def mset_Swap)
qed

lemma heap_down_mset:
  "i < length q \<Longrightarrow> n \<le> length q \<Longrightarrow>
    mset (heap_down lt q i n) = mset q \<and> length (heap_down lt q i n) = length q"
proof (induction lt q i n rule: heap_down.induct)
  case (1 lt q i n)
  then show ?case by (subst (1 2) heap_down.simps) (simp add: Let_def mset_Swap)
qed

text \<open>Beyond the bound \<^verbatim>\<open>down\<close> changes nothing.\<close>

lemma heap_down_beyond:
  "i < n \<Longrightarrow> n \<le> length q \<Longrightarrow> n \<le> k \<Longrightarrow> k < length q \<Longrightarrow> heap_down lt q i n ! k = q ! k"
proof (induction lt q i n rule: heap_down.induct)
  case (1 lt q i n)
  then show ?case by (subst heap_down.simps) (simp add: Let_def nth_Swap)
qed

subsection \<open>The contract of an order\<close>

locale heap_order =
  fixes lt :: "'a \<Rightarrow> 'a \<Rightarrow> bool"
  assumes less_asym: "lt x y \<Longrightarrow> \<not> lt y x"
    and not_less_trans: "\<not> lt y x \<Longrightarrow> \<not> lt z y \<Longrightarrow> \<not> lt z x"
begin

lemma up_step:
  assumes "heap_but_up lt q j" "0 < j" "j < length q" "lt (q ! j) (q ! parent j)"
  shows "heap_but_up lt (Swap q (parent j) j) (parent j)"
proof -
  let ?i = "parent j" and ?q = "Swap q (parent j) j"
  have i: "?i < j" "?i < length q" using assms(2,3) by auto
  note nth = nth_Swap [OF i(2) assms(3)]
  have ok: "\<not> lt (q ! k) (q ! parent k)" if "k < length q" "0 < k" "k \<noteq> j" for k
    using assms(1) that by (simp add: heap_but_up_def)
  have below: "\<not> lt (q ! k) (q ! ?i)" if "k < length q" "0 < k" "parent k = j" for k
    using assms(1,2) that by (simp add: heap_but_up_def)
  have up: "\<not> lt (q ! ?i) (q ! j)" by (rule less_asym [OF assms(4)])
  have sib: "\<not> lt (q ! k) (q ! j)" if "k < length q" "0 < k" "k \<noteq> j" "parent k = ?i" for k
    using ok [OF that(1-3)] up not_less_trans that(4) by metis
  have "\<not> lt (?q ! k) (?q ! parent k)" if k: "k < length q" "0 < k" "k \<noteq> ?i" for k
  proof -
    have "parent k < k" using k(2) by auto
    then show ?thesis using ok [OF k(1,2)] below [OF k(1,2)] sib [OF k(1,2)] up k(3) i(1) unfolding nth by auto
  qed
  moreover have "\<not> lt (?q ! k) (?q ! parent ?i)" if k: "k < length q" "0 < k" "parent k = ?i" "0 < ?i" for k
  proof -
    have p: "parent ?i < ?i" using k(4) by auto
    have "k \<noteq> ?i" using k by auto
    have gi: "\<not> lt (q ! ?i) (q ! parent ?i)" using ok [of ?i] i k(4) by simp
    then have "\<not> lt (q ! k) (q ! parent ?i)" if "k \<noteq> j"
      using ok [OF k(1,2) that] k(3) not_less_trans by metis
    then show ?thesis using gi p i(1) \<open>k \<noteq> ?i\<close> unfolding nth by auto
  qed
  ultimately show ?thesis by (simp add: heap_but_up_def)
qed

lemma up_heap: "heap_but_up lt q j \<Longrightarrow> j < length q \<Longrightarrow> is_heap lt (heap_up lt q j)"
proof (induction j arbitrary: q rule: less_induct)
  case (less j)
  show ?case
  proof (cases "j = 0 \<or> \<not> lt (q ! j) (q ! parent j)")
    case True
    then have "heap_up lt q j = q" by (subst heap_up.simps) (auto simp: Let_def)
    moreover have "is_heap lt q" using less.prems(1) True by (auto simp: is_heap_def heap_but_up_def)
    ultimately show ?thesis by simp
  next
    case False
    then have up: "heap_up lt q j = heap_up lt (Swap q (parent j) j) (parent j)"
      by (subst heap_up.simps) (auto simp: Let_def)
    have "parent j < j" "parent j < length q" using False less.prems(2) by auto
    then show ?thesis using less.IH [of "parent j"] up_step [OF less.prems(1)] less.prems(2) False
      unfolding up by simp
  qed
qed

lemma down_step:
  assumes "heap_but_down lt q i n" "n \<le> length q" "j < n" "parent j = i" "0 < j"
    and less: "lt (q ! j) (q ! i)"
    and least: "\<And>k. k < n \<Longrightarrow> 0 < k \<Longrightarrow> parent k = i \<Longrightarrow> \<not> lt (q ! k) (q ! j)"
  shows "heap_but_down lt (Swap q i j) j n"
proof -
  let ?q = "Swap q i j"
  have i: "i < j" "i < length q" "j < length q" using assms(2-5) by auto
  note nth = nth_Swap [OF i(2,3)]
  have ok: "\<not> lt (q ! k) (q ! parent k)" if "k < n" "0 < k" "parent k \<noteq> i" for k
    using assms(1) that by (simp add: heap_but_down_def)
  have above: "\<not> lt (q ! k) (q ! parent i)" if "k < n" "0 < k" "parent k = i" "0 < i" for k
    using assms(1) that by (simp add: heap_but_down_def)
  have "\<not> lt (?q ! k) (?q ! parent k)" if k: "k < n" "0 < k" "parent k \<noteq> j" for k
  proof -
    have "parent k < k" using k(2) by auto
    then show ?thesis
      using ok [OF k(1,2)] least [OF k(1,2)] above [OF assms(3,5,4)] less_asym [OF less] k(2,3) i(1) assms(4)
      unfolding nth by auto
  qed
  moreover have "\<not> lt (?q ! k) (?q ! parent j)" if k: "k < n" "0 < k" "parent k = j" for k
  proof -
    have "parent k < k" using k(2) by auto
    then show ?thesis using ok [OF k(1,2)] k i(1) assms(4) unfolding nth by auto
  qed
  ultimately show ?thesis by (simp add: heap_but_down_def)
qed

lemma down_done:
  assumes "heap_but_down lt q i n" "n \<le> length q"
    and "\<And>k. k < n \<Longrightarrow> 0 < k \<Longrightarrow> parent k = i \<Longrightarrow> \<not> lt (q ! k) (q ! i)"
  shows "is_heap lt (take n q)"
  using assms by (auto simp: is_heap_def heap_but_down_def)

text \<open>The smaller child that \<^verbatim>\<open>down\<close> selects.\<close>

lemma down_child:
  assumes "2 * i + 1 < n" "j = (if 2 * i + 1 + 1 < n \<and> lt (q ! (2 * i + 1 + 1)) (q ! (2 * i + 1))
             then 2 * i + 1 + 1 else 2 * i + 1)"
  shows "j < n" "0 < j" "parent j = i" "i < j"
    and "\<And>k. k < n \<Longrightarrow> 0 < k \<Longrightarrow> parent k = i \<Longrightarrow> \<not> lt (q ! k) (q ! j)"
proof -
  show "j < n" "0 < j" "parent j = i" "i < j" using assms by (auto split: if_splits)
  fix k
  assume k: "k < n" "0 < k" "parent k = i"
  have irr: "\<not> lt x x" for x using less_asym by blast
  have "k = 2 * i + 1 \<or> k = 2 * i + 1 + 1" using k(2,3) by arith
  then show "\<not> lt (q ! k) (q ! j)" using assms(2) k(1) irr less_asym by (auto split: if_splits)
qed

lemma down_heap:
  "heap_but_down lt q i n \<Longrightarrow> n \<le> length q \<Longrightarrow> is_heap lt (take n (heap_down lt q i n))"
proof (induction "n - i" arbitrary: q i rule: less_induct)
  case less
  define j where "j = (if 2 * i + 1 + 1 < n \<and> lt (q ! (2 * i + 1 + 1)) (q ! (2 * i + 1))
    then 2 * i + 1 + 1 else 2 * i + 1)"
  show ?case
  proof (cases "n \<le> 2 * i + 1")
    case True
    then have "heap_down lt q i n = q" by (subst heap_down.simps) (simp add: Let_def)
    then show ?thesis using down_done [OF less.prems] True by fastforce
  next
    case False
    then have child: "j < n" "0 < j" "parent j = i" "i < j"
      "\<And>k. k < n \<Longrightarrow> 0 < k \<Longrightarrow> parent k = i \<Longrightarrow> \<not> lt (q ! k) (q ! j)"
      using down_child [OF _ j_def] by (simp_all add: not_le)
    have down: "heap_down lt q i n = (if \<not> lt (q ! j) (q ! i) then q else heap_down lt (Swap q i j) j n)"
      by (subst heap_down.simps) (simp only: Let_def if_not_P [OF False] j_def)
    show ?thesis
    proof (cases "lt (q ! j) (q ! i)")
      case True
      have "heap_down lt q i n = heap_down lt (Swap q i j) j n" using True down by simp
      moreover have "heap_but_down lt (Swap q i j) j n"
        by (rule down_step [OF less.prems child(1,3,2) True child(5)])
      ultimately show ?thesis using less.hyps [of j "Swap q i j"] child(1,4) less.prems(2) by simp
    next
      case stop: False
      then have "heap_down lt q i n = q" using down by simp
      moreover have "\<not> lt (q ! k) (q ! i)" if "k < n" "0 < k" "parent k = i" for k
        using not_less_trans [OF stop child(5) [OF that]] .
      ultimately show ?thesis using down_done [OF less.prems] by simp
    qed
  qed
qed

lemma heap_least: "is_heap lt q \<Longrightarrow> k < length q \<Longrightarrow> \<not> lt (q ! k) (q ! 0)"
proof (induction k rule: less_induct)
  case (less k)
  show ?case
  proof (cases "k = 0")
    case True
    then show ?thesis using less_asym by blast
  next
    case False
    then have "\<not> lt (q ! k) (q ! parent k)" using less.prems by (simp add: is_heap_def)
    moreover have "\<not> lt (q ! parent k) (q ! 0)" using less.IH [of "parent k"] less.prems False by auto
    ultimately show ?thesis using not_less_trans by blast
  qed
qed

text \<open>What the queues rely on.\<close>

theorem Push_heap: "is_heap lt q \<Longrightarrow> is_heap lt (heap_Push lt q x)"
  unfolding heap_Push_def
  by (rule up_heap) (auto simp: heap_but_up_def is_heap_def nth_append)

theorem Peek_least: "is_heap lt q \<Longrightarrow> x \<in> set q \<Longrightarrow> \<not> lt x (q ! 0)"
  using heap_least by (metis in_set_conv_nth)

theorem Pop_heap:
  assumes "is_heap lt q" "q \<noteq> []"
  shows "\<exists>r. heap_Pop lt q = Some (q ! 0, r) \<and> is_heap lt r \<and> mset q = add_mset (q ! 0) (mset r)"
proof -
  let ?n = "length q - 1" and ?s = "Swap q 0 (length q - 1)"
  let ?d = "heap_down lt ?s 0 ?n"
  have n: "?n < length q" "0 < length q" using assms(2) by auto
  have "heap_but_down lt ?s 0 ?n"
    using assms(1) n by (auto simp: heap_but_down_def is_heap_def nth_Swap)
  then have heap: "is_heap lt (take ?n ?d)" by (rule down_heap) simp
  have ms: "mset ?d = mset q" "length ?d = length q"
    using heap_down_mset [of 0 ?s ?n lt] n by (simp_all add: mset_Swap)
  have last: "?d ! ?n = q ! 0"
  proof (cases "?n = 0")
    case True
    then have "?d = ?s" by (subst heap_down.simps) (simp add: Let_def)
    then show ?thesis using n True by (simp add: nth_Swap)
  next
    case False
    then show ?thesis using heap_down_beyond [of 0 ?n ?s ?n lt] n by (simp add: nth_Swap)
  qed
  have "?d = take ?n ?d @ [?d ! ?n]" using ms(2) n by (metis Suc_pred' take_Suc_conv_app_nth take_all_iff order_refl)
  then have "mset q = add_mset (q ! 0) (mset (take ?n ?d))"
    using ms(1) last by (metis mset.simps(1) mset.simps(2) mset_append union_mset_add_mset_right add.right_neutral)
  then show ?thesis using heap last assms(2) by (simp add: heap_Pop_def Let_def)
qed

end

lemma Push_mset: "mset (heap_Push lt q x) = add_mset x (mset q)"
  using heap_up_mset [of "length q" "q @ [x]" lt] by (simp add: heap_Push_def)

lemma is_heap_Nil [simp]: "is_heap lt []"
  by (simp add: is_heap_def)

end
