(* ===== verification/TxPool.thy ===== *)
theory TxPool
  imports Executor Address GoHeap "HOL-Library.AList"
begin

text \<open>
  The transaction pool of \<^verbatim>\<open>txpool/\<close>: the queues of an account, the accounts, and the pool with its
  handlers.

  A transaction enters through \<^verbatim>\<open>addTx\<close>, waits in the enqueued queue of its sender and moves to the
  promoted queue once its nonce is the next expected one. The requests between these stages go over
  channels and are handled in goroutines of their own; the pool's record holds the requests whose
  goroutine has not run yet, in \<open>p_requests\<close>, and the events it has signalled, in \<open>p_events\<close>. Each
  handler runs under the locks of its account and is one step here. The order in which Go visits a map
  is an argument of the operations that do so. \<open>None\<close> is a nil dereference.
\<close>

subsection \<open>Account queues\<close>

type_synonym accountQueue = "Transaction list"

definition minNonceQueue_Less :: "Transaction \<Rightarrow> Transaction \<Rightarrow> bool" where
  "minNonceQueue_Less a b \<longleftrightarrow>
    (if tx_Nonce a = tx_Nonce b then tx_GasPrice b < tx_GasPrice a else tx_Nonce a < tx_Nonce b)"

definition aq_push :: "accountQueue \<Rightarrow> Transaction \<Rightarrow> accountQueue" where
  "aq_push q tx = heap_Push minNonceQueue_Less q tx"

definition aq_peek :: "accountQueue \<Rightarrow> Transaction option" where
  "aq_peek q = (if length q = 0 then None else Some (q ! 0))"

definition aq_pop :: "accountQueue \<Rightarrow> Transaction option \<times> accountQueue" where
  "aq_pop q =
    (if length q = 0 then (None, q)
     else (case heap_Pop minNonceQueue_Less q of Some (tx, q) \<Rightarrow> (Some tx, q) | None \<Rightarrow> (None, q)))"

definition aq_clear :: "accountQueue \<Rightarrow> Transaction list \<times> accountQueue" where
  "aq_clear q = (q, [])"

definition aq_length :: "accountQueue \<Rightarrow> uint64" where
  "aq_length q = of_nat (length q)"

lemma aq_pop_length: "aq_pop q = (Some tx, q') \<Longrightarrow> length q = Suc (length q')"
  using heap_down_mset [of 0 "Swap q 0 (length q - 1)" "length q - 1" minNonceQueue_Less]
  by (auto simp: aq_pop_def heap_Pop_def Let_def split: if_splits)

function aq_prune :: "accountQueue \<Rightarrow> uint64 \<Rightarrow> Transaction list \<times> accountQueue" where
  "aq_prune q nonce =
    (case aq_peek q of
       None \<Rightarrow> ([], q)
     | Some tx \<Rightarrow>
         if nonce \<le> tx_Nonce tx then ([], q)
         else
           (case aq_pop q of
              (None, q) \<Rightarrow> ([], q)
            | (Some tx, q) \<Rightarrow> let (pruned, q) = aq_prune q nonce in (tx # pruned, q)))"
  by pat_completeness auto
termination by (relation "measure (\<lambda>(q, _). length q)") (auto dest: aq_pop_length [OF sym])

declare aq_prune.simps [simp del]

lemma aq_pop_le: "length (snd (aq_pop q)) \<le> length q"
proof (cases "fst (aq_pop q)")
  case None
  then show ?thesis by (auto simp: aq_pop_def heap_Pop_def Let_def)
next
  case (Some tx)
  then show ?thesis using aq_pop_length [of q tx "snd (aq_pop q)"] by (cases "aq_pop q") simp
qed

lemma aq_prune_length: "length (snd (aq_prune q nonce)) \<le> length q"
proof (induction q nonce rule: aq_prune.induct)
  case (1 q nonce)
  obtain r q' where pop: "aq_pop q = (r, q')" by fastforce
  show ?case
  proof (cases "\<exists>tx t. aq_peek q = Some tx \<and> \<not> nonce \<le> tx_Nonce tx \<and> r = Some t")
    case True
    then obtain tx t where "aq_peek q = Some tx" "\<not> nonce \<le> tx_Nonce tx" "r = Some t" by blast
    moreover from this have "length (snd (aq_prune q' nonce)) \<le> length q'" using 1 [of tx r q' t] pop by simp
    ultimately show ?thesis using pop aq_pop_length [of q t q']
      by (subst aq_prune.simps) (simp add: case_prod_beta Let_def)
  next
    case False
    then show ?thesis using pop aq_pop_le [of q]
      by (subst aq_prune.simps) (auto split: option.split)
  qed
qed

subsection \<open>The queue of executable transactions\<close>

definition maxPriceQueue_Less :: "Transaction \<Rightarrow> Transaction \<Rightarrow> bool" where
  "maxPriceQueue_Less a b \<longleftrightarrow> big_Uint64 (tx_GasPrice b) < big_Uint64 (tx_GasPrice a)"

definition pq_push :: "Transaction list \<Rightarrow> Transaction \<Rightarrow> Transaction list" where
  "pq_push q tx = heap_Push maxPriceQueue_Less q tx"

definition pq_pop :: "Transaction list \<Rightarrow> Transaction option \<times> Transaction list" where
  "pq_pop q =
    (if length q = 0 then (None, q)
     else (case heap_Pop maxPriceQueue_Less q of Some (tx, q) \<Rightarrow> (Some tx, q) | None \<Rightarrow> (None, q)))"

subsection \<open>Accounts\<close>

record account =
  acc_enqueued :: accountQueue
  acc_promoted :: accountQueue
  acc_nextNonce :: uint64
  acc_demotions :: uint64
  acc_skips :: uint64
  acc_maxEnqueued :: uint64

datatype poolError =
    ErrIntrinsicGas | ErrBlockLimitExceeded | ErrNegativeValue | ErrExtractSignature | ErrInvalidSender
  | ErrTxPoolOverflow | ErrUnderpriced | ErrNonceTooLow | ErrInsufficientFunds | ErrInvalidAccountState
  | ErrAlreadyKnown | ErrOversizedData | ErrMaxEnqueuedLimitReached | ErrRejectFutureTx
  | ErrSmartContractRestricted | ErrInvalidTxType | ErrPoolMaxCodeSizeExceeded | ErrGasCost txError

definition account_enqueue :: "account \<Rightarrow> Transaction \<Rightarrow> poolError + account" where
  "account_enqueue a tx =
    (if aq_length (acc_enqueued a) = acc_maxEnqueued a then Inl ErrMaxEnqueuedLimitReached
     else if tx_Nonce tx < acc_nextNonce a then Inl ErrNonceTooLow
     else Inr (a\<lparr>acc_enqueued := aq_push (acc_enqueued a) tx\<rparr>))"

text \<open>The loop of \<^verbatim>\<open>promote\<close>; the last two arguments accumulate its results.\<close>

function promote_loop ::
  "uint64 \<Rightarrow> accountQueue \<Rightarrow> accountQueue \<Rightarrow> Transaction list \<Rightarrow> Transaction list
    \<Rightarrow> uint64 \<times> accountQueue \<times> accountQueue \<times> Transaction list \<times> Transaction list" where
  "promote_loop nextNonce enq prom promoted pruned =
    (case aq_peek enq of
       None \<Rightarrow> (nextNonce, enq, prom, promoted, pruned)
     | Some tx \<Rightarrow>
         if tx_Nonce tx \<noteq> nextNonce then (nextNonce, enq, prom, promoted, pruned)
         else
           (case aq_pop enq of
              (None, enq) \<Rightarrow> (nextNonce, enq, prom, promoted, pruned)
            | (Some tx, enq) \<Rightarrow>
                let prom = aq_push prom tx;
                    nextNonce = tx_Nonce tx + 1;
                    pe = aq_prune enq nextNonce
                in promote_loop nextNonce (snd pe) prom (promoted @ [tx]) (pruned @ fst pe)))"
  by pat_completeness auto
termination
  by (relation "measure (\<lambda>(_, enq, _). length enq)")
     (auto dest!: aq_pop_length [OF sym] intro: le_less_trans [OF aq_prune_length])

declare promote_loop.simps [simp del]

definition account_promote :: "account \<Rightarrow> Transaction list \<times> Transaction list \<times> account" where
  "account_promote a =
    (let currentNonce = acc_nextNonce a in
     case aq_peek (acc_enqueued a) of
       None \<Rightarrow> ([], [], a)
     | Some first \<Rightarrow>
         if currentNonce < tx_Nonce first then ([], [], a)
         else
           let (nextNonce, enq, prom, promoted, pruned) =
                 promote_loop (tx_Nonce first) (acc_enqueued a) (acc_promoted a) [] [];
               a = a\<lparr>acc_enqueued := enq, acc_promoted := prom\<rparr>
           in (promoted, pruned,
               if currentNonce < nextNonce then a\<lparr>acc_nextNonce := nextNonce\<rparr> else a))"

text \<open>The third component is the account of the promotion that \<^verbatim>\<open>reset\<close> may signal.\<close>

definition account_reset ::
  "account \<Rightarrow> uint64 \<Rightarrow> Transaction list \<times> Transaction list \<times> address option \<times> account" where
  "account_reset a nonce =
    (let (prunedPromoted, prom) = aq_prune (acc_promoted a) nonce;
         a = a\<lparr>acc_promoted := prom\<rparr>
     in if nonce \<le> acc_nextNonce a then (prunedPromoted, [], None, a)
        else
          let (prunedEnqueued, enq) = aq_prune (acc_enqueued a) nonce;
              a = a\<lparr>acc_enqueued := enq, acc_nextNonce := nonce\<rparr>;
              signal = (case aq_peek enq of
                          Some first \<Rightarrow> if tx_Nonce first = nonce then Some (tx_From first) else None
                        | None \<Rightarrow> None)
          in (prunedPromoted, prunedEnqueued, signal, a))"

definition getLowestTx :: "account \<Rightarrow> Transaction option" where
  "getLowestTx a =
    (case aq_peek (acc_promoted a) of
       Some tx \<Rightarrow> Some tx
     | None \<Rightarrow> aq_peek (acc_enqueued a))"

definition resetDemotions :: "account \<Rightarrow> account" where
  "resetDemotions a = a\<lparr>acc_demotions := 0\<rparr>"

definition incrementDemotions :: "account \<Rightarrow> account" where
  "incrementDemotions a = a\<lparr>acc_demotions := acc_demotions a + 1\<rparr>"

definition resetSkips :: "account \<Rightarrow> account" where
  "resetSkips a = a\<lparr>acc_skips := 0\<rparr>"

definition incrementSkips :: "account \<Rightarrow> account" where
  "incrementSkips a = a\<lparr>acc_skips := acc_skips a + 1\<rparr>"

subsection \<open>The pool\<close>

definition txSlotSize :: uint64 where "txSlotSize = 32 * 1024"
definition txMaxSize :: uint64 where "txMaxSize = 128 * 1024"
definition maxAccountDemotions :: uint64 where "maxAccountDemotions = 10"
definition maxAccountSkips :: uint64 where "maxAccountSkips = 10"
definition highPressureMark :: uint64 where "highPressureMark = 80"
definition TxPoolMaxInitCodeSize :: nat where "TxPoolMaxInitCodeSize = 2 * SpuriousDragonMaxCodeSize"

datatype request = EnqueueRequest Transaction | PromoteRequest address | PruneRequest

datatype EventType =
    EventType_ADDED | EventType_ENQUEUED | EventType_PROMOTED | EventType_DROPPED | EventType_DEMOTED
  | EventType_PRUNED_PROMOTED | EventType_PRUNED_ENQUEUED

record TxPool =
  p_forks :: ForksInTime
  p_accounts :: "address \<rightharpoonup> account"
  p_count :: uint64
  p_maxEnqueuedLimit :: uint64
  p_executables :: "Transaction list"
  p_index :: "hash \<rightharpoonup> Transaction"
  p_height :: uint64
  p_max :: uint64
  p_priceLimit :: uint64
  p_sealing :: bool
  p_deploymentWhitelist :: "(string \<times> bool) list"
  p_pending :: uint64
  p_requests :: "request list"
  p_pruner_waiting :: bool
  p_events :: "(EventType \<times> hash) list"

text \<open>What the pool is given: the RLP library, the signer, and the state behind the head of the chain,
  which changes between calls.\<close>

record ('a, 'v) PoolEnv =
  pe_R :: "('a, 'v) Codec"
  pe_Sender :: "Transaction \<Rightarrow> address option"

record Store =
  st_StateRoot :: hash
  st_GasLimit :: uint64
  st_GetNonce :: "hash \<Rightarrow> address \<Rightarrow> uint64"
  st_GetBalance :: "hash \<Rightarrow> address \<Rightarrow> int option"
  st_GetBlockByHash :: "hash \<Rightarrow> Transaction list option"

subsection \<open>The deployment whitelist\<close>

text \<open>The whitelist is a map from the strings of the addresses, held as an association list.\<close>

definition deploymentWhitelist_add ::
  "(byte list \<Rightarrow> hash) \<Rightarrow> address \<Rightarrow> (string \<times> bool) list \<Rightarrow> (string \<times> bool) list" where
  "deploymentWhitelist_add keccak addr w = AList.update (checksumEncode keccak addr) True w"

definition deploymentWhitelist_allowed :: "(byte list \<Rightarrow> hash) \<Rightarrow> address \<Rightarrow> (string \<times> bool) list \<Rightarrow> bool"
  where
  "deploymentWhitelist_allowed keccak addr w \<longleftrightarrow>
    length w = 0 \<or> map_of w (checksumEncode keccak addr) \<noteq> None"

definition newDeploymentWhitelist :: "(byte list \<Rightarrow> hash) \<Rightarrow> address list \<Rightarrow> (string \<times> bool) list" where
  "newDeploymentWhitelist keccak raw = fold (deploymentWhitelist_add keccak) raw []"

record PoolConfig =
  cfg_PriceLimit :: uint64
  cfg_MaxSlots :: uint64
  cfg_MaxAccountEnqueued :: uint64
  cfg_DeploymentWhitelist :: "address list"

definition NewTxPool :: "('a, 'v) PoolEnv \<Rightarrow> ForksInTime \<Rightarrow> PoolConfig \<Rightarrow> TxPool" where
  "NewTxPool E forks c =
    \<lparr> p_forks = forks, p_accounts = Map.empty, p_count = 0, p_maxEnqueuedLimit = cfg_MaxAccountEnqueued c,
      p_executables = [], p_index = Map.empty, p_height = 0, p_max = cfg_MaxSlots c,
      p_priceLimit = cfg_PriceLimit c, p_sealing = False,
      p_deploymentWhitelist = newDeploymentWhitelist (Keccak (pe_R E)) (cfg_DeploymentWhitelist c),
      p_pending = 0, p_requests = [], p_pruner_waiting = True, p_events = [] \<rparr>"

subsection \<open>Gauge, index, events\<close>

definition gauge_increase :: "uint64 \<Rightarrow> TxPool \<Rightarrow> TxPool" where
  "gauge_increase slots p = p\<lparr>p_height := p_height p + slots\<rparr>"

definition gauge_decrease :: "uint64 \<Rightarrow> TxPool \<Rightarrow> TxPool" where
  "gauge_decrease slots p = p\<lparr>p_height := p_height p + NOT (slots - 1)\<rparr>"

definition highPressure :: "TxPool \<Rightarrow> bool" where
  "highPressure p \<longleftrightarrow> (highPressureMark * p_max p) div 100 < p_height p"

definition slotsRequired :: "('a, 'v) PoolEnv \<Rightarrow> Transaction list \<Rightarrow> uint64" where
  "slotsRequired E txs =
    foldl (\<lambda>slots tx. slots + (of_nat (length (Transaction_MarshalRLP (pe_R E) tx)) + txSlotSize - 1) div txSlotSize)
      0 txs"

definition index_add :: "Transaction \<Rightarrow> TxPool \<Rightarrow> bool \<times> TxPool" where
  "index_add tx p =
    (if p_index p (tx_Hash tx) \<noteq> None then (False, p)
     else (True, p\<lparr>p_index := (p_index p)(tx_Hash tx \<mapsto> tx)\<rparr>))"

definition index_remove :: "Transaction list \<Rightarrow> TxPool \<Rightarrow> TxPool" where
  "index_remove txs p = p\<lparr>p_index := fold (\<lambda>tx m. m(tx_Hash tx := None)) txs (p_index p)\<rparr>"

definition signalEvent :: "EventType \<Rightarrow> hash list \<Rightarrow> TxPool \<Rightarrow> TxPool" where
  "signalEvent ty hs p = p\<lparr>p_events := p_events p @ map (\<lambda>h. (ty, h)) hs\<rparr>"

definition updatePending :: "int \<Rightarrow> TxPool \<Rightarrow> TxPool" where
  "updatePending i p = p\<lparr>p_pending := p_pending p + word_of_int i\<rparr>"

text \<open>A send to a channel: the main loop receives the request and starts its goroutine.\<close>

definition send :: "request \<Rightarrow> TxPool \<Rightarrow> TxPool" where
  "send r p = p\<lparr>p_requests := p_requests p @ [r]\<rparr>"

text \<open>The send on \<^verbatim>\<open>pruneCh\<close> succeeds only if the pruning goroutine is waiting for it.\<close>

definition signalPruning :: "TxPool \<Rightarrow> TxPool" where
  "signalPruning p = (if p_pruner_waiting p then send PruneRequest (p\<lparr>p_pruner_waiting := False\<rparr>) else p)"

definition set_account :: "address \<Rightarrow> account \<Rightarrow> TxPool \<Rightarrow> TxPool" where
  "set_account addr a p = p\<lparr>p_accounts := (p_accounts p)(addr \<mapsto> a)\<rparr>"

subsection \<open>Entering the pool\<close>

definition validateTx :: "('a, 'v) PoolEnv \<Rightarrow> Store \<Rightarrow> TxPool \<Rightarrow> Transaction \<Rightarrow> poolError + Transaction" where
  "validateTx E S p tx =
    (if tx_Type tx = StateTx then Inl ErrInvalidTxType
     else if txMaxSize < of_nat (length (Transaction_MarshalRLP (pe_R E) tx)) then Inl ErrOversizedData
     else if tx_Value tx < 0 then Inl ErrNegativeValue
     else
       (case pe_Sender E tx of
          None \<Rightarrow> Inl ErrExtractSignature
        | Some from \<Rightarrow>
            if tx_From tx \<noteq> 0 \<and> tx_From tx \<noteq> from then Inl ErrInvalidSender
            else
              let tx = (if tx_From tx = 0 then tx\<lparr>tx_From := from\<rparr> else tx) in
              if IsContractCreation tx
                 \<and> \<not> deploymentWhitelist_allowed (Keccak (pe_R E)) (tx_From tx) (p_deploymentWhitelist p)
              then Inl ErrSmartContractRestricted
              else if IsContractCreation tx \<and> EIP158 (p_forks p) \<and> TxPoolMaxInitCodeSize < length (tx_Input tx)
              then Inl ErrPoolMaxCodeSizeExceeded
              else if IsUnderpriced tx (p_priceLimit p) then Inl ErrUnderpriced
              else if tx_Nonce tx < st_GetNonce S (st_StateRoot S) (tx_From tx) then Inl ErrNonceTooLow
              else
                (case st_GetBalance S (st_StateRoot S) (tx_From tx) of
                   None \<Rightarrow> Inl ErrInvalidAccountState
                 | Some accountBalance \<Rightarrow>
                     if accountBalance < Cost tx then Inl ErrInsufficientFunds
                     else
                       (case TransactionGasCost tx (Homestead (p_forks p)) (Istanbul (p_forks p)) of
                          Inl e \<Rightarrow> Inl (ErrGasCost e)
                        | Inr intrinsicGas \<Rightarrow>
                            if tx_Gas tx < intrinsicGas then Inl ErrIntrinsicGas
                            else if st_GasLimit S < tx_Gas tx then Inl ErrBlockLimitExceeded
                            else Inr tx))))"

definition initOnce :: "address \<Rightarrow> uint64 \<Rightarrow> TxPool \<Rightarrow> TxPool" where
  "initOnce addr nonce p =
    (if p_accounts p addr \<noteq> None then p
     else set_account addr
       \<lparr> acc_enqueued = [], acc_promoted = [], acc_nextNonce = nonce, acc_demotions = 0, acc_skips = 0,
         acc_maxEnqueued = p_maxEnqueuedLimit p \<rparr> (p\<lparr>p_count := p_count p + 1\<rparr>))"

definition createAccountOnce :: "Store \<Rightarrow> address \<Rightarrow> TxPool \<Rightarrow> TxPool" where
  "createAccountOnce S newAddr p =
    (if p_accounts p newAddr \<noteq> None then p else initOnce newAddr (st_GetNonce S (st_StateRoot S) newAddr) p)"

definition addTx ::
  "('a, 'v) PoolEnv \<Rightarrow> Store \<Rightarrow> Transaction \<Rightarrow> TxPool \<Rightarrow> poolError option \<times> TxPool" where
  "addTx E S tx p =
    (case validateTx E S p tx of
       Inl e \<Rightarrow> (Some e, p)
     | Inr tx \<Rightarrow>
         let high = highPressure p;
             p = (if high then signalPruning p else p)
         in if high \<and> (case p_accounts p (tx_From tx) of
                          Some a \<Rightarrow> acc_nextNonce a < tx_Nonce tx
                        | None \<Rightarrow> False)
            then (Some ErrRejectFutureTx, p)
            else if p_max p - p_height p < slotsRequired E [tx] then (Some ErrTxPoolOverflow, p)
            else
              let tx = Transaction_ComputeHash (pe_R E) tx;
                  (ok, p) = index_add tx p
              in if \<not> ok then (Some ErrAlreadyKnown, p)
                 else
                   let p = createAccountOnce S (tx_From tx) p;
                       p = send (EnqueueRequest tx) p
                   in (None, signalEvent EventType_ADDED [tx_Hash tx] p))"

subsection \<open>The handlers\<close>

definition handleEnqueueRequest :: "('a, 'v) PoolEnv \<Rightarrow> Transaction \<Rightarrow> TxPool \<Rightarrow> TxPool option" where
  "handleEnqueueRequest E tx p =
    (case p_accounts p (tx_From tx) of
       None \<Rightarrow> None
     | Some a \<Rightarrow>
         (case account_enqueue a tx of
            Inl e \<Rightarrow> Some (index_remove [tx] p)
          | Inr a \<Rightarrow>
              let p = set_account (tx_From tx) a p;
                  p = gauge_increase (slotsRequired E [tx]) p;
                  p = signalEvent EventType_ENQUEUED [tx_Hash tx] p
              in Some (if acc_nextNonce a < tx_Nonce tx then p else send (PromoteRequest (tx_From tx)) p)))"

definition handlePromoteRequest :: "('a, 'v) PoolEnv \<Rightarrow> address \<Rightarrow> TxPool \<Rightarrow> TxPool option" where
  "handlePromoteRequest E addr p =
    (case p_accounts p addr of
       None \<Rightarrow> None
     | Some a \<Rightarrow>
         let (promoted, pruned, a) = account_promote a;
             p = set_account addr a p;
             p = index_remove pruned p;
             p = gauge_decrease (slotsRequired E pruned) p;
             p = updatePending (int (length promoted)) p
         in Some (signalEvent EventType_PROMOTED (map tx_Hash promoted) p))"

definition prune_account :: "('a, 'v) PoolEnv \<Rightarrow> address \<Rightarrow> TxPool \<Rightarrow> TxPool" where
  "prune_account E addr p =
    (case p_accounts p addr of
       None \<Rightarrow> p
     | Some a \<Rightarrow>
         (case aq_peek (acc_enqueued a) of
            None \<Rightarrow> p
          | Some firstTx \<Rightarrow>
              if tx_Nonce firstTx = acc_nextNonce a then p
              else
                let (removed, enq) = aq_clear (acc_enqueued a);
                    p = set_account addr (a\<lparr>acc_enqueued := enq\<rparr>) p;
                    p = index_remove removed p
                in gauge_decrease (slotsRequired E removed) p))"

text \<open>The keys of the map of accounts are visited in the order \<open>ks\<close>.\<close>

definition pruneAccountsWithNonceHoles :: "('a, 'v) PoolEnv \<Rightarrow> address list \<Rightarrow> TxPool \<Rightarrow> TxPool" where
  "pruneAccountsWithNonceHoles E ks p = fold (prune_account E) ks p"

subsection \<open>Building a block\<close>

definition getPrimaries :: "address list \<Rightarrow> TxPool \<Rightarrow> Transaction list" where
  "getPrimaries ks p =
    concat (map (\<lambda>addr. case p_accounts p addr of
                          None \<Rightarrow> []
                        | Some a \<Rightarrow> (case aq_peek (acc_promoted a) of Some tx \<Rightarrow> [tx] | None \<Rightarrow> [])) ks)"

definition Prepare :: "address list \<Rightarrow> TxPool \<Rightarrow> TxPool" where
  "Prepare ks p = p\<lparr>p_executables := foldl pq_push [] (getPrimaries ks p)\<rparr>"

definition Peek :: "TxPool \<Rightarrow> Transaction option \<times> TxPool" where
  "Peek p = (let (tx, q) = pq_pop (p_executables p) in (tx, p\<lparr>p_executables := q\<rparr>))"

definition Pop :: "('a, 'v) PoolEnv \<Rightarrow> Transaction \<Rightarrow> TxPool \<Rightarrow> TxPool option" where
  "Pop E tx p =
    (case p_accounts p (tx_From tx) of
       None \<Rightarrow> None
     | Some a \<Rightarrow>
         let a = a\<lparr>acc_promoted := snd (aq_pop (acc_promoted a))\<rparr>;
             a = resetDemotions a;
             p = set_account (tx_From tx) a p;
             p = gauge_decrease (slotsRequired E [tx]) p;
             p = updatePending (- 1) p
         in Some (case aq_peek (acc_promoted a) of
                    Some tx \<Rightarrow> p\<lparr>p_executables := pq_push (p_executables p) tx\<rparr>
                  | None \<Rightarrow> p))"

definition clearAccountQueue :: "('a, 'v) PoolEnv \<Rightarrow> Transaction list \<Rightarrow> TxPool \<Rightarrow> TxPool" where
  "clearAccountQueue E txs p = gauge_decrease (slotsRequired E txs) (index_remove txs p)"

definition Drop :: "('a, 'v) PoolEnv \<Rightarrow> Transaction \<Rightarrow> TxPool \<Rightarrow> TxPool option" where
  "Drop E tx p =
    (case p_accounts p (tx_From tx) of
       None \<Rightarrow> None
     | Some a \<Rightarrow>
         let a = a\<lparr>acc_nextNonce := tx_Nonce tx\<rparr>;
             (dropped, prom) = aq_clear (acc_promoted a);
             p = clearAccountQueue E dropped p;
             p = updatePending (- int (length dropped)) p;
             (dropped, enq) = aq_clear (acc_enqueued a);
             p = clearAccountQueue E dropped p;
             p = set_account (tx_From tx) (a\<lparr>acc_promoted := prom, acc_enqueued := enq\<rparr>) p
         in Some (signalEvent EventType_DROPPED [tx_Hash tx] p))"

definition Demote :: "('a, 'v) PoolEnv \<Rightarrow> Transaction \<Rightarrow> TxPool \<Rightarrow> TxPool option" where
  "Demote E tx p =
    (case p_accounts p (tx_From tx) of
       None \<Rightarrow> None
     | Some a \<Rightarrow>
         if maxAccountDemotions \<le> acc_demotions a then do {
           p \<leftarrow> Drop E tx p;
           a \<leftarrow> p_accounts p (tx_From tx);
           Some (set_account (tx_From tx) (resetDemotions a) p) }
         else Some (signalEvent EventType_DEMOTED [tx_Hash tx] (set_account (tx_From tx) (incrementDemotions a) p)))"

subsection \<open>New blocks\<close>

text \<open>One account of the loop of \<^verbatim>\<open>resetAccounts\<close>, which collects the pruned transactions.\<close>

definition reset_one ::
  "address \<times> uint64 \<Rightarrow> Transaction list \<times> Transaction list \<times> TxPool
    \<Rightarrow> Transaction list \<times> Transaction list \<times> TxPool" where
  "reset_one = (\<lambda>(addr, newNonce) (allPrunedPromoted, allPrunedEnqueued, p).
    (case p_accounts p addr of
       None \<Rightarrow> (allPrunedPromoted, allPrunedEnqueued, p)
     | Some a \<Rightarrow>
         let (prunedPromoted, prunedEnqueued, signal, a) = account_reset a newNonce;
             p = set_account addr (resetDemotions a) p;
             p = (case signal of Some from \<Rightarrow> send (PromoteRequest from) p | None \<Rightarrow> p)
         in (allPrunedPromoted @ prunedPromoted, allPrunedEnqueued @ prunedEnqueued, p)))"

definition resetAccounts :: "('a, 'v) PoolEnv \<Rightarrow> (address \<times> uint64) list \<Rightarrow> TxPool \<Rightarrow> TxPool" where
  "resetAccounts E stateNonces p =
    (let (allPrunedPromoted, allPrunedEnqueued, p) = fold reset_one stateNonces ([], [], p);
         p = (if 0 < length allPrunedPromoted
              then updatePending (- int (length allPrunedPromoted))
                     (signalEvent EventType_PRUNED_PROMOTED (map tx_Hash allPrunedPromoted)
                       (clearAccountQueue E allPrunedPromoted p))
              else p)
     in if 0 < length allPrunedEnqueued
        then signalEvent EventType_PRUNED_ENQUEUED (map tx_Hash allPrunedEnqueued)
               (clearAccountQueue E allPrunedEnqueued p)
        else p)"

definition skip_account ::
  "('a, 'v) PoolEnv \<Rightarrow> address set \<Rightarrow> address \<Rightarrow> TxPool \<Rightarrow> TxPool option" where
  "skip_account E active addr p =
    (case p_accounts p addr of
       None \<Rightarrow> Some p
     | Some a \<Rightarrow>
         if addr \<in> active then Some (set_account addr (resetSkips a) p)
         else
           (case getLowestTx a of
              None \<Rightarrow> Some p
            | Some firstTx \<Rightarrow>
                let a = incrementSkips a; p = set_account addr a p in
                if acc_skips a < maxAccountSkips then Some p
                else do {
                  p \<leftarrow> Drop E firstTx p;
                  a \<leftarrow> p_accounts p addr;
                  Some (set_account addr (resetSkips a) p) }))"

fun updateAccountSkipsCounts ::
  "('a, 'v) PoolEnv \<Rightarrow> address set \<Rightarrow> address list \<Rightarrow> TxPool \<Rightarrow> TxPool option" where
  "updateAccountSkipsCounts E active [] p = Some p"
| "updateAccountSkipsCounts E active (addr # ks) p = do {
     p \<leftarrow> skip_account E active addr p;
     updateAccountSkipsCounts E active ks p }"

text \<open>The latest nonces of the senders of the new blocks, each sender once.\<close>

definition latest_nonce ::
  "('a, 'v) PoolEnv \<Rightarrow> Store \<Rightarrow> Transaction \<Rightarrow> (address \<times> uint64) list \<Rightarrow> (address \<times> uint64) list" where
  "latest_nonce E S tx stateNonces =
    (case (if tx_From tx = 0 then pe_Sender E tx else Some (tx_From tx)) of
       None \<Rightarrow> stateNonces
     | Some addr \<Rightarrow>
         if addr \<in> fst ` set stateNonces then stateNonces
         else stateNonces @ [(addr, st_GetNonce S (st_StateRoot S) addr)])"

definition processHeader ::
  "('a, 'v) PoolEnv \<Rightarrow> Store \<Rightarrow> hash \<Rightarrow> (address \<times> uint64) list \<times> TxPool
    \<Rightarrow> (address \<times> uint64) list \<times> TxPool" where
  "processHeader E S h = (\<lambda>(stateNonces, p).
    (case st_GetBlockByHash S h of
       None \<Rightarrow> (stateNonces, p)
     | Some txs \<Rightarrow> (fold (latest_nonce E S) txs stateNonces, index_remove txs p)))"

text \<open>The map of nonces is visited in the order \<open>ord\<close>, the accounts in the order \<open>ks\<close>.\<close>

definition processEvent ::
  "('a, 'v) PoolEnv \<Rightarrow> Store \<Rightarrow> ((address \<times> uint64) list \<Rightarrow> (address \<times> uint64) list) \<Rightarrow> address list
    \<Rightarrow> hash list \<Rightarrow> TxPool \<Rightarrow> TxPool option" where
  "processEvent E S ord ks newChain p =
    (let (stateNonces, p) = fold (processHeader E S) newChain ([], p);
         p = (if stateNonces = [] then p else resetAccounts E (ord stateNonces) p)
     in if p_sealing p then Some p
        else updateAccountSkipsCounts E (fst ` set stateNonces) ks p)"

definition ResetWithHeaders ::
  "('a, 'v) PoolEnv \<Rightarrow> Store \<Rightarrow> ((address \<times> uint64) list \<Rightarrow> (address \<times> uint64) list) \<Rightarrow> address list
    \<Rightarrow> Header list \<Rightarrow> TxPool \<Rightarrow> TxPool option" where
  "ResetWithHeaders E S ord ks headers p = processEvent E S ord ks (map hd_Hash headers) p"

definition SetSealing :: "bool \<Rightarrow> TxPool \<Rightarrow> TxPool" where
  "SetSealing b p = p\<lparr>p_sealing := b\<rparr>"

text \<open>A transaction gossiped by the network is decoded first; the pool of a node that does not seal
  ignores it.\<close>

definition addGossipTx :: "('a, 'v) PoolEnv \<Rightarrow> Store \<Rightarrow> byte list \<Rightarrow> TxPool \<Rightarrow> TxPool" where
  "addGossipTx E S raw p =
    (if \<not> p_sealing p then p
     else
       (case Transaction_UnmarshalRLP (pe_R E) raw zeroTransaction of
          Inl e \<Rightarrow> p
        | Inr tx \<Rightarrow> snd (addTx E S tx p)))"

definition PoolLength :: "address list \<Rightarrow> TxPool \<Rightarrow> uint64" where
  "PoolLength ks p =
    foldl (\<lambda>total addr. case p_accounts p addr of
                          None \<Rightarrow> total
                        | Some a \<Rightarrow> total + aq_length (acc_promoted a)) 0 ks"

definition PoolGetNonce :: "Store \<Rightarrow> address \<Rightarrow> TxPool \<Rightarrow> uint64" where
  "PoolGetNonce S addr p =
    (case p_accounts p addr of None \<Rightarrow> st_GetNonce S (st_StateRoot S) addr | Some a \<Rightarrow> acc_nextNonce a)"

subsection \<open>The pool as a transition system\<close>

text \<open>The keys of the accounts in some order, as \<^verbatim>\<open>Range\<close> visits them.\<close>

definition visits :: "address list \<Rightarrow> TxPool \<Rightarrow> bool" where
  "visits ks p \<longleftrightarrow> distinct ks \<and> set ks = dom (p_accounts p)"

fun handle :: "('a, 'v) PoolEnv \<Rightarrow> address list \<Rightarrow> request \<Rightarrow> TxPool \<Rightarrow> TxPool option" where
  "handle E ks (EnqueueRequest tx) p = handleEnqueueRequest E tx p"
| "handle E ks (PromoteRequest addr) p = handlePromoteRequest E addr p"
| "handle E ks PruneRequest p = Some (pruneAccountsWithNonceHoles E ks p)"

text \<open>Any pending request may be handled next. \<^verbatim>\<open>Pop\<close>, \<^verbatim>\<open>Drop\<close> and \<^verbatim>\<open>Demote\<close> are called by the consensus engine
  with a transaction that is first in the promoted queue of its sender.\<close>

definition primary :: "Transaction \<Rightarrow> TxPool \<Rightarrow> bool" where
  "primary tx p \<longleftrightarrow> (\<exists>a. p_accounts p (tx_From tx) = Some a \<and> aq_peek (acc_promoted a) = Some tx)"

inductive pool_step :: "('a, 'v) PoolEnv \<Rightarrow> TxPool \<Rightarrow> TxPool \<Rightarrow> bool" for E where
  step_add: "tx_Nonce tx \<noteq> - 1 \<Longrightarrow> pool_step E p (snd (addTx E S tx p))"
| step_handle: "p_requests p = rs @ r # rs' \<Longrightarrow> visits ks p
    \<Longrightarrow> handle E ks r (p\<lparr>p_requests := rs @ rs'\<rparr>) = Some p' \<Longrightarrow> pool_step E p p'"
| step_cooldown: "PruneRequest \<notin> set (p_requests p) \<Longrightarrow> pool_step E p (p\<lparr>p_pruner_waiting := True\<rparr>)"
| step_prepare: "visits ks p \<Longrightarrow> pool_step E p (Prepare ks p)"
| step_peek: "pool_step E p (snd (Peek p))"
| step_pop: "primary tx p \<Longrightarrow> Pop E tx p = Some p' \<Longrightarrow> pool_step E p p'"
| step_drop: "primary tx p \<Longrightarrow> Drop E tx p = Some p' \<Longrightarrow> pool_step E p p'"
| step_demote: "primary tx p \<Longrightarrow> Demote E tx p = Some p' \<Longrightarrow> pool_step E p p'"
| step_reset: "visits ks p \<Longrightarrow> (\<And>xs. mset (ord xs) = mset xs)
    \<Longrightarrow> processEvent E S ord ks newChain p = Some p' \<Longrightarrow> pool_step E p p'"
| step_seal: "pool_step E p (SetSealing b p)"

definition reachable :: "('a, 'v) PoolEnv \<Rightarrow> ForksInTime \<Rightarrow> PoolConfig \<Rightarrow> TxPool \<Rightarrow> bool" where
  "reachable E forks c p \<longleftrightarrow> (pool_step E)\<^sup>*\<^sup>* (NewTxPool E forks c) p"

end
