(* ===== verification/TxPoolQueues.thy ===== *)
theory TxPoolQueues
  imports TxPool
begin

text \<open>
  The queues and accounts of the transaction pool: the two orders satisfy the contract of the heap, a
  queue is a multiset of transactions with a least one in front, and every operation of an account keeps
  the account's invariant: the promoted transactions are a gap-free run of nonces that ends just before
  the next expected one, and the enqueued ones are not below it.
\<close>

interpretation nonce_heap: heap_order minNonceQueue_Less
  by unfold_locales (auto simp: minNonceQueue_Less_def split: if_splits)

interpretation price_heap: heap_order maxPriceQueue_Less
  by unfold_locales (auto simp: maxPriceQueue_Less_def)

abbreviation aq_heap :: "accountQueue \<Rightarrow> bool" where "aq_heap \<equiv> is_heap minNonceQueue_Less"

subsection \<open>A queue as a multiset\<close>

lemma aq_push_props [simp]:
  "aq_heap q \<Longrightarrow> aq_heap (aq_push q tx)" "mset (aq_push q tx) = add_mset tx (mset q)"
  by (simp_all add: aq_push_def nonce_heap.Push_heap Push_mset)

lemma aq_push_set [simp]: "set (aq_push q tx) = insert tx (set q)"
  by (metis aq_push_props(2) set_mset_add_mset_insert set_mset_mset)

lemma aq_push_size [simp]: "length (aq_push q tx) = Suc (length q)"
  by (metis aq_push_props(2) size_add_mset size_mset)

lemma aq_peek_None [simp]: "aq_peek q = None \<longleftrightarrow> q = []"
  by (simp add: aq_peek_def)

lemma aq_peek_least:
  assumes "aq_heap q" "aq_peek q = Some tx"
  shows "tx \<in> set q" and "\<And>t. t \<in> set q \<Longrightarrow> tx_Nonce tx \<le> tx_Nonce t"
    and "\<And>t. t \<in> set q \<Longrightarrow> tx_Nonce t = tx_Nonce tx \<Longrightarrow> tx_GasPrice t \<le> tx_GasPrice tx"
proof -
  have tx: "tx = q ! 0" "q \<noteq> []" using assms(2) by (auto simp: aq_peek_def split: if_splits)
  then show "tx \<in> set q" by simp
  show "tx_Nonce tx \<le> tx_Nonce t" "tx_Nonce t = tx_Nonce tx \<Longrightarrow> tx_GasPrice t \<le> tx_GasPrice tx" if "t \<in> set q" for t
    using nonce_heap.Peek_least [OF assms(1) that] tx(1) by (auto simp: minNonceQueue_Less_def split: if_splits)
qed

lemma aq_pop_props:
  assumes "aq_heap q" "aq_peek q = Some tx"
  shows "\<exists>r. aq_pop q = (Some tx, r) \<and> aq_heap r \<and> mset q = add_mset tx (mset r)"
proof -
  have "tx = q ! 0" "q \<noteq> []" using assms(2) by (auto simp: aq_peek_def split: if_splits)
  then show ?thesis using nonce_heap.Pop_heap [OF assms(1)] by (auto simp: aq_pop_def)
qed

lemma aq_prune_props:
  "aq_heap q \<Longrightarrow> aq_prune q nonce = (pruned, r) \<Longrightarrow>
    aq_heap r \<and> mset pruned = filter_mset (\<lambda>t. tx_Nonce t < nonce) (mset q)
    \<and> mset r = filter_mset (\<lambda>t. nonce \<le> tx_Nonce t) (mset q)"
proof (induction q nonce arbitrary: pruned r rule: aq_prune.induct)
  case (1 q nonce)
  show ?case
  proof (cases "\<exists>tx. aq_peek q = Some tx \<and> tx_Nonce tx < nonce")
    case True
    then obtain tx where tx: "aq_peek q = Some tx" "tx_Nonce tx < nonce" by blast
    obtain q' where q': "aq_pop q = (Some tx, q')" "aq_heap q'" "mset q = add_mset tx (mset q')"
      using aq_pop_props [OF 1(2) tx(1)] by blast
    obtain pr where pr: "aq_prune q' nonce = (pr, r)" "pruned = tx # pr"
      using 1(3) tx(1) tx(2) [folded not_le] q'(1) aq_prune.simps [of q nonce] by (auto split: prod.splits)
    have "aq_heap r \<and> mset pr = filter_mset (\<lambda>t. tx_Nonce t < nonce) (mset q')
        \<and> mset r = filter_mset (\<lambda>t. nonce \<le> tx_Nonce t) (mset q')"
      using 1(1) [OF tx(1) _ q'(1) [symmetric] refl q'(2) pr(1)] tx(2) by simp
    then show ?thesis using tx(2) pr(2) q'(3) by simp
  next
    case False
    then have "pruned = []" "r = q" using 1(3)
      by (subst (asm) aq_prune.simps, auto split: option.splits if_splits)+
    moreover have "nonce \<le> tx_Nonce t" if "t \<in> set q" for t
    proof (cases "aq_peek q")
      case (Some tx)
      then show ?thesis using aq_peek_least(2) [OF 1(2) Some that] False by fastforce
    qed (use that in simp)
    then have "filter_mset (\<lambda>t. nonce \<le> tx_Nonce t) (mset q) = mset q"
      "filter_mset (\<lambda>t. tx_Nonce t < nonce) (mset q) = {#}"
      by (auto simp: filter_mset_eq_conv not_less)
    ultimately show ?thesis using 1(2) by simp
  qed
qed

lemma pq_pop_props:
  assumes "is_heap maxPriceQueue_Less q" "q \<noteq> []"
  shows "\<exists>tx r. pq_pop q = (Some tx, r) \<and> is_heap maxPriceQueue_Less r \<and> mset q = add_mset tx (mset r)
    \<and> (\<forall>t\<in>set q. big_Uint64 (tx_GasPrice t) \<le> big_Uint64 (tx_GasPrice tx))"
  using price_heap.Pop_heap [OF assms] price_heap.Peek_least [OF assms(1)] assms(2)
  by (auto simp: pq_pop_def maxPriceQueue_Less_def not_less)

subsection \<open>Promotion\<close>

abbreviation nonces :: "Transaction list \<Rightarrow> nat list" where "nonces \<equiv> map (\<lambda>t. unat (tx_Nonce t))"

lemma word_Suc: "(n :: uint64) \<noteq> - 1 \<Longrightarrow> unat (n + 1) = Suc (unat n)"
  by (metis Suc_eq_plus1 add.commute max_word_wrap unatSuc)

text \<open>What one pass of the loop moves: the best-priced transaction of the expected nonce goes to the
  promoted queue, the others of that nonce are pruned.\<close>

lemma promote_pass:
  assumes "aq_heap enq" "\<forall>t\<in>set enq. n \<le> tx_Nonce t" "aq_peek enq = Some tx" "tx_Nonce tx = n" "n \<noteq> - 1"
    and "aq_pop enq = (Some tx, enq1)" "aq_prune enq1 (n + 1) = (pr, enq2)"
  shows "aq_heap enq2" "mset enq = add_mset tx (mset pr + mset enq2)"
    "\<forall>t\<in>set pr. tx_Nonce t = n \<and> tx_GasPrice t \<le> tx_GasPrice tx" "\<forall>t\<in>set enq2. n + 1 \<le> tx_Nonce t"
proof -
  have enq1: "aq_heap enq1" "mset enq = add_mset tx (mset enq1)"
    using aq_pop_props [OF assms(1,3)] assms(6) by auto
  have prune: "aq_heap enq2" "mset pr = filter_mset (\<lambda>t. tx_Nonce t < n + 1) (mset enq1)"
    "mset enq2 = filter_mset (\<lambda>t. n + 1 \<le> tx_Nonce t) (mset enq1)"
    using aq_prune_props [OF enq1(1) assms(7)] by auto
  show "aq_heap enq2" by (rule prune(1))
  have "mset pr + mset enq2 = mset enq1"
    unfolding prune(2,3) by (subst (3) multiset_partition [of _ "\<lambda>t. tx_Nonce t < n + 1"]) (simp add: not_less)
  then show "mset enq = add_mset tx (mset pr + mset enq2)" using enq1(2) by simp
  have sub: "set enq1 \<subseteq> set enq" using enq1(2) by (metis mset_subset_eq_add_right add_mset_add_single set_mset_mono set_mset_mset subset_insertI set_mset_add_mset_insert)
  show "\<forall>t\<in>set enq2. n + 1 \<le> tx_Nonce t" using prune(3) by (metis (no_types, lifting) filter_mset_eq_conv set_mset_mset)
  show "\<forall>t\<in>set pr. tx_Nonce t = n \<and> tx_GasPrice t \<le> tx_GasPrice tx"
  proof
    fix t
    assume "t \<in> set pr"
    then have t: "t \<in> set enq1" "tx_Nonce t < n + 1"
      using prune(2) by (metis (no_types, lifting) mem_Collect_eq set_mset_filter set_mset_mset)+
    have "n \<le> tx_Nonce t" using assms(2) t(1) sub by blast
    then have eq: "tx_Nonce t = n"
      using t(2) word_Suc [OF assms(5)] by (metis Suc_leI le_antisym not_less_eq_eq word_le_nat_alt word_less_nat_alt word_unat_eq_iff)
    show "tx_Nonce t = n \<and> tx_GasPrice t \<le> tx_GasPrice tx"
      using aq_peek_least(3) [OF assms(1,3)] t(1) sub eq assms(4) by auto
  qed
qed

lemma promote_loop_props:
  "aq_heap enq \<Longrightarrow> aq_heap prom \<Longrightarrow> \<forall>t\<in>set enq. n \<le> tx_Nonce t \<and> tx_Nonce t \<noteq> - 1 \<Longrightarrow>
    promote_loop n enq prom ps qs = (n', enq', prom', ps', qs') \<Longrightarrow>
    \<exists>new pr. ps' = ps @ new \<and> qs' = qs @ pr \<and> aq_heap enq' \<and> aq_heap prom'
      \<and> mset prom' = mset prom + mset new \<and> mset enq = mset new + mset pr + mset enq'
      \<and> unat n \<le> unat n' \<and> nonces new = [unat n..<unat n'] \<and> (\<forall>t\<in>set enq'. n' < tx_Nonce t)
      \<and> (\<forall>t\<in>set pr. \<exists>t0\<in>set new. tx_Nonce t0 = tx_Nonce t \<and> tx_GasPrice t \<le> tx_GasPrice t0)"
proof (induction n enq prom ps qs arbitrary: n' enq' prom' ps' qs' rule: promote_loop.induct)
  case (1 n enq prom ps qs)
  show ?case
  proof (cases "\<exists>tx. aq_peek enq = Some tx \<and> tx_Nonce tx = n")
    case True
    then obtain tx where tx: "aq_peek enq = Some tx" "tx_Nonce tx = n" by blast
    obtain enq1 where enq1: "aq_pop enq = (Some tx, enq1)" using aq_pop_props [OF 1(2) tx(1)] by blast
    obtain pr1 enq2 where prune: "aq_prune enq1 (n + 1) = (pr1, enq2)" by fastforce
    have n: "n \<noteq> - 1" using 1(4) aq_peek_least(1) [OF 1(2) tx(1)] tx(2) by blast
    have "\<forall>t\<in>set enq. n \<le> tx_Nonce t" using 1(4) by blast
    note pass = promote_pass [OF 1(2) this tx n enq1 prune]
    have loop: "promote_loop (n + 1) enq2 (aq_push prom tx) (ps @ [tx]) (qs @ pr1) = (n', enq', prom', ps', qs')"
      using 1(5) tx enq1 prune promote_loop.simps [of n enq prom ps qs] by (simp add: Let_def)
    have sub: "set enq2 \<subseteq> set enq"
      by (metis Un_iff pass(2) set_mset_add_mset_insert set_mset_mset set_mset_union subset_iff insertI2)
    have "\<forall>t\<in>set enq2. n + 1 \<le> tx_Nonce t \<and> tx_Nonce t \<noteq> - 1" using pass(4) 1(4) sub by blast
    then obtain new pr where ih: "ps' = (ps @ [tx]) @ new" "qs' = (qs @ pr1) @ pr" "aq_heap enq'" "aq_heap prom'"
      "mset prom' = mset (aq_push prom tx) + mset new" "mset enq2 = mset new + mset pr + mset enq'"
      "unat (n + 1) \<le> unat n'" "nonces new = [unat (n + 1)..<unat n']" "\<forall>t\<in>set enq'. n' < tx_Nonce t"
      "\<forall>t\<in>set pr. \<exists>t0\<in>set new. tx_Nonce t0 = tx_Nonce t \<and> tx_GasPrice t \<le> tx_GasPrice t0"
      using 1(1) [OF tx(1) _ enq1 [symmetric] refl refl refl refl] 1(2,3) pass(1) prune tx(2) loop
      by (simp only: fst_conv snd_conv) (metis aq_push_props(1))
    have "nonces (tx # new) = [unat n..<unat n']"
      using ih(7,8) word_Suc [OF n] tx(2) by (simp add: upt_conv_Cons)
    then show ?thesis
      using ih pass(2,3) tx(2) word_Suc [OF n]
      by (intro exI [of _ "tx # new"] exI [of _ "pr1 @ pr"]) (auto simp: union_assoc)
  next
    case False
    then have res: "n' = n" "enq' = enq" "prom' = prom" "ps' = ps" "qs' = qs"
      using 1(5) promote_loop.simps [of n enq prom ps qs] by (auto split: option.splits if_splits)
    have "n < tx_Nonce t" if t: "t \<in> set enq" for t
    proof -
      obtain tx where tx: "aq_peek enq = Some tx" using t by (cases "aq_peek enq") auto
      then have "n \<noteq> tx_Nonce tx" "n \<le> tx_Nonce tx" using False 1(4) aq_peek_least(1) [OF 1(2) tx] by auto
      then show ?thesis using aq_peek_least(2) [OF 1(2) tx t] by (metis le_less_trans order_less_le)
    qed
    then show ?thesis using res 1(2,3) by simp
  qed
qed

subsection \<open>The invariant of an account\<close>

definition gap_free :: "uint64 \<Rightarrow> accountQueue \<Rightarrow> bool" where
  "gap_free next q \<longleftrightarrow> length q \<le> unat next \<and> mset (nonces q) = mset [unat next - length q..<unat next]"

definition acc_ok :: "address \<Rightarrow> account \<Rightarrow> bool" where
  "acc_ok addr a \<longleftrightarrow>
    aq_heap (acc_enqueued a) \<and> aq_heap (acc_promoted a)
  \<and> (\<forall>t\<in>set (acc_enqueued a) \<union> set (acc_promoted a). tx_From t = addr)
  \<and> (\<forall>t\<in>set (acc_enqueued a). acc_nextNonce a \<le> tx_Nonce t \<and> tx_Nonce t \<noteq> - 1)
  \<and> gap_free (acc_nextNonce a) (acc_promoted a)
  \<and> length (acc_enqueued a) \<le> unat (acc_maxEnqueued a)"

lemma gap_free_Nil [simp]: "gap_free n []"
  by (simp add: gap_free_def)

lemma mset_eq_set: "mset xs = mset ys + mset zs \<Longrightarrow> set xs = set ys \<union> set zs"
  by (metis set_mset_mset set_mset_union)

lemma filter_upt: "filter (\<lambda>x. m \<le> x) [i..<j] = [max i m..<j]"
  by (induction j) (simp_all add: max_def)

lemma mset_filter_upt: "filter_mset (\<lambda>x. m \<le> x) (mset [i..<j]) = mset [max i m..<j]"
  unfolding filter_upt [symmetric] by (rule mset_filter [symmetric])

text \<open>Pruning keeps the run gap-free, popping takes its first nonce.\<close>

lemma gap_free_prune:
  assumes "gap_free n q" "mset r = filter_mset (\<lambda>t. m \<le> tx_Nonce t) (mset q)"
  shows "gap_free (if m \<le> n then n else m) r"
proof -
  have "mset (nonces r) = filter_mset (\<lambda>x. unat m \<le> x) (mset (nonces q))"
    using assms(2) by (simp add: filter_mset_image_mset comp_def word_le_nat_alt)
  also have "\<dots> = mset [max (unat n - length q) (unat m)..<unat n]"
    using assms(1) unfolding gap_free_def by (simp only: mset_filter_upt)
  finally have nr: "mset (nonces r) = mset [max (unat n - length q) (unat m)..<unat n]" .
  then have len: "length r = unat n - max (unat n - length q) (unat m)"
    by (metis length_map length_upt size_mset)
  show ?thesis
  proof (cases "m \<le> n")
    case True
    then have "unat n - length r = max (unat n - length q) (unat m)"
      using len assms(1) by (auto simp: word_le_nat_alt gap_free_def)
    then show ?thesis using True nr len by (simp add: gap_free_def)
  next
    case False
    then have "r = []" using len by (simp add: word_le_nat_alt)
    then show ?thesis by simp
  qed
qed

lemma gap_free_first:
  assumes "gap_free n q" "aq_heap q" "aq_peek q = Some tx"
  shows "unat (tx_Nonce tx) = unat n - length q" "0 < length q" "tx_Nonce tx < n"
proof -
  have q: "set (nonces q) = {unat n - length q..<unat n}"
    using assms(1) by (metis atLeastLessThan_upt gap_free_def mset_eq_setD)
  show pos: "0 < length q" using aq_peek_least(1) [OF assms(2,3)] by auto
  have tx: "unat (tx_Nonce tx) \<in> {unat n - length q..<unat n}"
    using aq_peek_least(1) [OF assms(2,3)] unfolding q [symmetric] by auto
  then show "tx_Nonce tx < n" by (simp add: word_less_nat_alt)
  have "unat n - length q \<in> set (nonces q)" using q pos assms(1) by (auto simp: gap_free_def)
  then obtain t where "t \<in> set q" "unat (tx_Nonce t) = unat n - length q" by auto
  then show "unat (tx_Nonce tx) = unat n - length q"
    using aq_peek_least(2) [OF assms(2,3), of t] tx by (simp add: word_le_nat_alt)
qed

lemma gap_free_pop:
  assumes "gap_free n q" "aq_heap q" "aq_peek q = Some tx" "mset q = add_mset tx (mset r)"
  shows "gap_free n r"
proof -
  note first = gap_free_first [OF assms(1-3)]
  have len: "length q = Suc (length r)" using assms(4) by (metis size_add_mset size_mset)
  have "add_mset (unat n - length q) (mset (nonces r)) = mset (nonces q)"
    using assms(4) first(1) by simp
  also have "\<dots> = mset ((unat n - length q) # [unat n - length r..<unat n])"
    using assms(1) len upt_conv_Cons [of "unat n - length q" "unat n"]
    by (simp add: gap_free_def Suc_diff_Suc del: mset_upt)
  finally show ?thesis using assms(1) len by (simp add: gap_free_def del: mset_upt)
qed

lemma gap_free_append:
  assumes "gap_free n q" "mset q' = mset q + mset new" "nonces new = [unat n..<unat n']" "unat n \<le> unat n'"
  shows "gap_free n' q'"
proof -
  have q: "length q \<le> unat n" "mset (nonces q) = mset [unat n - length q..<unat n]"
    using assms(1) by (simp_all only: gap_free_def simp_thms)
  have new: "length new = unat n' - unat n" using assms(3) by (metis length_map length_upt)
  have len: "length q' = length q + length new" using assms(2) by (metis size_mset size_union)
  have "mset (nonces q') = mset (nonces q) + mset (nonces new)" by (simp only: mset_map assms(2) image_mset_union)
  also have "\<dots> = mset ([unat n - length q..<unat n] @ [unat n..<unat n'])"
    by (simp only: q(2) assms(3) mset_append)
  also have "[unat n - length q..<unat n] @ [unat n..<unat n'] = [unat n - length q..<unat n']"
    using upt_add_eq_append [of "unat n - length q" "unat n" "unat n' - unat n"] assms(4) by simp
  finally have "mset (nonces q') = mset [unat n - length q..<unat n']" .
  moreover have "unat n' - length q' = unat n - length q" "length q' \<le> unat n'"
    using q(1) assms(4) len new by linarith+
  ultimately show ?thesis by (simp only: gap_free_def simp_thms)
qed

subsection \<open>The operations of an account\<close>

lemma enqueue_ok:
  assumes "acc_ok addr a" "account_enqueue a tx = Inr a'" "tx_From tx = addr" "tx_Nonce tx \<noteq> - 1"
  shows "acc_ok addr a'" "mset (acc_enqueued a') = add_mset tx (mset (acc_enqueued a))"
    "acc_promoted a' = acc_promoted a" "acc_nextNonce a' = acc_nextNonce a" "acc_nextNonce a \<le> tx_Nonce tx"
    "acc_maxEnqueued a' = acc_maxEnqueued a"
proof -
  have a': "a' = a\<lparr>acc_enqueued := aq_push (acc_enqueued a) tx\<rparr>" and low: "acc_nextNonce a \<le> tx_Nonce tx"
    and full: "aq_length (acc_enqueued a) \<noteq> acc_maxEnqueued a"
    using assms(2) by (auto simp: account_enqueue_def split: if_splits)
  have "length (acc_enqueued a) \<noteq> unat (acc_maxEnqueued a)"
    using full by (auto simp: aq_length_def)
  then show "acc_ok addr a'" using assms low by (auto simp: acc_ok_def a')
  show "mset (acc_enqueued a') = add_mset tx (mset (acc_enqueued a))"
    "acc_promoted a' = acc_promoted a" "acc_nextNonce a' = acc_nextNonce a"
    "acc_maxEnqueued a' = acc_maxEnqueued a" by (simp_all add: a')
  show "acc_nextNonce a \<le> tx_Nonce tx" by (rule low)
qed

text \<open>Promotion moves the whole run of consecutive nonces that starts at the next expected one.\<close>

lemma promote_ok:
  assumes "acc_ok addr a" "account_promote a = (new, pr, a')"
  shows "acc_ok addr a'" "mset (acc_enqueued a) = mset new + mset pr + mset (acc_enqueued a')"
    "mset (acc_promoted a') = mset (acc_promoted a) + mset new"
    "nonces new = [unat (acc_nextNonce a)..<unat (acc_nextNonce a')]"
    "unat (acc_nextNonce a) \<le> unat (acc_nextNonce a')"
    "\<forall>t\<in>set (acc_enqueued a'). acc_nextNonce a' < tx_Nonce t"
    "\<forall>t\<in>set pr. \<exists>t0\<in>set new. tx_Nonce t0 = tx_Nonce t \<and> tx_GasPrice t \<le> tx_GasPrice t0"
    "acc_maxEnqueued a' = acc_maxEnqueued a"
proof -
  let ?n = "acc_nextNonce a"
  have heap: "aq_heap (acc_enqueued a)" "aq_heap (acc_promoted a)" using assms(1) by (simp_all add: acc_ok_def)
  have low: "\<forall>t\<in>set (acc_enqueued a). ?n \<le> tx_Nonce t \<and> tx_Nonce t \<noteq> - 1"
    using assms(1) by (simp add: acc_ok_def)
  have "\<exists>enq prom n'. a' = a\<lparr>acc_enqueued := enq, acc_promoted := prom, acc_nextNonce := n'\<rparr>
    \<and> aq_heap enq \<and> aq_heap prom \<and> mset prom = mset (acc_promoted a) + mset new
    \<and> mset (acc_enqueued a) = mset new + mset pr + mset enq \<and> unat ?n \<le> unat n'
    \<and> nonces new = [unat ?n..<unat n'] \<and> (\<forall>t\<in>set enq. n' < tx_Nonce t)
    \<and> (\<forall>t\<in>set pr. \<exists>t0\<in>set new. tx_Nonce t0 = tx_Nonce t \<and> tx_GasPrice t \<le> tx_GasPrice t0)"
  proof (cases "\<exists>first. aq_peek (acc_enqueued a) = Some first \<and> tx_Nonce first = ?n")
    case True
    then obtain first where first: "aq_peek (acc_enqueued a) = Some first" "tx_Nonce first = ?n" by blast
    obtain n' enq prom ps qs where loop:
      "promote_loop ?n (acc_enqueued a) (acc_promoted a) [] [] = (n', enq, prom, ps, qs)" by (metis prod_cases5)
    from promote_loop_props [OF heap low loop]
    have props: "aq_heap enq" "aq_heap prom" "mset prom = mset (acc_promoted a) + mset ps"
      "mset (acc_enqueued a) = mset ps + mset qs + mset enq" "unat ?n \<le> unat n'"
      "nonces ps = [unat ?n..<unat n']" "\<forall>t\<in>set enq. n' < tx_Nonce t"
      "\<forall>t\<in>set qs. \<exists>t0\<in>set ps. tx_Nonce t0 = tx_Nonce t \<and> tx_GasPrice t \<le> tx_GasPrice t0"
      by auto
    have res: "new = ps" "pr = qs" "a' = a\<lparr>acc_enqueued := enq, acc_promoted := prom, acc_nextNonce := n'\<rparr>"
      using assms(2) first loop props(5)
      by (auto simp: account_promote_def Let_def word_less_nat_alt word_unat_eq_iff split: if_splits)
    show ?thesis using props unfolding res by (intro exI conjI refl) auto
  next
    case False
    have above: "?n < tx_Nonce t" if t: "t \<in> set (acc_enqueued a)" for t
    proof -
      obtain tx where tx: "aq_peek (acc_enqueued a) = Some tx" using t by (cases "aq_peek (acc_enqueued a)") auto
      then have "?n < tx_Nonce tx" using False low aq_peek_least(1) [OF heap(1) tx] by (auto simp: order_less_le)
      then show ?thesis using aq_peek_least(2) [OF heap(1) tx t] by simp
    qed
    have "new = [] \<and> pr = [] \<and> a' = a"
      using assms(2) above aq_peek_least(1) [OF heap(1)]
      by (auto simp: account_promote_def Let_def split: option.splits if_splits)
    then show ?thesis using heap above by (intro exI [of _ "acc_enqueued a"] exI [of _ "acc_promoted a"] exI [of _ ?n]) simp
  qed
  then obtain enq prom n' where a': "a' = a\<lparr>acc_enqueued := enq, acc_promoted := prom, acc_nextNonce := n'\<rparr>"
    and props: "aq_heap enq" "aq_heap prom" "mset prom = mset (acc_promoted a) + mset new"
      "mset (acc_enqueued a) = mset new + mset pr + mset enq" "unat ?n \<le> unat n'"
      "nonces new = [unat ?n..<unat n']" "\<forall>t\<in>set enq. n' < tx_Nonce t"
      "\<forall>t\<in>set pr. \<exists>t0\<in>set new. tx_Nonce t0 = tx_Nonce t \<and> tx_GasPrice t \<le> tx_GasPrice t0" by blast
  have sets: "set (acc_enqueued a) = set new \<union> set pr \<union> set enq" "set prom = set (acc_promoted a) \<union> set new"
    using props(3,4) by (metis set_mset_mset set_mset_union)+
  have "length enq \<le> length (acc_enqueued a)" using props(4) by (metis size_mset size_union le_add2)
  moreover have "gap_free n' prom"
    using gap_free_append [OF _ props(3,6,5)] assms(1) by (simp add: acc_ok_def)
  ultimately show "acc_ok addr a'"
    using assms(1) props(1,2,7) sets by (auto simp: acc_ok_def a' order_less_imp_le)
  show "mset (acc_enqueued a) = mset new + mset pr + mset (acc_enqueued a')"
    "mset (acc_promoted a') = mset (acc_promoted a) + mset new"
    "nonces new = [unat ?n..<unat (acc_nextNonce a')]" "unat ?n \<le> unat (acc_nextNonce a')"
    "\<forall>t\<in>set (acc_enqueued a'). acc_nextNonce a' < tx_Nonce t"
    "\<forall>t\<in>set pr. \<exists>t0\<in>set new. tx_Nonce t0 = tx_Nonce t \<and> tx_GasPrice t \<le> tx_GasPrice t0"
    "acc_maxEnqueued a' = acc_maxEnqueued a"
    using props unfolding a' by simp_all
qed

definition ready :: "account \<Rightarrow> bool" where
  "ready a \<longleftrightarrow> (\<exists>t\<in>set (acc_enqueued a). tx_Nonce t = acc_nextNonce a)"

lemma prune_split:
  assumes "aq_heap q" "aq_prune q nonce = (pruned, r)"
  shows "mset q = mset pruned + mset r" "set r = {t \<in> set q. nonce \<le> tx_Nonce t}" "length r \<le> length q"
proof -
  note props = aq_prune_props [OF assms]
  show "mset q = mset pruned + mset r"
    using props multiset_partition [of "mset q" "\<lambda>t. tx_Nonce t < nonce"] by (simp add: not_less)
  show "set r = {t \<in> set q. nonce \<le> tx_Nonce t}"
    using props by (metis set_mset_filter set_mset_mset)
  show "length r \<le> length q" using aq_prune_length [of q nonce] assms(2) by simp
qed

lemma reset_ok:
  assumes "acc_ok addr a" "account_reset a n = (pp, pe, signal, a')"
  shows "acc_ok addr a'" "mset (acc_promoted a) = mset pp + mset (acc_promoted a')"
    "mset (acc_enqueued a) = mset pe + mset (acc_enqueued a')" "acc_maxEnqueued a' = acc_maxEnqueued a"
    "acc_nextNonce a' = (if n \<le> acc_nextNonce a then acc_nextNonce a else n)"
    "ready a' \<Longrightarrow> ready a \<or> signal = Some addr" "\<And>x. signal = Some x \<Longrightarrow> x = addr"
proof -
  have ok: "aq_heap (acc_enqueued a)" "aq_heap (acc_promoted a)" "gap_free (acc_nextNonce a) (acc_promoted a)"
    using assms(1) by (simp_all add: acc_ok_def)
  obtain prom where prom: "aq_prune (acc_promoted a) n = (pp, prom)"
    using assms(2) by (auto simp: account_reset_def Let_def split: prod.splits if_splits)
  note prom_props = aq_prune_props [OF ok(2) prom] prune_split [OF ok(2) prom]
  have gap: "gap_free (if n \<le> acc_nextNonce a then acc_nextNonce a else n) prom"
    using gap_free_prune [OF ok(3)] prom_props by blast
  have "acc_ok addr a' \<and> acc_promoted a' = prom \<and> mset (acc_enqueued a) = mset pe + mset (acc_enqueued a')
    \<and> acc_maxEnqueued a' = acc_maxEnqueued a
    \<and> acc_nextNonce a' = (if n \<le> acc_nextNonce a then acc_nextNonce a else n)
    \<and> (ready a' \<longrightarrow> ready a \<or> signal = Some addr) \<and> (\<forall>x. signal = Some x \<longrightarrow> x = addr)"
  proof (cases "n \<le> acc_nextNonce a")
    case True
    then have res: "pe = []" "signal = None" "a' = a\<lparr>acc_promoted := prom\<rparr>"
      using assms(2) prom by (simp_all add: account_reset_def Let_def)
    show ?thesis using assms(1) True gap prom_props by (auto simp: res acc_ok_def ready_def)
  next
    case False
    obtain enq where enq: "aq_prune (acc_enqueued a) n = (pe, enq)"
      and res: "a' = a\<lparr>acc_promoted := prom, acc_enqueued := enq, acc_nextNonce := n\<rparr>"
        "signal = (case aq_peek enq of Some first \<Rightarrow> if tx_Nonce first = n then Some (tx_From first) else None
                  | None \<Rightarrow> None)"
      using assms(2) prom False by (auto simp: account_reset_def Let_def split: prod.splits)
    note enq_props = aq_prune_props [OF ok(1) enq] prune_split [OF ok(1) enq]
    have sender: "tx_From t = addr" if "t \<in> set enq" for t
      using assms(1) that enq_props(3) by (simp add: acc_ok_def)
    have low: "n \<le> tx_Nonce t" if "t \<in> set enq" for t using that enq_props(3) by simp
    have sig: "signal = Some addr" if t: "t \<in> set enq" "tx_Nonce t = n" for t
    proof -
      obtain first where first: "aq_peek enq = Some first" using t by (cases "aq_peek enq") auto
      have "first \<in> set enq" "tx_Nonce first \<le> n" using aq_peek_least [of enq first] enq_props(1) first t by auto
      then show ?thesis using first sender low by (simp add: res(2) order_antisym)
    qed
    have "x = addr" if "signal = Some x" for x
      using that sender aq_peek_least(1) [of enq] enq_props(1) by (auto simp: res(2) split: option.splits if_splits)
    moreover have "acc_ok addr a'"
      using assms(1) False gap prom_props enq_props by (auto simp: res(1) acc_ok_def)
    ultimately show ?thesis using False enq_props(2) sig by (auto simp: res(1) ready_def)
  qed
  then show "acc_ok addr a'" "mset (acc_promoted a) = mset pp + mset (acc_promoted a')"
    "mset (acc_enqueued a) = mset pe + mset (acc_enqueued a')" "acc_maxEnqueued a' = acc_maxEnqueued a"
    "acc_nextNonce a' = (if n \<le> acc_nextNonce a then acc_nextNonce a else n)"
    "ready a' \<Longrightarrow> ready a \<or> signal = Some addr" "\<And>x. signal = Some x \<Longrightarrow> x = addr"
    using prom_props by auto
qed

lemma pop_ok:
  assumes "acc_ok addr a" "aq_peek (acc_promoted a) = Some tx"
    and "a' = a\<lparr>acc_promoted := snd (aq_pop (acc_promoted a))\<rparr>"
  shows "acc_ok addr a'" "mset (acc_promoted a) = add_mset tx (mset (acc_promoted a'))"
proof -
  have heap: "aq_heap (acc_promoted a)" and gap: "gap_free (acc_nextNonce a) (acc_promoted a)"
    using assms(1) by (simp_all add: acc_ok_def)
  obtain r where r: "aq_pop (acc_promoted a) = (Some tx, r)" "aq_heap r" "mset (acc_promoted a) = add_mset tx (mset r)"
    using aq_pop_props [OF heap assms(2)] by blast
  have "set r \<subseteq> set (acc_promoted a)" using r(3) by (metis set_mset_add_mset_insert set_mset_mset subset_insertI)
  then show "acc_ok addr a'"
    using assms(1) r gap_free_pop [OF gap heap assms(2) r(3)] by (auto simp: acc_ok_def assms(3))
  show "mset (acc_promoted a) = add_mset tx (mset (acc_promoted a'))" using r by (simp add: assms(3))
qed

end
