(* ===== verification/TxPoolInv.thy ===== *)
theory TxPoolInv
  imports TxPoolQueues
begin

text \<open>
  The invariant of the transaction pool: every account satisfies its own, the gauge is the exact number
  of slots that the queued transactions take, every pending request is for a known account, and an
  account with an enqueued transaction of the expected nonce has a promotion pending. Every step of the
  pool keeps it, and no handler runs into a nil account.
\<close>

subsection \<open>Slots\<close>

definition tx_slots :: "('a, 'v) PoolEnv \<Rightarrow> Transaction \<Rightarrow> uint64" where
  "tx_slots E tx = (of_nat (length (Transaction_MarshalRLP (pe_R E) tx)) + txSlotSize - 1) div txSlotSize"

definition slots :: "('a, 'v) PoolEnv \<Rightarrow> Transaction multiset \<Rightarrow> uint64" where
  "slots E M = (\<Sum>t\<in>#M. tx_slots E t)"

lemma slots_simps [simp]:
  "slots E {#} = 0" "slots E (add_mset t M) = tx_slots E t + slots E M" "slots E (M + N) = slots E M + slots E N"
  by (simp_all add: slots_def)

lemma slotsRequired_mset [simp]: "slotsRequired E txs = slots E (mset txs)"
proof -
  have "foldl (\<lambda>s tx. s + tx_slots E tx) n txs = n + slots E (mset txs)" for n
    by (induction txs arbitrary: n) (simp_all add: add.assoc)
  then show ?thesis by (simp add: slotsRequired_def tx_slots_def [symmetric])
qed

definition acc_slots :: "('a, 'v) PoolEnv \<Rightarrow> account \<Rightarrow> uint64" where
  "acc_slots E a = slots E (mset (acc_enqueued a) + mset (acc_promoted a))"

definition total_slots :: "('a, 'v) PoolEnv \<Rightarrow> (address \<rightharpoonup> account) \<Rightarrow> uint64" where
  "total_slots E m = (\<Sum>k\<in>dom m. acc_slots E (the (m k)))"

lemma total_slots_update:
  assumes "finite (dom m)" "m k = Some a"
  shows "total_slots E (m(k \<mapsto> a')) = total_slots E m - acc_slots E a + acc_slots E a'"
proof -
  have dom: "dom m = insert k (dom m - {k})" using assms(2) by auto
  have "total_slots E m = acc_slots E a + (\<Sum>j\<in>dom m - {k}. acc_slots E (the (m j)))"
    unfolding total_slots_def by (subst dom, subst sum.insert) (use assms in auto)
  moreover have "total_slots E (m(k \<mapsto> a')) = acc_slots E a' + (\<Sum>j\<in>dom m - {k}. acc_slots E (the (m j)))"
    unfolding total_slots_def dom_fun_upd by (subst dom) (use assms in \<open>simp add: sum.insert_remove\<close>)
  ultimately show ?thesis by simp
qed

lemma total_slots_insert:
  "finite (dom m) \<Longrightarrow> m k = None \<Longrightarrow> total_slots E (m(k \<mapsto> a)) = acc_slots E a + total_slots E m"
  unfolding total_slots_def by (simp add: domIff sum.insert) (rule sum.cong, auto)

subsection \<open>The invariant\<close>

fun request_ok :: "(address \<rightharpoonup> account) \<Rightarrow> request \<Rightarrow> bool" where
  "request_ok m (EnqueueRequest tx) \<longleftrightarrow> tx_From tx \<in> dom m \<and> tx_Nonce tx \<noteq> - 1"
| "request_ok m (PromoteRequest k) \<longleftrightarrow> k \<in> dom m"
| "request_ok m PruneRequest \<longleftrightarrow> True"

definition pool_ok :: "('a, 'v) PoolEnv \<Rightarrow> TxPool \<Rightarrow> bool" where
  "pool_ok E p \<longleftrightarrow>
    finite (dom (p_accounts p))
  \<and> (\<forall>k a. p_accounts p k = Some a \<longrightarrow>
       acc_ok k a \<and> acc_maxEnqueued a = p_maxEnqueuedLimit p
       \<and> (ready a \<longrightarrow> PromoteRequest k \<in> set (p_requests p)))
  \<and> p_height p = total_slots E (p_accounts p)
  \<and> (\<forall>r\<in>set (p_requests p). request_ok (p_accounts p) r)"

lemma pool_okD:
  assumes "pool_ok E p" "p_accounts p k = Some a"
  shows "acc_ok k a" "acc_maxEnqueued a = p_maxEnqueuedLimit p" "ready a \<Longrightarrow> PromoteRequest k \<in> set (p_requests p)"
  using assms by (auto simp: pool_ok_def)

text \<open>Only four parts of the pool matter, and more requests do no harm.\<close>

lemma pool_ok_cong:
  assumes "pool_ok E p" "p_accounts p' = p_accounts p" "p_maxEnqueuedLimit p' = p_maxEnqueuedLimit p"
    and "p_height p' = p_height p" "set (p_requests p) \<subseteq> set (p_requests p')"
    and "\<forall>r\<in>set (p_requests p'). r \<in> set (p_requests p) \<or> request_ok (p_accounts p) r"
  shows "pool_ok E p'"
  using assms by (auto simp: pool_ok_def)

text \<open>A change to one account.\<close>

lemma pool_ok_update:
  assumes "pool_ok E p" "p_accounts p k = Some a" "acc_ok k a'" "acc_maxEnqueued a' = acc_maxEnqueued a"
    and "p_accounts p' = (p_accounts p)(k \<mapsto> a')" "p_maxEnqueuedLimit p' = p_maxEnqueuedLimit p"
    and "p_height p' = p_height p - acc_slots E a + acc_slots E a'"
    and "\<forall>r\<in>set (p_requests p'). r \<in> set (p_requests p) \<or> request_ok (p_accounts p) r"
    and "\<forall>r\<in>set (p_requests p). r \<noteq> PromoteRequest k \<longrightarrow> (\<exists>j. r = PromoteRequest j) \<longrightarrow> r \<in> set (p_requests p')"
    and "ready a' \<Longrightarrow> PromoteRequest k \<in> set (p_requests p')"
  shows "pool_ok E p'"
proof -
  have fin: "finite (dom (p_accounts p))" using assms(1) by (simp add: pool_ok_def)
  have dom: "dom (p_accounts p') = dom (p_accounts p)" using assms(2,5) by auto
  have req: "request_ok (p_accounts p') r \<longleftrightarrow> request_ok (p_accounts p) r" for r
    using dom by (cases r) simp_all
  have "acc_ok j b \<and> acc_maxEnqueued b = p_maxEnqueuedLimit p'
      \<and> (ready b \<longrightarrow> PromoteRequest j \<in> set (p_requests p'))" if b: "p_accounts p' j = Some b" for j b
  proof (cases "j = k")
    case True
    then show ?thesis using b assms(3-6,10) pool_okD(2) [OF assms(1,2)] by simp
  next
    case False
    then have "p_accounts p j = Some b" using b assms(5) by simp
    from pool_okD [OF assms(1) this] show ?thesis using assms(6,9) False by auto
  qed
  moreover have "p_height p' = total_slots E (p_accounts p')"
    using assms(1,7) total_slots_update [OF fin assms(2), of E a'] by (simp add: assms(5) pool_ok_def)
  moreover have "\<forall>r\<in>set (p_requests p'). request_ok (p_accounts p') r"
    using assms(1,8) by (auto simp: req pool_ok_def)
  ultimately show ?thesis using fin dom by (simp add: pool_ok_def)
qed

text \<open>The fields that the small operations touch.\<close>

lemma decrease_eq: "h + NOT (s - 1) = h - (s :: uint64)"
  by (simp flip: minus_eq_not_minus_1)

lemmas pool_ops = set_account_def index_remove_def gauge_decrease_def gauge_increase_def updatePending_def
  signalEvent_def send_def clearAccountQueue_def decrease_eq

subsection \<open>Entering the pool\<close>

lemma validateTx_nonce: "validateTx E S p tx = Inr tx' \<Longrightarrow> tx_Nonce tx' = tx_Nonce tx"
  by (auto simp: validateTx_def Let_def split: if_splits option.splits sum.splits)

lemma signalPruning_ok: "pool_ok E p \<Longrightarrow> pool_ok E (signalPruning p)"
  by (erule pool_ok_cong) (auto simp: signalPruning_def send_def)

lemma index_add_ok: "pool_ok E p \<Longrightarrow> index_add tx p = (ok, p') \<Longrightarrow> pool_ok E p'"
  by (erule pool_ok_cong) (auto simp: index_add_def split: if_splits)

lemma createAccountOnce_ok:
  assumes "pool_ok E p"
  shows "pool_ok E (createAccountOnce S k p)" "k \<in> dom (p_accounts (createAccountOnce S k p))"
proof -
  show "k \<in> dom (p_accounts (createAccountOnce S k p))"
    by (auto simp: createAccountOnce_def initOnce_def set_account_def)
  show "pool_ok E (createAccountOnce S k p)"
  proof (cases "p_accounts p k")
    case None
    let ?a = "\<lparr> acc_enqueued = [], acc_promoted = [], acc_nextNonce = st_GetNonce S (st_StateRoot S) k,
      acc_demotions = 0, acc_skips = 0, acc_maxEnqueued = p_maxEnqueuedLimit p \<rparr>"
    have "acc_ok k ?a" "\<not> ready ?a" "acc_slots E ?a = 0"
      by (simp_all add: acc_ok_def ready_def acc_slots_def)
    moreover have "request_ok (p_accounts p) r \<Longrightarrow> request_ok ((p_accounts p)(k \<mapsto> ?a)) r" for r
      by (cases r) auto
    ultimately show ?thesis
      using assms None total_slots_insert [of "p_accounts p" k E ?a]
      by (auto simp: pool_ok_def createAccountOnce_def initOnce_def set_account_def)
  qed (use assms in \<open>simp add: createAccountOnce_def\<close>)
qed

lemma send_ok: "pool_ok E p \<Longrightarrow> request_ok (p_accounts p) r \<Longrightarrow> pool_ok E (send r p)"
  by (erule pool_ok_cong) (auto simp: send_def)

lemma signalEvent_ok: "pool_ok E p \<Longrightarrow> pool_ok E (signalEvent ty hs p)"
  by (erule pool_ok_cong) (auto simp: signalEvent_def)

lemma addTx_ok:
  assumes "pool_ok E p" "tx_Nonce tx \<noteq> - 1"
  shows "pool_ok E (snd (addTx E S tx p))"
proof (cases "validateTx E S p tx")
  case (Inr tx')
  let ?p = "if highPressure p then signalPruning p else p" and ?tx = "Transaction_ComputeHash (pe_R E) tx'"
  obtain ok q where q: "index_add ?tx ?p = (ok, q)" by fastforce
  have p: "pool_ok E ?p" using assms(1) signalPruning_ok [OF assms(1)] by simp
  note q_ok = index_add_ok [OF p q]
  have "tx_Nonce ?tx \<noteq> - 1" using assms(2) validateTx_nonce [OF Inr] by (simp add: Transaction_ComputeHash_def)
  then have "pool_ok E (send (EnqueueRequest ?tx) (createAccountOnce S (tx_From ?tx) q))"
    using createAccountOnce_ok [OF q_ok] by (intro send_ok) auto
  then show ?thesis using p q q_ok assms(1) signalPruning_ok [OF assms(1)]
    by (auto simp: addTx_def Inr Let_def signalEvent_ok)
qed (use assms in \<open>simp add: addTx_def\<close>)

subsection \<open>The handlers\<close>

text \<open>A handler runs when its request has been taken from the list.\<close>

lemma handleEnqueue_ok:
  assumes "pool_ok E p" "p_requests p = rs @ EnqueueRequest tx # rs'"
  shows "\<exists>p'. handleEnqueueRequest E tx (p\<lparr>p_requests := rs @ rs'\<rparr>) = Some p' \<and> pool_ok E p'"
proof -
  let ?q = "p\<lparr>p_requests := rs @ rs'\<rparr>" and ?k = "tx_From tx"
  have "request_ok (p_accounts p) (EnqueueRequest tx)" using assms by (auto simp: pool_ok_def)
  then obtain a where a: "p_accounts p ?k = Some a" and nonce: "tx_Nonce tx \<noteq> - 1" by auto
  show ?thesis
  proof (cases "account_enqueue a tx")
    case (Inl e)
    then have "handleEnqueueRequest E tx ?q = Some (index_remove [tx] ?q)"
      using a by (simp add: handleEnqueueRequest_def)
    moreover have "pool_ok E (index_remove [tx] ?q)" using assms by (auto simp: pool_ok_def index_remove_def)
    ultimately show ?thesis by blast
  next
    case (Inr a')
    note enq = enqueue_ok [OF pool_okD(1) [OF assms(1) a] Inr refl nonce]
    obtain p' where p': "handleEnqueueRequest E tx ?q = Some p'" using a Inr by (simp add: handleEnqueueRequest_def Let_def)
    then have p'_def: "p' = (let q = signalEvent EventType_ENQUEUED [tx_Hash tx]
          (gauge_increase (tx_slots E tx) (set_account ?k a' ?q))
        in if acc_nextNonce a' < tx_Nonce tx then q else send (PromoteRequest ?k) q)"
      using a Inr by (simp add: handleEnqueueRequest_def Let_def split: if_splits)
    have "PromoteRequest ?k \<in> set (p_requests p')" if r: "ready a'"
    proof (cases "acc_nextNonce a' < tx_Nonce tx")
      case True
      have "set (acc_enqueued a') = insert tx (set (acc_enqueued a))"
        using enq(2) by (metis set_mset_add_mset_insert set_mset_mset)
      then have "ready a" using r True enq(4) by (auto simp: ready_def)
      then show ?thesis using pool_okD(3) [OF assms(1) a] assms(2) True by (auto simp: p'_def pool_ops)
    qed (simp add: p'_def pool_ops)
    then have "pool_ok E p'"
      using assms(2) a enq
      by (intro pool_ok_update [OF assms(1) a enq(1)]) (auto simp: p'_def pool_ops acc_slots_def Let_def)
    then show ?thesis using p' by blast
  qed
qed

lemma handlePromote_ok:
  assumes "pool_ok E p" "p_requests p = rs @ PromoteRequest k # rs'"
  shows "\<exists>p'. handlePromoteRequest E k (p\<lparr>p_requests := rs @ rs'\<rparr>) = Some p' \<and> pool_ok E p'
    \<and> p_requests p' = rs @ rs'"
proof -
  have "request_ok (p_accounts p) (PromoteRequest k)" using assms by (auto simp: pool_ok_def)
  then obtain a where a: "p_accounts p k = Some a" by auto
  obtain new pr a' where promote: "account_promote a = (new, pr, a')" by (metis prod_cases3)
  note ok = promote_ok [OF pool_okD(1) [OF assms(1) a] promote]
  have "\<not> ready a'" using ok(6) by (auto simp: ready_def)
  then show ?thesis
    using a promote assms(2) ok(2,3,8)
    by (intro exI conjI, simp add: handlePromoteRequest_def, intro pool_ok_update [OF assms(1) a ok(1)])
       (auto simp: pool_ops acc_slots_def)
qed

lemma acc_ok_empty:
  assumes "acc_ok k a" "acc_enqueued a' = []" "acc_promoted a' = acc_promoted a \<and> acc_nextNonce a' = acc_nextNonce a
      \<or> acc_promoted a' = []"
  shows "acc_ok k a'"
  using assms by (auto simp: acc_ok_def)

lemma prune_account_ok:
  assumes "pool_ok E p"
  shows "pool_ok E (prune_account E k p)" "dom (p_accounts (prune_account E k p)) = dom (p_accounts p)"
    "p_requests (prune_account E k p) = p_requests p"
proof -
  have "pool_ok E (prune_account E k p) \<and> dom (p_accounts (prune_account E k p)) = dom (p_accounts p)
    \<and> p_requests (prune_account E k p) = p_requests p"
  proof (cases "\<exists>a tx. p_accounts p k = Some a \<and> aq_peek (acc_enqueued a) = Some tx \<and> tx_Nonce tx \<noteq> acc_nextNonce a")
    case True
    then obtain a tx where a: "p_accounts p k = Some a" "aq_peek (acc_enqueued a) = Some tx"
      "tx_Nonce tx \<noteq> acc_nextNonce a" by blast
    let ?a = "a\<lparr>acc_enqueued := []\<rparr>"
    have res: "prune_account E k p = gauge_decrease (slotsRequired E (acc_enqueued a))
        (index_remove (acc_enqueued a) (set_account k ?a p))"
      using a by (simp add: prune_account_def aq_clear_def)
    have "acc_ok k ?a" using pool_okD(1) [OF assms a(1)] by (rule acc_ok_empty) simp_all
    then have "pool_ok E (prune_account E k p)"
      unfolding res by (intro pool_ok_update [OF assms a(1)]) (auto simp: pool_ops acc_slots_def ready_def)
    then show ?thesis using a(1) by (auto simp: res pool_ops)
  next
    case False
    then have "prune_account E k p = p" by (auto simp: prune_account_def split: option.split)
    then show ?thesis using assms by simp
  qed
  then show "pool_ok E (prune_account E k p)" "dom (p_accounts (prune_account E k p)) = dom (p_accounts p)"
    "p_requests (prune_account E k p) = p_requests p" by auto
qed

lemma pruneAccounts_ok:
  "pool_ok E p \<Longrightarrow> pool_ok E (pruneAccountsWithNonceHoles E ks p)
    \<and> p_requests (pruneAccountsWithNonceHoles E ks p) = p_requests p"
  unfolding pruneAccountsWithNonceHoles_def
  by (induction ks arbitrary: p) (simp_all add: prune_account_ok)

text \<open>No handler meets a nil account, and each keeps the invariant.\<close>

lemma handle_ok:
  assumes "pool_ok E p" "p_requests p = rs @ r # rs'"
  shows "\<exists>p'. handle E ks r (p\<lparr>p_requests := rs @ rs'\<rparr>) = Some p' \<and> pool_ok E p'"
proof (cases r)
  case (EnqueueRequest tx)
  then show ?thesis using handleEnqueue_ok [OF assms(1)] assms(2) by simp
next
  case (PromoteRequest k)
  then show ?thesis using handlePromote_ok [OF assms(1)] assms(2) by fastforce
next
  case PruneRequest
  have "pool_ok E (p\<lparr>p_requests := rs @ rs'\<rparr>)" using assms PruneRequest by (auto simp: pool_ok_def)
  then show ?thesis using pruneAccounts_ok [of E _ ks] PruneRequest by simp
qed

subsection \<open>Building a block\<close>

lemma Prepare_ok: "pool_ok E p \<Longrightarrow> pool_ok E (Prepare ks p)"
  by (erule pool_ok_cong) (auto simp: Prepare_def)

lemma Peek_ok: "pool_ok E p \<Longrightarrow> pool_ok E (snd (Peek p))"
  by (erule pool_ok_cong) (auto simp: Peek_def Let_def split: prod.split)

lemma Pop_ok:
  assumes "pool_ok E p" "primary tx p"
  shows "\<exists>p'. Pop E tx p = Some p' \<and> pool_ok E p'"
proof -
  obtain a where a: "p_accounts p (tx_From tx) = Some a" "aq_peek (acc_promoted a) = Some tx"
    using assms(2) by (auto simp: primary_def)
  note pop = pop_ok [OF pool_okD(1) [OF assms(1) a(1)] a(2) refl]
  let ?a = "resetDemotions (a\<lparr>acc_promoted := snd (aq_pop (acc_promoted a))\<rparr>)"
  have ok: "acc_ok (tx_From tx) ?a" using pop(1) by (simp add: resetDemotions_def acc_ok_def)
  have ready: "ready ?a \<longleftrightarrow> ready a" by (simp add: ready_def resetDemotions_def)
  obtain p' where p': "Pop E tx p = Some p'" using a by (simp add: Pop_def Let_def)
  then have fields: "p_accounts p' = (p_accounts p)(tx_From tx \<mapsto> ?a)" "p_requests p' = p_requests p"
    "p_maxEnqueuedLimit p' = p_maxEnqueuedLimit p" "p_height p' = p_height p - tx_slots E tx"
    using a by (auto simp: Pop_def Let_def pool_ops split: option.splits)
  have "pool_ok E p'"
    using pop(2) pool_okD(3) [OF assms(1) a(1)] ready
    by (intro pool_ok_update [OF assms(1) a(1) ok]) (auto simp: fields acc_slots_def resetDemotions_def)
  then show ?thesis using p' by blast
qed

lemma Drop_ok:
  assumes "pool_ok E p" "p_accounts p (tx_From tx) = Some a"
  shows "\<exists>p'. Drop E tx p = Some p' \<and> pool_ok E p' \<and> dom (p_accounts p') = dom (p_accounts p)"
proof -
  let ?a = "a\<lparr>acc_nextNonce := tx_Nonce tx, acc_promoted := [], acc_enqueued := []\<rparr>"
  have ok: "acc_ok (tx_From tx) ?a" using pool_okD(1) [OF assms] by (rule acc_ok_empty) simp_all
  obtain p' where p': "Drop E tx p = Some p'" using assms(2) by (simp add: Drop_def Let_def aq_clear_def)
  then have fields: "p_accounts p' = (p_accounts p)(tx_From tx \<mapsto> ?a)" "p_requests p' = p_requests p"
    "p_maxEnqueuedLimit p' = p_maxEnqueuedLimit p"
    "p_height p' = p_height p - slots E (mset (acc_promoted a)) - slots E (mset (acc_enqueued a))"
    using assms(2) by (auto simp: Drop_def Let_def aq_clear_def pool_ops)
  have "pool_ok E p'"
    by (intro pool_ok_update [OF assms ok]) (auto simp: fields acc_slots_def ready_def)
  then show ?thesis using p' fields(1) assms(2) by auto
qed

text \<open>The counters of an account do not matter.\<close>

lemma pool_ok_counters:
  assumes "pool_ok E p" "p_accounts p k = Some a" "acc_enqueued a' = acc_enqueued a"
    "acc_promoted a' = acc_promoted a" "acc_nextNonce a' = acc_nextNonce a" "acc_maxEnqueued a' = acc_maxEnqueued a"
  shows "pool_ok E (set_account k a' p)"
proof -
  have ok: "acc_ok k a'" using pool_okD(1) [OF assms(1,2)] assms(3-6) by (simp add: acc_ok_def)
  have "ready a' \<longleftrightarrow> ready a" using assms(3,5) by (simp add: ready_def)
  then show ?thesis
    using pool_okD(3) [OF assms(1,2)] assms(3-6)
    by (intro pool_ok_update [OF assms(1,2) ok]) (auto simp: set_account_def acc_slots_def)
qed

lemmas counters = resetDemotions_def incrementDemotions_def resetSkips_def incrementSkips_def

lemma Demote_ok:
  assumes "pool_ok E p" "p_accounts p (tx_From tx) = Some a"
  shows "\<exists>p'. Demote E tx p = Some p' \<and> pool_ok E p'"
proof (cases "maxAccountDemotions \<le> acc_demotions a")
  case True
  obtain q where q: "Drop E tx p = Some q" "pool_ok E q" "dom (p_accounts q) = dom (p_accounts p)"
    using Drop_ok [OF assms] by blast
  then obtain b where b: "p_accounts q (tx_From tx) = Some b" using assms(2) by blast
  then show ?thesis using True assms(2) q by (simp add: Demote_def counters pool_ok_counters [OF q(2) b])
next
  case False
  then show ?thesis
    using assms(2) by (simp add: Demote_def counters signalEvent_ok [OF pool_ok_counters [OF assms]])
qed

subsection \<open>New blocks\<close>

text \<open>Within \<^verbatim>\<open>resetAccounts\<close> the gauge still counts the transactions that have been pruned so far.\<close>

abbreviation off_by :: "uint64 \<Rightarrow> TxPool \<Rightarrow> TxPool" where
  "off_by d p \<equiv> p\<lparr>p_height := p_height p - d\<rparr>"

lemma reset_one_ok:
  assumes "pool_ok E (off_by (slots E (mset pp + mset pe)) p)" "reset_one (k, n) (pp, pe, p) = (pp', pe', p')"
  shows "pool_ok E (off_by (slots E (mset pp' + mset pe')) p')" "dom (p_accounts p') = dom (p_accounts p)"
proof -
  have "pool_ok E (off_by (slots E (mset pp' + mset pe')) p') \<and> dom (p_accounts p') = dom (p_accounts p)"
  proof (cases "p_accounts p k")
    case None
    then show ?thesis using assms by (simp add: reset_one_def)
  next
    case (Some a)
    let ?q = "off_by (slots E (mset pp + mset pe)) p"
    have a: "p_accounts ?q k = Some a" using Some by simp
    obtain rp re signal a' where reset: "account_reset a n = (rp, re, signal, a')" by (metis prod_cases4)
    note ok = reset_ok [OF pool_okD(1) [OF assms(1) a] reset]
    have acc: "acc_ok k (resetDemotions a')" using ok(1) by (simp add: acc_ok_def resetDemotions_def)
    have ready: "ready (resetDemotions a') \<longleftrightarrow> ready a'" by (simp add: ready_def resetDemotions_def)
    have res: "pp' = pp @ rp" "pe' = pe @ re"
      "p' = (case signal of Some x \<Rightarrow> send (PromoteRequest x) (set_account k (resetDemotions a') p)
            | None \<Rightarrow> set_account k (resetDemotions a') p)"
      using assms(2) Some reset by (auto simp: reset_one_def Let_def)
    have "pool_ok E (off_by (slots E (mset pp' + mset pe')) p')"
    proof (rule pool_ok_update [OF assms(1) a acc])
      show "ready (resetDemotions a') \<Longrightarrow> PromoteRequest k \<in> set (p_requests (off_by (slots E (mset pp' + mset pe')) p'))"
        using ok(6) pool_okD(3) [OF assms(1) a] ready by (auto simp: res(3) pool_ops split: option.splits)
    qed (use ok(2-4,7) Some in \<open>auto simp: res pool_ops acc_slots_def resetDemotions_def split: option.splits\<close>)
    moreover have "dom (p_accounts p') = dom (p_accounts p)"
      using Some by (auto simp: res(3) pool_ops split: option.splits)
    ultimately show ?thesis by blast
  qed
  then show "pool_ok E (off_by (slots E (mset pp' + mset pe')) p')" "dom (p_accounts p') = dom (p_accounts p)"
    by auto
qed

lemma fold_reset_ok:
  "pool_ok E (off_by (slots E (mset pp + mset pe)) p) \<Longrightarrow> fold reset_one ns (pp, pe, p) = (pp', pe', p') \<Longrightarrow>
    pool_ok E (off_by (slots E (mset pp' + mset pe')) p') \<and> dom (p_accounts p') = dom (p_accounts p)"
proof (induction ns arbitrary: pp pe p)
  case (Cons x ns)
  obtain k n where x: "x = (k, n)" by fastforce
  obtain pp1 pe1 p1 where one: "reset_one (k, n) (pp, pe, p) = (pp1, pe1, p1)" by (metis prod_cases3)
  show ?case using Cons.IH [OF reset_one_ok(1) [OF Cons.prems(1) one]] Cons.prems(2) reset_one_ok(2) [OF Cons.prems(1) one]
    by (simp add: x one)
qed simp

lemma resetAccounts_ok:
  assumes "pool_ok E p"
  shows "pool_ok E (resetAccounts E ns p)" "dom (p_accounts (resetAccounts E ns p)) = dom (p_accounts p)"
proof -
  obtain pp pe q where fold: "fold reset_one ns ([], [], p) = (pp, pe, q)" by (metis prod_cases3)
  have q: "pool_ok E (off_by (slots E (mset pp + mset pe)) q)" "dom (p_accounts q) = dom (p_accounts p)"
    using fold_reset_ok [OF _ fold, of E] assms by simp_all
  let ?p = "resetAccounts E ns p"
  have fields: "p_accounts ?p = p_accounts q" "p_maxEnqueuedLimit ?p = p_maxEnqueuedLimit q"
    "p_requests ?p = p_requests q" "p_height ?p = p_height q - slots E (mset pp + mset pe)"
    by (auto simp: resetAccounts_def fold pool_ops Let_def)
  show "pool_ok E ?p" by (rule pool_ok_cong [OF q(1)]) (simp_all add: fields)
  show "dom (p_accounts ?p) = dom (p_accounts p)" using q(2) fields(1) by simp
qed

lemma getLowestTx_from:
  assumes "acc_ok k a" "getLowestTx a = Some tx"
  shows "tx_From tx = k"
proof -
  have "tx \<in> set (acc_enqueued a) \<union> set (acc_promoted a)"
    using assms aq_peek_least(1) [of "acc_promoted a" tx] aq_peek_least(1) [of "acc_enqueued a" tx]
    by (auto simp: getLowestTx_def acc_ok_def split: option.splits)
  then show ?thesis using assms(1) by (auto simp: acc_ok_def)
qed

lemma skip_account_ok:
  assumes "pool_ok E p"
  shows "\<exists>p'. skip_account E active k p = Some p' \<and> pool_ok E p'"
proof (cases "p_accounts p k")
  case (Some a)
  note same = pool_ok_counters [OF assms Some]
  show ?thesis
  proof (cases "k \<in> active \<or> getLowestTx a = None \<or> acc_skips (incrementSkips a) < maxAccountSkips")
    case True
    then show ?thesis using assms Some by (auto simp: skip_account_def same counters split: option.split)
  next
    case False
    then obtain tx where tx: "getLowestTx a = Some tx" by auto
    let ?p = "set_account k (incrementSkips a) p"
    have p: "pool_ok E ?p" by (rule same) (simp_all add: counters)
    have sender: "tx_From tx = k" by (rule getLowestTx_from [OF pool_okD(1) [OF assms Some] tx])
    have "p_accounts ?p (tx_From tx) = Some (incrementSkips a)" by (simp add: set_account_def sender)
    then obtain q where q: "Drop E tx ?p = Some q" "pool_ok E q" "dom (p_accounts q) = dom (p_accounts ?p)"
      using Drop_ok [OF p] by blast
    then obtain b where b: "p_accounts q k = Some b" by (auto simp: set_account_def)
    have "pool_ok E (set_account k (resetSkips b) q)"
      by (rule pool_ok_counters [OF q(2) b]) (simp_all add: counters)
    then show ?thesis using False tx q(1) b Some by (simp add: skip_account_def Let_def)
  qed
qed (use assms in \<open>simp add: skip_account_def\<close>)

lemma updateAccountSkips_ok:
  "pool_ok E p \<Longrightarrow> \<exists>p'. updateAccountSkipsCounts E active ks p = Some p' \<and> pool_ok E p'"
proof (induction ks arbitrary: p)
  case (Cons k ks)
  obtain q where "skip_account E active k p = Some q" "pool_ok E q"
    using skip_account_ok [OF Cons.prems] by blast
  then show ?case using Cons.IH by simp
qed simp

lemma processHeaders_ok:
  "pool_ok E p \<Longrightarrow> fold (processHeader E S) hs (ns, p) = (ns', p') \<Longrightarrow> pool_ok E p'"
proof (induction hs arbitrary: ns p)
  case (Cons h hs)
  obtain ns1 p1 where one: "processHeader E S h (ns, p) = (ns1, p1)" by fastforce
  have "pool_ok E p1"
    by (rule pool_ok_cong [OF Cons.prems(1)])
       (use one in \<open>auto simp: processHeader_def index_remove_def split: option.splits\<close>)
  then show ?case using Cons.IH Cons.prems(2) one by simp
qed simp

lemma processEvent_ok:
  assumes "pool_ok E p"
  shows "\<exists>p'. processEvent E S ord ks newChain p = Some p' \<and> pool_ok E p'"
proof -
  obtain ns q where fold: "fold (processHeader E S) newChain ([], p) = (ns, q)" by fastforce
  have q: "pool_ok E q" by (rule processHeaders_ok [OF assms fold])
  let ?q = "if ns = [] then q else resetAccounts E (ord ns) q"
  have "pool_ok E ?q" using q resetAccounts_ok(1) [OF q] by simp
  then show ?thesis
    using updateAccountSkips_ok [of E ?q "fst ` set ns" ks] by (simp add: processEvent_def fold Let_def)
qed

subsection \<open>Every step\<close>

lemma NewTxPool_ok: "pool_ok E (NewTxPool E forks c)"
  by (simp add: pool_ok_def NewTxPool_def total_slots_def)

lemma pool_step_ok: "pool_step E p p' \<Longrightarrow> pool_ok E p \<Longrightarrow> pool_ok E p'"
proof (induction rule: pool_step.induct)
  case (step_add tx p S)
  then show ?case by (intro addTx_ok)
next
  case (step_handle p rs r rs' ks p')
  then show ?case using handle_ok [OF step_handle(4,1), of ks] by auto
next
  case (step_cooldown p)
  then show ?case by (auto intro: pool_ok_cong)
next
  case (step_prepare ks p)
  then show ?case by (intro Prepare_ok)
next
  case (step_peek p)
  then show ?case by (intro Peek_ok)
next
  case (step_pop tx p p')
  then show ?case using Pop_ok [OF step_pop(3,1)] by auto
next
  case (step_drop tx p p')
  then show ?case using Drop_ok [OF step_drop(3), of tx] by (fastforce simp: primary_def)
next
  case (step_demote tx p p')
  then show ?case using Demote_ok [OF step_demote(3), of tx] by (fastforce simp: primary_def)
next
  case (step_reset ks p ord S newChain p')
  then show ?case using processEvent_ok [OF step_reset(4), of S ord ks newChain] step_reset(3) by simp
next
  case (step_seal p b)
  then show ?case by (auto intro: pool_ok_cong simp: SetSealing_def)
qed

lemma reachable_ok: "reachable E forks c p \<Longrightarrow> pool_ok E p"
  unfolding reachable_def
  by (induction rule: rtranclp_induct) (auto intro: NewTxPool_ok pool_step_ok)

end
