(* ===== verification/TxPoolProps.thy ===== *)
theory TxPoolProps
  imports TxPoolInv
begin

text \<open>
  What the transaction pool guarantees: the queues of every account in every reachable state, the gauge,
  that pending requests always drain and leave nothing promotable behind, which transaction is promoted
  and which is offered to the block builder; and how the limit of the pool is overrun.
\<close>

text \<open>The accounts, written out.\<close>

lemma gap_free_nonces:
  assumes "gap_free n q"
  shows "distinct (map tx_Nonce q)" "set (nonces q) = {unat n - length q..<unat n}"
proof -
  have m: "mset (nonces q) = mset [unat n - length q..<unat n]" using assms by (simp only: gap_free_def)
  then have "distinct (nonces q)" by (metis distinct_upt mset_eq_imp_distinct_iff)
  then show "distinct (map tx_Nonce q)" by (auto simp: distinct_map inj_on_def)
  show "set (nonces q) = {unat n - length q..<unat n}" using m by (metis atLeastLessThan_upt mset_eq_setD)
qed

text \<open>C24. In every reachable state of the pool, whatever requests are still pending, the promoted queue of an
  account holds exactly one transaction for each nonce of a gap-free run that ends just before the next
  expected nonce; every enqueued transaction has that nonce or a higher one; both queues hold only
  transactions of the account's address; and the enqueued queue keeps within its limit. (A transaction
  with the last nonce, \<open>2 ^ 64 - 1\<close>, is not considered: its successor wraps to 0.)\<close>

theorem pool_queues_ordered:
  assumes "reachable E forks c p" "p_accounts p addr = Some a"
  shows "distinct (map tx_Nonce (acc_promoted a))
    \<and> (\<lambda>t. unat (tx_Nonce t)) ` set (acc_promoted a)
        = {unat (acc_nextNonce a) - length (acc_promoted a)..<unat (acc_nextNonce a)}
    \<and> length (acc_promoted a) \<le> unat (acc_nextNonce a)
    \<and> (\<forall>t\<in>set (acc_enqueued a). acc_nextNonce a \<le> tx_Nonce t)
    \<and> (\<forall>t\<in>set (acc_enqueued a) \<union> set (acc_promoted a). tx_From t = addr)
    \<and> length (acc_enqueued a) \<le> unat (p_maxEnqueuedLimit p)"
proof -
  note ok = pool_okD [OF reachable_ok [OF assms(1)] assms(2)]
  then have gap: "gap_free (acc_nextNonce a) (acc_promoted a)" by (simp add: acc_ok_def)
  then show ?thesis
    using ok gap_free_nonces [OF gap] by (auto simp: acc_ok_def gap_free_def image_set [symmetric])
qed


subsection \<open>Progress\<close>

text \<open>The steps of the handlers alone, and how many can follow: an enqueue request may signal one promotion.\<close>

inductive handler_step :: "('a, 'v) PoolEnv \<Rightarrow> TxPool \<Rightarrow> TxPool \<Rightarrow> bool" for E where
  "p_requests p = rs @ r # rs' \<Longrightarrow> visits ks p \<Longrightarrow> handle E ks r (p\<lparr>p_requests := rs @ rs'\<rparr>) = Some p'
    \<Longrightarrow> handler_step E p p'"

fun weight :: "request \<Rightarrow> nat" where
  "weight (EnqueueRequest tx) = 2"
| "weight (PromoteRequest addr) = 1"
| "weight PruneRequest = 1"

abbreviation weights :: "TxPool \<Rightarrow> nat" where "weights p \<equiv> sum_list (map weight (p_requests p))"

lemma handle_weight:
  assumes "pool_ok E p" "p_requests p = rs @ r # rs'" "handle E ks r (p\<lparr>p_requests := rs @ rs'\<rparr>) = Some p'"
  shows "weights p' < weights p"
proof (cases r)
  case (EnqueueRequest tx)
  then show ?thesis using assms(2,3)
    by (auto simp: handleEnqueueRequest_def pool_ops Let_def split: option.splits sum.splits if_splits)
next
  case (PromoteRequest k)
  then show ?thesis using handlePromote_ok [OF assms(1)] assms(2,3) by fastforce
next
  case PruneRequest
  have "pool_ok E (p\<lparr>p_requests := rs @ rs'\<rparr>)" using assms PruneRequest by (auto simp: pool_ok_def)
  then show ?thesis using pruneAccounts_ok [of E _ ks] PruneRequest assms(2,3) by auto
qed

lemma handler_step_ok:
  "handler_step E p p' \<Longrightarrow> pool_ok E p \<Longrightarrow> pool_ok E p' \<and> weights p' < weights p"
  using pool_step.step_handle pool_step_ok handle_weight by (fastforce simp: handler_step.simps)

lemma handler_steps_ok:
  "(handler_step E ^^ n) p p' \<Longrightarrow> pool_ok E p \<Longrightarrow> pool_ok E p' \<and> n + weights p' \<le> weights p"
proof (induction n arbitrary: p')
  case (Suc n)
  then obtain q where "(handler_step E ^^ n) p q" "handler_step E q p'" by auto
  then show ?case using Suc.IH [of q] Suc.prems(2) handler_step_ok [of E q p'] by auto
qed simp

lemma handler_progress:
  assumes "pool_ok E p" "p_requests p \<noteq> []"
  shows "\<exists>p'. handler_step E p p'"
proof -
  obtain r rs where req: "p_requests p = [] @ r # rs" using assms(2) by (cases "p_requests p") auto
  obtain ks where "distinct ks" "set ks = dom (p_accounts p)"
    using finite_distinct_list [of "dom (p_accounts p)"] assms(1) by (auto simp: pool_ok_def)
  then show ?thesis using handle_ok [OF assms(1) req, of ks] req handler_step.intros [of p "[]" r rs ks E]
    by (auto simp: visits_def)
qed

lemma handlers_finish: "pool_ok E p \<Longrightarrow> \<exists>p'. (handler_step E)\<^sup>*\<^sup>* p p' \<and> p_requests p' = []"
proof (induction "weights p" arbitrary: p rule: less_induct)
  case less
  show ?case
  proof (cases "p_requests p = []")
    case False
    obtain q where "handler_step E p q" using handler_progress [OF less.prems False] by blast
    then show ?thesis using less.hyps [of q] handler_step_ok [of E p q] less.prems
      by (meson converse_rtranclp_into_rtranclp)
  qed auto
qed

text \<open>C26. The pool never gets stuck: from every reachable state the pending requests can be handled until none is
  left, no sequence of handlers is longer than twice the number of enqueue requests plus the others,
  no handler runs into an unknown account while a request is pending, and once no request is pending,
  every enqueued transaction waits for a nonce that is missing: nothing that could be promoted has been
  forgotten, in whatever order the goroutines have run.\<close>

theorem pool_drains:
  assumes "reachable E forks c p"
  shows "(\<exists>p'. (handler_step E)\<^sup>*\<^sup>* p p' \<and> p_requests p' = [])
    \<and> (\<forall>n p'. (handler_step E ^^ n) p p' \<longrightarrow> n \<le> weights p
         \<and> (p_requests p' \<noteq> [] \<longrightarrow> (\<exists>p''. handler_step E p' p''))
         \<and> (p_requests p' = [] \<longrightarrow> (\<forall>addr a. p_accounts p' addr = Some a \<longrightarrow>
              (\<forall>t\<in>set (acc_enqueued a). acc_nextNonce a < tx_Nonce t))))"
proof -
  note ok = reachable_ok [OF assms]
  have "acc_nextNonce a < tx_Nonce t"
    if "pool_ok E p'" "p_requests p' = []" "p_accounts p' addr = Some a" "t \<in> set (acc_enqueued a)" for p' addr a t
  proof -
    have "\<not> ready a" using pool_okD(3) [OF that(1,3)] that(2) by auto
    then show ?thesis using pool_okD(1) [OF that(1,3)] that(4) by (auto simp: acc_ok_def ready_def order_less_le)
  qed
  moreover have "pool_ok E p' \<and> n \<le> weights p" if "(handler_step E ^^ n) p p'" for n p'
    using handler_steps_ok [OF that ok] by simp
  ultimately show ?thesis using handlers_finish [OF ok] handler_progress [of E] by blast
qed

subsection \<open>Which transaction is taken\<close>

text \<open>C28. Promotion takes the whole run of consecutive nonces that starts at the expected one, and of the
  transactions with the same nonce the one with the highest gas price: what is promoted are the nonces
  from the old to the new expected nonce, one each and in order; no transaction for the new expected
  nonce is left; and each promoted transaction pays at least as much as every other enqueued one of its
  nonce.\<close>

theorem promote_takes_best:
  assumes "reachable E forks c p" "p_accounts p addr = Some a" "account_promote a = (promoted, pruned, a')"
  shows "map (\<lambda>t. unat (tx_Nonce t)) promoted = [unat (acc_nextNonce a)..<unat (acc_nextNonce a')]
    \<and> mset (acc_enqueued a) = mset promoted + mset pruned + mset (acc_enqueued a')
    \<and> mset (acc_promoted a') = mset (acc_promoted a) + mset promoted
    \<and> (\<forall>t\<in>set (acc_enqueued a'). acc_nextNonce a' < tx_Nonce t)
    \<and> (\<forall>t\<in>set promoted. \<forall>t'\<in>set (acc_enqueued a). tx_Nonce t' = tx_Nonce t \<longrightarrow> tx_GasPrice t' \<le> tx_GasPrice t)"
proof -
  note ok = promote_ok [OF pool_okD(1) [OF reachable_ok [OF assms(1)] assms(2)] assms(3)]
  have dist: "distinct (nonces promoted)" using ok(4) by simp
  have same: "t1 = t2" if "t1 \<in> set promoted" "t2 \<in> set promoted" "tx_Nonce t1 = tx_Nonce t2" for t1 t2
    using dist that by (auto simp: distinct_map inj_on_def)
  have "tx_GasPrice t' \<le> tx_GasPrice t"
    if t: "t \<in> set promoted" "t' \<in> set (acc_enqueued a)" "tx_Nonce t' = tx_Nonce t" for t t'
  proof -
    have "t' \<in> set promoted \<union> set pruned \<union> set (acc_enqueued a')"
      using t(2) ok(2) by (metis set_mset_mset set_mset_union)
    moreover have "tx_Nonce t < acc_nextNonce a'"
    proof -
      have "unat (tx_Nonce t) \<in> set (nonces promoted)" using t(1) by simp
      then show ?thesis unfolding ok(4) by (simp add: word_less_nat_alt)
    qed
    ultimately show ?thesis using ok(6,7) same t(1,3) by fastforce
  qed
  then show ?thesis using ok by blast
qed

lemma pq_pushes:
  "is_heap maxPriceQueue_Less q \<Longrightarrow> is_heap maxPriceQueue_Less (foldl pq_push q txs)
    \<and> mset (foldl pq_push q txs) = mset q + mset txs"
  by (induction txs arbitrary: q) (simp_all add: pq_push_def price_heap.Push_heap Push_mset)

lemma getPrimaries_iff:
  assumes "pool_ok E p" "visits ks p"
  shows "tx \<in> set (getPrimaries ks p) \<longleftrightarrow> primary tx p"
proof -
  have "tx_From tx = k" if "p_accounts p k = Some a" "aq_peek (acc_promoted a) = Some tx" for k a
    using pool_okD(1) [OF assms(1) that(1)] aq_peek_least(1) [OF _ that(2)] by (auto simp: acc_ok_def)
  moreover have "tx \<in> set (getPrimaries ks p)
    \<longleftrightarrow> (\<exists>k\<in>set ks. \<exists>a. p_accounts p k = Some a \<and> aq_peek (acc_promoted a) = Some tx)"
    by (auto simp: getPrimaries_def split: option.splits; metis)
  moreover have "k \<in> set ks \<longleftrightarrow> (\<exists>a. p_accounts p k = Some a)" for k
    using assms(2) by (auto simp: visits_def)
  ultimately show ?thesis unfolding primary_def by metis
qed

text \<open>C29. The block builder is offered the best-paying executable transaction: after \<^verbatim>\<open>Prepare\<close>, \<^verbatim>\<open>Peek\<close> returns
  nothing exactly if no account has a promoted transaction, and otherwise a transaction that is first in
  line for its account and whose gas price, read as a 64-bit number as the queue does, no other
  transaction that is first in line exceeds.\<close>

theorem Peek_best_price:
  assumes "reachable E forks c p" "visits ks p"
  shows "case fst (Peek (Prepare ks p)) of
      None \<Rightarrow> \<forall>tx. \<not> primary tx p
    | Some tx \<Rightarrow> primary tx p \<and> (\<forall>tx'. primary tx' p \<longrightarrow> big_Uint64 (tx_GasPrice tx') \<le> big_Uint64 (tx_GasPrice tx))"
proof -
  let ?q = "foldl pq_push [] (getPrimaries ks p)"
  have q: "is_heap maxPriceQueue_Less ?q" "mset ?q = mset (getPrimaries ks p)"
    using pq_pushes [of "[]" "getPrimaries ks p"] by simp_all
  have set: "tx \<in> set ?q \<longleftrightarrow> primary tx p" for tx
    using getPrimaries_iff [OF reachable_ok [OF assms(1)] assms(2), of tx] q(2) by (metis set_mset_mset)
  show ?thesis
  proof (cases "?q = []")
    case True
    then show ?thesis using set by (simp add: Peek_def Prepare_def pq_pop_def)
  next
    case False
    then obtain tx r where "pq_pop ?q = (Some tx, r)" "mset ?q = add_mset tx (mset r)"
      "\<forall>t\<in>set ?q. big_Uint64 (tx_GasPrice t) \<le> big_Uint64 (tx_GasPrice tx)"
      using pq_pop_props [OF q(1)] by blast
    moreover from this(2) have "tx \<in> set ?q" by (metis set_mset_mset union_single_eq_member)
    ultimately show ?thesis using set by (simp add: Peek_def Prepare_def)
  qed
qed

subsection \<open>A concrete pool\<close>

text \<open>A pool with room for one slot. Two transactions are admitted before the first is enqueued. The codec
  of the example writes its fields one after the other.\<close>

definition flat_codec :: "(byte list, byte list) Codec" where
  "flat_codec =
    \<lparr> NewUint = (\<lambda>n. [ucast n]), NewBigInt = (\<lambda>i. [word_of_int i]), NewBytes = id,
      NewBool = (\<lambda>b. [of_bool b]), NewNull = [],
      NewNullArray = [], NewArray = concat, MarshalTo = id, Parse = Some, IsTypeBytes = (\<lambda>_. True),
      ElemsOf = length, LenOf = length,
      GetElems = (\<lambda>bs. Some (map (\<lambda>b. [b]) bs)), BytesOf = Some, GetBytes = Some, GetBytesN = (\<lambda>bs _. Some bs),
      GetHashOf = (\<lambda>_. Some 0), GetAddr = (\<lambda>_. Some 0), GetUint64 = (\<lambda>_. Some 0), GetBigInt = (\<lambda>_. Some 0),
      GetBool = (\<lambda>_. Some True),
      RawOf = id, Keccak = (\<lambda>bs. word_of_int (big_SetBytes bs)) \<rparr>"

definition demo_pool_env :: "(byte list, byte list) PoolEnv" where
  "demo_pool_env = \<lparr> pe_R = flat_codec, pe_Sender = (\<lambda>_. Some 1) \<rparr>"

definition demo_head :: Store where
  "demo_head = \<lparr> st_StateRoot = 0, st_GasLimit = 30000000, st_GetNonce = (\<lambda>_ _. 0),
     st_GetBalance = (\<lambda>_ _. Some 1000000), st_GetBlockByHash = (\<lambda>_. None) \<rparr>"

definition demo_config :: PoolConfig where
  "demo_config = \<lparr> cfg_PriceLimit = 0, cfg_MaxSlots = 1, cfg_MaxAccountEnqueued = 8, cfg_DeploymentWhitelist = [] \<rparr>"

definition demo_forks :: ForksInTime where
  "demo_forks = Forks_At AllForksEnabled 0"

definition demo_pooled :: "uint64 \<Rightarrow> Transaction" where
  "demo_pooled n = zeroTransaction\<lparr>tx_Nonce := n, tx_GasPrice := 3, tx_Gas := 21000, tx_To := Some 2\<rparr>"

definition demo_admitted :: TxPool where
  "demo_admitted = snd (addTx demo_pool_env demo_head (demo_pooled 1)
     (snd (addTx demo_pool_env demo_head (demo_pooled 0) (NewTxPool demo_pool_env demo_forks demo_config))))"

definition demo_hashed :: "uint64 \<Rightarrow> Transaction" where
  "demo_hashed n = Transaction_ComputeHash flat_codec ((demo_pooled n)\<lparr>tx_From := 1\<rparr>)"

definition demo_half :: TxPool where
  "demo_half = the (handleEnqueueRequest demo_pool_env (demo_hashed 0)
     (demo_admitted\<lparr>p_requests := [EnqueueRequest (demo_hashed 1)]\<rparr>))"

definition demo_full :: TxPool where
  "demo_full = the (handleEnqueueRequest demo_pool_env (demo_hashed 1)
     (demo_half\<lparr>p_requests := [PromoteRequest 1]\<rparr>))"

definition demo_promoted :: TxPool where
  "demo_promoted = the (handlePromoteRequest demo_pool_env 1 (demo_full\<lparr>p_requests := []\<rparr>))"

lemma reachable_add:
  "reachable E forks c p \<Longrightarrow> tx_Nonce tx \<noteq> - 1 \<Longrightarrow> reachable E forks c (snd (addTx E S tx p))"
  unfolding reachable_def by (auto intro: pool_step.step_add rtranclp.rtrancl_into_rtrancl)

lemma reachable_handle:
  assumes "reachable E forks c p" "p_requests p = rs @ r # rs'" "r \<noteq> PruneRequest"
    and "\<not> Option.is_none (handle E [] r (p\<lparr>p_requests := rs @ rs'\<rparr>))"
  shows "reachable E forks c (the (handle E [] r (p\<lparr>p_requests := rs @ rs'\<rparr>)))"
proof -
  obtain ks where ks: "visits ks p"
    using finite_distinct_list [of "dom (p_accounts p)"] reachable_ok [OF assms(1)]
    by (auto simp: pool_ok_def visits_def)
  have "handle E ks r q = handle E [] r q" for q using assms(3) by (cases r) simp_all
  then have "pool_step E p (the (handle E [] r (p\<lparr>p_requests := rs @ rs'\<rparr>)))"
    using assms(2,4) ks by (intro pool_step.step_handle [of p rs r rs' ks]) (auto simp: Option.is_none_def)
  then show ?thesis using assms(1) unfolding reachable_def by (rule rtranclp.rtrancl_into_rtrancl [rotated])
qed

lemma demo_admitted_reachable: "reachable demo_pool_env demo_forks demo_config demo_admitted"
  unfolding demo_admitted_def
  by (intro reachable_add) (simp_all add: reachable_def demo_pooled_def)

lemma demo_admitted_requests:
  "p_requests demo_admitted = [] @ EnqueueRequest (demo_hashed 0) # [EnqueueRequest (demo_hashed 1)]"
  by code_simp

lemma demo_half_requests: "p_requests demo_half = [] @ EnqueueRequest (demo_hashed 1) # [PromoteRequest 1]"
  by code_simp

lemma demo_full_requests: "p_requests demo_full = [] @ PromoteRequest 1 # []"
  by code_simp

lemma demo_half_reachable: "reachable demo_pool_env demo_forks demo_config demo_half"
proof -
  have "\<not> Option.is_none (handle demo_pool_env [] (EnqueueRequest (demo_hashed 0))
      (demo_admitted\<lparr>p_requests := [] @ [EnqueueRequest (demo_hashed 1)]\<rparr>))" by code_simp
  from reachable_handle [OF demo_admitted_reachable demo_admitted_requests _ this] show ?thesis
    by (simp add: demo_half_def)
qed

lemma demo_full_reachable: "reachable demo_pool_env demo_forks demo_config demo_full"
proof -
  have "\<not> Option.is_none (handle demo_pool_env [] (EnqueueRequest (demo_hashed 1))
      (demo_half\<lparr>p_requests := [] @ [PromoteRequest 1]\<rparr>))" by code_simp
  from reachable_handle [OF demo_half_reachable demo_half_requests _ this] show ?thesis
    by (simp add: demo_full_def)
qed

lemma demo_promoted_reachable: "reachable demo_pool_env demo_forks demo_config demo_promoted"
proof -
  have "\<not> Option.is_none (handle demo_pool_env [] (PromoteRequest 1)
      (demo_full\<lparr>p_requests := [] @ []\<rparr>))" by code_simp
  from reachable_handle [OF demo_full_reachable demo_full_requests _ this] show ?thesis
    by (simp add: demo_promoted_def)
qed


subsection \<open>The theorems on it\<close>

theorem pool_queues_ordered_witness:
  "\<exists>a. p_accounts demo_promoted 1 = Some a \<and> distinct (map tx_Nonce (acc_promoted a))
    \<and> length (acc_promoted a) = 2"
proof -
  have "case p_accounts demo_promoted 1 of Some a \<Rightarrow> length (acc_promoted a) = 2 | None \<Rightarrow> False" by code_simp
  then obtain a where "p_accounts demo_promoted 1 = Some a" "length (acc_promoted a) = 2"
    by (auto split: option.splits)
  then show ?thesis using pool_queues_ordered [OF demo_promoted_reachable] by blast
qed


theorem pool_drains_witness:
  "\<exists>p. (handler_step demo_pool_env)\<^sup>*\<^sup>* demo_full p \<and> p_requests p = []"
  using pool_drains [OF demo_full_reachable] by blast

theorem promote_takes_best_witness:
  "\<exists>a promoted pruned a'. p_accounts demo_full 1 = Some a \<and> account_promote a = (promoted, pruned, a')
    \<and> map (\<lambda>t. unat (tx_Nonce t)) promoted = [0..<2]"
proof -
  have "case p_accounts demo_full 1 of
      Some a \<Rightarrow> acc_nextNonce a = 0 \<and> acc_nextNonce (snd (snd (account_promote a))) = 2 | None \<Rightarrow> False" by code_simp
  then obtain a where a: "p_accounts demo_full 1 = Some a" "acc_nextNonce a = 0"
    "acc_nextNonce (snd (snd (account_promote a))) = 2" by (auto split: option.splits)
  obtain promoted pruned a' where "account_promote a = (promoted, pruned, a')" by (metis prod_cases3)
  then show ?thesis using promote_takes_best [OF demo_full_reachable a(1)] a by fastforce
qed

theorem Peek_best_price_witness:
  "\<exists>ks tx. visits ks demo_promoted \<and> fst (Peek (Prepare ks demo_promoted)) = Some tx"
proof -
  obtain ks where ks: "visits ks demo_promoted"
    using finite_distinct_list [of "dom (p_accounts demo_promoted)"] reachable_ok [OF demo_promoted_reachable]
    by (auto simp: pool_ok_def visits_def)
  have "case p_accounts demo_promoted 1 of
      Some a \<Rightarrow> aq_peek (acc_promoted a) = Some (demo_hashed 0) | None \<Rightarrow> False" by code_simp
  moreover have "tx_From (demo_hashed 0) = 1" by code_simp
  ultimately have "primary (demo_hashed 0) demo_promoted" by (auto simp: primary_def split: option.splits)
  then show ?thesis using Peek_best_price [OF demo_promoted_reachable ks] ks by (auto split: option.splits)
qed

end
