(* ===== verification/PoolExecutor.thy ===== *)
theory PoolExecutor
  imports TxPoolProps ExecutorProps
begin

text \<open>
  The transaction pool and the block executor together: what the pool lets in, the executor does not
  reject.
\<close>

lemma validateTx_accepts:
  assumes "validateTx P S p tx = Inr m"
  shows "tx_Type m = LegacyTx" "tx_ok m"
    "\<exists>b. st_GetBalance S (st_StateRoot S) (tx_From m) = Some b \<and> Cost m \<le> b"
    "\<exists>g. TransactionGasCost m (Homestead (p_forks p)) (Istanbul (p_forks p)) = Inr g \<and> g \<le> tx_Gas m"
proof -
  show "tx_Type m = LegacyTx"
    using assms by (cases "tx_Type tx") (auto simp: validateTx_def Let_def split: if_splits option.splits sum.splits)
  have "uint (p_priceLimit p) \<le> tx_GasPrice m" "0 \<le> tx_Value m"
    using assms by (auto simp: validateTx_def Let_def IsUnderpriced_def split: if_splits option.splits sum.splits)
  moreover have "0 \<le> uint (p_priceLimit p)" by simp
  ultimately show "tx_ok m" unfolding tx_ok_def by linarith
  show "\<exists>b. st_GetBalance S (st_StateRoot S) (tx_From m) = Some b \<and> Cost m \<le> b"
    "\<exists>g. TransactionGasCost m (Homestead (p_forks p)) (Istanbul (p_forks p)) = Inr g \<and> g \<le> tx_Gas m"
    using assms by (auto simp: validateTx_def Let_def split: if_splits option.splits sum.splits)
qed

text \<open>The checks of the executor pass for a transaction with the right nonce, funds and gas.\<close>

lemma apply_tx_accepts:
  assumes "Tinv (env_K E) t" "tx_ok m" "tx_Type m = LegacyTx"
    and "tx_Nonce m = GetNonce (env_K E) (t_state t) (tx_From m)"
    and "Cost m \<le> GetBalance (env_K E) (t_state t) (tx_From m)" "tx_Gas m \<le> t_gasPool t"
    and "TransactionGasCost m (Homestead (t_config t)) (Istanbul (t_config t)) = Inr g" "g \<le> tx_Gas m"
  shows "\<exists>res t'. apply_tx E m t = Some (Inr res, t')"
proof -
  have "0 \<le> tx_Value m" using assms(2) by (simp add: tx_ok_def)
  then have funds: "\<not> GetBalance (env_K E) (t_state t) (tx_From m) < tx_GasPrice m * uint (tx_Gas m)"
    using assms(5) by (simp add: Cost_def)
  then obtain s where sub: "SubBalance (env_K E) (tx_From m) (tx_GasPrice m * uint (tx_Gas m)) (t_state t) = Inr s"
    by (cases "SubBalance (env_K E) (tx_From m) (tx_GasPrice m * uint (tx_Gas m)) (t_state t)")
       (simp_all add: SubBalance_def split: if_splits)
  then have chk: "checkAndProcessLegacyTx E m t = Inr (t\<lparr>t_state := s\<rparr>)"
    using assms(4) by (simp add: checkAndProcessLegacyTx_def nonceCheck_def subGasLimitPrice_def)
  obtain s1 where s1: "t\<lparr>t_state := s\<rparr> = t\<lparr>t_state := s1\<rparr>" "snapshot s1 = snapshot (t_state t)"
    "snapshots s1 = snapshots (t_state t)"
    "totalSupply (env_K E) s1 = totalSupply (env_K E) (t_state t) - tx_GasPrice m * uint (tx_Gas m)"
    using checks_charge [of m t E "t\<lparr>t_state := s\<rparr>"] chk assms(3) by auto
  have "s1 = s" using arg_cong [OF s1(1), of t_state] by simp
  have low: "tx_Gas m - g \<le> tx_Gas m" using assms(8) by (simp add: word_sub_le)
  from message_ok [OF assms(1,2) low assms(6) s1(2-4)] obtain r t1 where
    "execute_message E m (tx_Gas m - g) (t\<lparr>t_state := s, t_gasPool := t_gasPool t - tx_Gas m\<rparr>) = Some (r, t1)"
    by (auto simp: \<open>s1 = s\<close> bind_eq_Some_conv)
  then show ?thesis
    using chk assms(3,6,7) low
    by (cases "settle E m r t1") (simp add: apply_tx_def subGasPool_def not_less leD)
qed



end
