(* ===== verification/Bls.thy ===== *)
theory Bls
  imports Prelude
begin

unbundle bit_operations_syntax

text \<open>
  The BLS signatures of \<^verbatim>\<open>consensus/plgbft/signer/\<close>: keys, signatures, their aggregation and the map of a
  message to a point of the curve.

  The curve belongs to the package \<^verbatim>\<open>go-eth-bn256\<close> and is a parameter, \<open>Bn256\<close>, together with SHA-256: \<open>'g1\<close>
  and \<open>'g2\<close> are its points. A key and a signature are structures with a single field; here they are the
  point. A result \<open>Inl NilPointer\<close> is the panic of a use of the \<^verbatim>\<open>nil\<close> that \<^verbatim>\<open>ModInverse\<close> returns when there
  is no inverse.
\<close>

record ('g1, 'g2) Bn256 =
  G1_Unmarshal :: "byte list \<Rightarrow> 'g1 option"
  G1_Marshal :: "'g1 \<Rightarrow> byte list"
  G1_IsInfinity :: "'g1 \<Rightarrow> bool"
  G1_InCorrectSubgroup :: "'g1 \<Rightarrow> bool"
  G1_New :: 'g1
  G1_Add :: "'g1 \<Rightarrow> 'g1 \<Rightarrow> 'g1"
  G1_ScalarMult :: "'g1 \<Rightarrow> int \<Rightarrow> 'g1"
  G2_Unmarshal :: "byte list \<Rightarrow> 'g2 option"
  G2_Marshal :: "'g2 \<Rightarrow> byte list"
  G2_IsInfinity :: "'g2 \<Rightarrow> bool"
  G2_InCorrectSubgroup :: "'g2 \<Rightarrow> bool"
  G2_New :: 'g2
  G2_Add :: "'g2 \<Rightarrow> 'g2 \<Rightarrow> 'g2"
  G2_ScalarMult :: "'g2 \<Rightarrow> int \<Rightarrow> 'g2"
  PairingCheck :: "'g1 list \<Rightarrow> 'g2 list \<Rightarrow> bool"
  Sha256 :: "byte list \<Rightarrow> byte list"

datatype blsError =
    Bn256Error
  | InfinityPoint
  | IncorrectSubgroup
  | EmptySignature
  | InvalidDomainLength
  | BadFtMapping
  | NilPointer

subsection \<open>Big integers\<close>

text \<open>\<^verbatim>\<open>big.Int\<close>: the bytes of the absolute value, powers, inverses and square roots modulo a number. \<open>Jacobi\<close>
  is the algorithm of the library, for an odd positive second argument.\<close>

definition big_Bytes :: "int \<Rightarrow> byte list" where
  "big_Bytes i = be_bytes (floorlog 256 (nat \<bar>i\<bar>)) \<bar>i\<bar>"

fun big_Exp :: "int \<Rightarrow> nat \<Rightarrow> int \<Rightarrow> int" where
  "big_Exp x y m =
    (if y = 0 then 1 mod m
     else if odd y then x * big_Exp (x * x mod m) (y div 2) m mod m
     else big_Exp (x * x mod m) (y div 2) m)"

fun bezout_loop :: "nat \<Rightarrow> nat \<Rightarrow> int \<Rightarrow> int \<Rightarrow> nat \<times> int" where
  "bezout_loop r0 r1 s0 s1 =
    (if r1 = 0 then (r0, s0) else bezout_loop r1 (r0 mod r1) s1 (s0 - int (r0 div r1) * s1))"

definition big_ModInverse :: "int \<Rightarrow> int \<Rightarrow> int option" where
  "big_ModInverse g n =
    (let (d, x) = bezout_loop (nat (g mod n)) (nat n) 1 0 in if d = 1 then Some (x mod n) else None)"

fun odd_part :: "nat \<Rightarrow> nat \<times> nat" where
  "odd_part c = (if c = 0 \<or> odd c then (0, c) else (let (s, d) = odd_part (c div 2) in (Suc s, d)))"

declare big_Exp.simps [simp del] bezout_loop.simps [simp del] odd_part.simps [simp del]

lemma odd_part_le: "snd (odd_part c) \<le> c"
proof (induction c rule: odd_part.induct)
  case (1 c)
  show ?case
  proof (cases "c = 0 \<or> odd c")
    case True
    then show ?thesis by (subst odd_part.simps) simp
  next
    case False
    then have "snd (odd_part c) = snd (odd_part (c div 2))" by (subst odd_part.simps) (simp add: split_def Let_def)
    then show ?thesis using 1 [OF False] by simp
  qed
qed

function Jacobi :: "nat \<Rightarrow> nat \<Rightarrow> int" where
  "Jacobi a b =
    (if b \<le> 1 then 1
     else if a mod b = 0 then 0
     else let (s, c) = odd_part (a mod b) in
       (if odd s \<and> (take_bit 3 b = 3 \<or> take_bit 3 b = 5) then - 1 else 1)
       * (if take_bit 2 b = 3 \<and> take_bit 2 c = 3 then - 1 else 1) * Jacobi b c)"
  by pat_completeness auto
termination
proof (relation "measure snd")
  fix a b :: nat and x s c
  assume "\<not> b \<le> 1" "x = odd_part (a mod b)" "(s, c) = x"
  then have "c \<le> a mod b" using odd_part_le [of "a mod b"] by (metis snd_conv)
  also have "\<dots> < b" using \<open>\<not> b \<le> 1\<close> by simp
  finally show "((b, c), a, b) \<in> measure snd" by simp
qed simp

declare Jacobi.simps [simp del]

text \<open>The square root modulo a prime that is 3 modulo 4, as \<^verbatim>\<open>pPrime\<close> is.\<close>

definition big_ModSqrt :: "int \<Rightarrow> int \<Rightarrow> int option" where
  "big_ModSqrt x p =
    (let j = Jacobi (nat (x mod p)) (nat p) in
     if j = - 1 then None
     else if j = 0 then Some 0
     else Some (big_Exp (x mod p) (nat ((p + 1) div 4)) p))"

definition PadLeftOrTrim :: "byte list \<Rightarrow> nat \<Rightarrow> byte list" where
  "PadLeftOrTrim bb sz =
    (if length bb = sz then bb
     else if sz < length bb then drop (length bb - sz) bb
     else replicate (sz - length bb) 0 @ bb)"

subsection \<open>Messages as points\<close>

definition z0 :: int where "z0 = 0xb3c4d79d41a91759a9e4c7e359b6b89eaec68e62effffffd"
definition z1 :: int where "z1 = 0x59e26bcea0d48bacd4f263f1acdb5c4f5763473177fffffe"

definition pPrime :: int where
  "pPrime = 21888242871839275222246405745257275088696311157297823662689037894645226208583"

definition modulus :: int where
  "modulus = 0x30644e72e131a029b85045b68181585d97816a916871ca8d3c208c16d87cfd47"

fun xmd_blocks :: "(byte list \<Rightarrow> byte list) \<Rightarrow> byte list \<Rightarrow> byte list \<Rightarrow> byte list \<Rightarrow> nat \<Rightarrow> nat \<Rightarrow> byte list" where
  "xmd_blocks sha domain b0 bi i 0 = bi"
| "xmd_blocks sha domain b0 bi i (Suc n) =
    bi @ xmd_blocks sha domain b0
      (sha (map2 (XOR) b0 bi @ [1 + of_nat i] @ domain @ [of_nat (length domain)])) (Suc i) n"

definition expandMsgSHA256XMD ::
  "(byte list \<Rightarrow> byte list) \<Rightarrow> byte list \<Rightarrow> byte list \<Rightarrow> nat \<Rightarrow> blsError + byte list" where
  "expandMsgSHA256XMD sha msg domain outLen =
    (if 255 < length domain then Inl InvalidDomainLength
     else let domainLen = of_nat (length domain);
              b0 = sha (replicate 64 0 @ msg @ [of_nat (outLen div 256), of_nat outLen] @ [0] @ domain @ [domainLen]);
              b1 = sha (b0 @ [1] @ domain @ [domainLen]);
              ell = (outLen + 32 - 1) div 32
          in Inr (take outLen (xmd_blocks sha domain b0 b1 1 (ell - 1))))"

definition reduceFp :: "int \<Rightarrow> int" where
  "reduceFp num =
    (if num = modulus then num
     else if \<not> modulus < num \<and> \<not> num < 0 then num
     else num mod modulus)"

definition hashToFpXMDSHA256 ::
  "(byte list \<Rightarrow> byte list) \<Rightarrow> byte list \<Rightarrow> byte list \<Rightarrow> nat \<Rightarrow> blsError + int list" where
  "hashToFpXMDSHA256 sha msg domain count =
    (case expandMsgSHA256XMD sha msg domain (count * 48) of
       Inl e \<Rightarrow> Inl e
     | Inr randBytes \<Rightarrow>
         Inr (map (\<lambda>i. reduceFp (big_SetBytes (take 48 (drop (i * 48) randBytes)))) [0..<count]))"

definition mulmod :: "int \<Rightarrow> int \<Rightarrow> int \<Rightarrow> int" where
  "mulmod x y N = x * y mod N"

definition addmod :: "int \<Rightarrow> int \<Rightarrow> int \<Rightarrow> int" where
  "addmod x y N = (x + y) mod N"

definition inversemod :: "int \<Rightarrow> int \<Rightarrow> int option" where
  "inversemod x N = big_ModInverse x N"

text \<open>The root when \<^verbatim>\<open>hasRoot\<close> holds.\<close>

definition sqrtp :: "int \<Rightarrow> int option" where
  "sqrtp xx =
    (case big_ModSqrt xx pPrime of
       None \<Rightarrow> None
     | Some x \<Rightarrow> if mulmod x x pPrime = xx then Some x else None)"

definition curve_rhs :: "int \<Rightarrow> int" where
  "curve_rhs x = addmod (mulmod (mulmod x x pPrime) x pPrime) 3 pPrime"

definition mapToPoint :: "int \<Rightarrow> blsError + int \<times> int" where
  "mapToPoint x0 =
    (let decision = (sqrtp x0 \<noteq> None);
         sign = (\<lambda>a. if \<not> decision then pPrime - a else a);
         a0 = addmod (mulmod x0 x0 pPrime) 4 pPrime;
         a1 = mulmod x0 z0 pPrime
     in case inversemod (mulmod a1 a0 pPrime) pPrime of
          None \<Rightarrow> Inl NilPointer
        | Some a2 \<Rightarrow>
            let a1 = mulmod (mulmod a1 a1 pPrime) a2 pPrime;
                a1 = mulmod x0 a1 pPrime;
                x1 = addmod z1 (pPrime - a1) pPrime
            in case sqrtp (curve_rhs x1) of
                 Some a \<Rightarrow> Inr (x1, sign a)
               | None \<Rightarrow>
                   let x2 = pPrime - addmod x1 1 pPrime
                   in case sqrtp (curve_rhs x2) of
                        Some a \<Rightarrow> Inr (x2, sign a)
                      | None \<Rightarrow>
                          let x3 = mulmod a0 a0 pPrime;
                              x3 = mulmod x3 x3 pPrime;
                              x3 = mulmod x3 a2 pPrime;
                              x3 = mulmod x3 a2 pPrime;
                              x3 = addmod x3 1 pPrime
                          in case sqrtp (curve_rhs x3) of
                               None \<Rightarrow> Inl BadFtMapping
                             | Some a \<Rightarrow> Inr (x3, sign a))"

definition mapToG1Point :: "('g1, 'g2) Bn256 \<Rightarrow> int \<Rightarrow> blsError + 'g1" where
  "mapToG1Point N b =
    (case mapToPoint b of
       Inl e \<Rightarrow> Inl e
     | Inr (xx, yy) \<Rightarrow>
         (case G1_Unmarshal N (PadLeftOrTrim (big_Bytes xx) 32 @ PadLeftOrTrim (big_Bytes yy) 32) of
            None \<Rightarrow> Inl Bn256Error
          | Some g1 \<Rightarrow> Inr g1))"

definition hashToPoint :: "('g1, 'g2) Bn256 \<Rightarrow> byte list \<Rightarrow> byte list \<Rightarrow> blsError + 'g1" where
  "hashToPoint N msg domain =
    (case hashToFpXMDSHA256 (Sha256 N) msg domain 2 of
       Inl e \<Rightarrow> Inl e
     | Inr res \<Rightarrow>
         (case mapToG1Point N (res ! 0) of
            Inl e \<Rightarrow> Inl e
          | Inr g1 \<Rightarrow>
              (case mapToG1Point N (res ! 1) of
                 Inl e \<Rightarrow> Inl e
               | Inr g2 \<Rightarrow> Inr (G1_Add N g1 g2))))"

subsection \<open>Keys and signatures\<close>

text \<open>The two constant points are read from their bytes when the program starts, which ends if this
  fails.\<close>

definition negG2Point :: "('g1, 'g2) Bn256 \<Rightarrow> 'g2" where
  "negG2Point N = the (G2_Unmarshal N (be_bytes 128
    0x198e9393920d483a7260bfb731fb5d25f1aa493335a9e71297e485b7aef312c21800deef121f1e76426a00665e5c4479674322d4f75edadd46debd5cd992f6ed275dc4a288d1afb3cbb1ac09187524c7db36395df7be3b99e673b13a075a65ec1d9befcd05a5323e6da4d435f3b617cdb3af83285c2df711ef39c01571827f9d))"

definition g2Point :: "('g1, 'g2) Bn256 \<Rightarrow> 'g2" where
  "g2Point N = the (G2_Unmarshal N (be_bytes 128
    0x198e9393920d483a7260bfb731fb5d25f1aa493335a9e71297e485b7aef312c21800deef121f1e76426a00665e5c4479674322d4f75edadd46debd5cd992f6ed090689d0585ff075ec9e99ad690c3395bc4b313370b38ef355acdadcd122975b12c85ea5db8c6deb4aab71808dcb408fe3d1e7690c43d37b4ce6cc0166fa7daa))"

definition UnmarshalPublicKey :: "('g1, 'g2) Bn256 \<Rightarrow> byte list \<Rightarrow> blsError + 'g2" where
  "UnmarshalPublicKey N data =
    (case G2_Unmarshal N data of
       None \<Rightarrow> Inl Bn256Error
     | Some g2 \<Rightarrow>
         if G2_IsInfinity N g2 then Inl InfinityPoint
         else if \<not> G2_InCorrectSubgroup N g2 then Inl IncorrectSubgroup
         else Inr g2)"

definition PublicKey_ToBigInt :: "('g1, 'g2) Bn256 \<Rightarrow> 'g2 \<Rightarrow> int list" where
  "PublicKey_ToBigInt N p =
    (let blsKey = G2_Marshal N p;
         part = (\<lambda>i. big_SetBytes (take 32 (drop (32 * i) blsKey)))
     in [part 1, part 0, part 3, part 2])"

definition UnmarshalPublicKeyFromBigInt :: "('g1, 'g2) Bn256 \<Rightarrow> int list \<Rightarrow> blsError + 'g2" where
  "UnmarshalPublicKeyFromBigInt N b =
    (let pt1 = PadLeftOrTrim (big_Bytes (b ! 1)) 32;
         pt2 = PadLeftOrTrim (big_Bytes (b ! 0)) 32;
         pt3 = PadLeftOrTrim (big_Bytes (b ! 3)) 32;
         pt4 = PadLeftOrTrim (big_Bytes (b ! 2)) 32
     in UnmarshalPublicKey N (pt1 @ pt2 @ pt3 @ pt4))"

definition PublicKeys_Aggregate :: "('g1, 'g2) Bn256 \<Rightarrow> 'g2 list \<Rightarrow> 'g2" where
  "PublicKeys_Aggregate N pks = foldl (G2_Add N) (G2_New N) pks"

definition Signature_VerifyBls :: "('g1, 'g2) Bn256 \<Rightarrow> 'g1 \<Rightarrow> 'g2 \<Rightarrow> byte list \<Rightarrow> byte list \<Rightarrow> blsError + bool" where
  "Signature_VerifyBls N s pub message domain =
    (case hashToPoint N message domain of
       Inl NilPointer \<Rightarrow> Inl NilPointer
     | Inl _ \<Rightarrow> Inr False
     | Inr point \<Rightarrow> Inr (PairingCheck N [s, point] [negG2Point N, pub]))"

definition VerifyAggregated ::
  "('g1, 'g2) Bn256 \<Rightarrow> 'g1 \<Rightarrow> 'g2 list \<Rightarrow> byte list \<Rightarrow> byte list \<Rightarrow> blsError + bool" where
  "VerifyAggregated N s publicKeys msg domain =
    Signature_VerifyBls N s (PublicKeys_Aggregate N publicKeys) msg domain"

definition UnmarshalSignature :: "('g1, 'g2) Bn256 \<Rightarrow> byte list \<Rightarrow> blsError + 'g1" where
  "UnmarshalSignature N raw =
    (if length raw = 0 then Inl EmptySignature
     else case G1_Unmarshal N raw of
       None \<Rightarrow> Inl Bn256Error
     | Some g1 \<Rightarrow>
         if G1_IsInfinity N g1 then Inl InfinityPoint
         else if \<not> G1_InCorrectSubgroup N g1 then Inl IncorrectSubgroup
         else Inr g1)"

definition Signatures_Aggregate :: "('g1, 'g2) Bn256 \<Rightarrow> 'g1 list \<Rightarrow> 'g1" where
  "Signatures_Aggregate N sigs = foldl (G1_Add N) (G1_New N) sigs"

definition PrivateKey_PublicKey :: "('g1, 'g2) Bn256 \<Rightarrow> int \<Rightarrow> 'g2" where
  "PrivateKey_PublicKey N s = G2_ScalarMult N (g2Point N) s"

definition PrivateKey_Sign :: "('g1, 'g2) Bn256 \<Rightarrow> int \<Rightarrow> byte list \<Rightarrow> byte list \<Rightarrow> blsError + 'g1" where
  "PrivateKey_Sign N s message domain =
    (case hashToPoint N message domain of
       Inl e \<Rightarrow> Inl e
     | Inr point \<Rightarrow> Inr (G1_ScalarMult N point s))"

end
