(* ===== verification/Merkle.thy ===== *)
theory Merkle
  imports Rlp
begin

text \<open>
  The Merkle trees of \<^verbatim>\<open>merkle-tree/merkle_tree.go\<close>, their proofs of membership, and what a proof shows.

  The nodes of a tree are kept level by level, leaves first: the parent of node \<open>j\<close> of a level is node \<open>j div 2\<close> of
  the next one, its left child is node \<open>2 (j div 2)\<close> and its right child the one after, or the left child again
  where that is the last of an odd number. \<open>K\<close> is the hash function.
\<close>

datatype merkleError =
    NoLeaves
  | LeafNotFound
  | NilParent
  | EmptyLeaf
  | InvalidLeafIndex
  | NotAMember

record MerkleTree =
  mt_leaves :: "byte list list"
  mt_levels :: "hash list list"

definition innerHash :: "(byte list \<Rightarrow> hash) \<Rightarrow> hash \<Rightarrow> hash \<Rightarrow> hash" where
  "innerHash K left right = K (hashBytes left @ hashBytes right)"

fun newLevel :: "(byte list \<Rightarrow> hash) \<Rightarrow> hash list \<Rightarrow> hash list" where
  "newLevel K (left # right # nodes) = innerHash K left right # newLevel K nodes"
| "newLevel K [left] = [innerHash K left left]"
| "newLevel K [] = []"

lemma length_newLevel [simp]: "length (newLevel K nodes) = (length nodes + 1) div 2"
  by (induction K nodes rule: newLevel.induct) auto

function levels :: "(byte list \<Rightarrow> hash) \<Rightarrow> hash list \<Rightarrow> hash list list" where
  "levels K nodes = (if 1 < length nodes then nodes # levels K (newLevel K nodes) else [nodes])"
  by auto
termination by (relation "measure (\<lambda>(K, nodes). length nodes)") auto

declare levels.simps [simp del]

definition NewMerkleTree :: "(byte list \<Rightarrow> hash) \<Rightarrow> byte list list \<Rightarrow> merkleError + MerkleTree" where
  "NewMerkleTree K data =
    (if data = [] then Inl NoLeaves else Inr \<lparr>mt_leaves = data, mt_levels = levels K (map K data)\<rparr>)"

definition MerkleTree_Hash :: "MerkleTree \<Rightarrow> hash" where
  "MerkleTree_Hash t = hd (last (mt_levels t))"

fun findLeaf :: "byte list list \<Rightarrow> byte list \<Rightarrow> nat option" where
  "findLeaf [] leaf = None"
| "findLeaf (d # data) leaf = (if d = leaf then Some 0 else map_option Suc (findLeaf data leaf))"

definition LeafIndex :: "MerkleTree \<Rightarrow> byte list \<Rightarrow> merkleError + uint64" where
  "LeafIndex t leaf = (case findLeaf (mt_leaves t) leaf of None \<Rightarrow> Inl LeafNotFound | Some i \<Rightarrow> Inr (of_nat i))"

text \<open>The walk to the root from node \<open>j\<close> of the first level. Only the root has no parent.\<close>

fun proofFrom :: "hash \<Rightarrow> hash list list \<Rightarrow> nat \<Rightarrow> merkleError + hash list" where
  "proofFrom rootHash [] j = Inl NilParent"
| "proofFrom rootHash (nodes # rest) j =
    (if nodes ! j = rootHash then Inr []
     else if rest = [] then Inl NilParent
     else
       let left = nodes ! (2 * (j div 2)); right = nodes ! min (2 * (j div 2) + 1) (length nodes - 1)
       in case proofFrom rootHash rest (j div 2) of
            Inl e \<Rightarrow> Inl e
          | Inr proof \<Rightarrow> Inr ((if left = nodes ! j then right else left) # proof))"

definition GenerateProof :: "MerkleTree \<Rightarrow> byte list \<Rightarrow> merkleError + hash list" where
  "GenerateProof t leaf =
    (case findLeaf (mt_leaves t) leaf of
       None \<Rightarrow> Inl LeafNotFound
     | Some j \<Rightarrow> proofFrom (MerkleTree_Hash t) (mt_levels t) j)"

fun proofHash :: "(byte list \<Rightarrow> hash) \<Rightarrow> uint64 \<Rightarrow> hash \<Rightarrow> hash list \<Rightarrow> hash" where
  "proofHash K index computedHash [] = computedHash"
| "proofHash K index computedHash (p # ps) =
    proofHash K (index div 2) (if index mod 2 = 0 then innerHash K computedHash p else innerHash K p computedHash) ps"

definition getProofHash :: "(byte list \<Rightarrow> hash) \<Rightarrow> uint64 \<Rightarrow> byte list \<Rightarrow> hash list \<Rightarrow> hash" where
  "getProofHash K index leaf proof = proofHash K index (K leaf) proof"

text \<open>The check of the index converts it, and a power of two of type \<^verbatim>\<open>float64\<close>, to signed integers. What the second
  conversion gives for \<open>2^63\<close> and above is left to the implementation, \<open>big\<close>.\<close>

definition VerifyProof ::
  "(nat \<Rightarrow> int) \<Rightarrow> (byte list \<Rightarrow> hash) \<Rightarrow> uint64 \<Rightarrow> byte list \<Rightarrow> hash list \<Rightarrow> hash \<Rightarrow> merkleError + unit" where
  "VerifyProof big K index leaf proof rootHash =
    (if leaf = [] then Inl EmptyLeaf
     else if (if length proof < 63 then 2 ^ length proof else big (length proof)) \<le> sint index then Inl InvalidLeafIndex
     else if rootHash \<noteq> getProofHash K index leaf proof then Inl NotAMember
     else Inr ())"

subsection \<open>Levels\<close>

lemma newLevel_nth:
  assumes "j < length nodes"
  shows "newLevel K nodes ! (j div 2) = innerHash K (nodes ! (2 * (j div 2))) (nodes ! min (2 * (j div 2) + 1) (length nodes - 1))"
  using assms
proof (induction K nodes arbitrary: j rule: newLevel.induct)
  case (1 K left right nodes)
  show ?case
  proof (cases "j < 2")
    case True
    then have "j div 2 = 0" by simp
    then show ?thesis by simp
  next
    case False
    then obtain i where j: "j = i + 2" using le_Suc_ex [of 2 j] by (auto simp: add.commute)
    then show ?thesis using "1.IH" [of i] "1.prems" by (auto simp: min_def nth_Cons' split: if_splits)
  qed
qed auto

lemma levels_nonempty [simp]: "levels K nodes \<noteq> []"
  by (subst levels.simps) simp

lemma levels_last: "nodes \<noteq> [] \<Longrightarrow> length (last (levels K nodes)) = 1"
proof (induction K nodes rule: levels.induct)
  case (1 K nodes)
  show ?case
  proof (cases "1 < length nodes")
    case True
    then have "0 < length (newLevel K nodes)" by simp
    then have "newLevel K nodes \<noteq> []" by (metis length_greater_0_conv)
    then show ?thesis using "1.IH" True by (subst levels.simps) simp
  next
    case False
    then obtain x where "nodes = [x]" using "1.prems" by (cases nodes) auto
    then show ?thesis by (simp add: levels.simps [of K "[x]"])
  qed
qed

lemma index_parity: "idx mod 2 = 0 \<longleftrightarrow> even (unat idx)" for idx :: uint64
proof -
  have "unat (idx mod 2) = unat idx mod 2" by (simp add: unat_mod)
  then show ?thesis by (metis even_iff_mod_2_eq_zero unat_eq_zero)
qed

lemma hashes_eq [simp]: "hashBytes a @ hashBytes b = hashBytes c @ hashBytes d \<longleftrightarrow> a = c \<and> b = d"
proof
  assume "hashBytes a @ hashBytes b = hashBytes c @ hashBytes d"
  then have "hashBytes a = hashBytes c" "hashBytes b = hashBytes d" by simp_all
  then show "a = c \<and> b = d" using read_hash by metis
qed simp

lemma level_size: "length nodes \<le> 2 ^ (length (levels K nodes) - 1)"
proof (induction K nodes rule: levels.induct)
  case (1 K nodes)
  show ?case
  proof (cases "1 < length nodes")
    case True
    obtain n where n: "length (levels K (newLevel K nodes)) = Suc n" using levels_nonempty [of K "newLevel K nodes"] by (cases "levels K (newLevel K nodes)") auto
    then have "(length nodes + 1) div 2 \<le> 2 ^ n" using "1.IH" [OF True] by simp
    then show ?thesis using True n by (subst levels.simps) simp
  qed (simp add: levels.simps [of K nodes])
qed

lemma levels_length: "length nodes \<le> 2 ^ n \<Longrightarrow> length (levels K nodes) \<le> Suc n"
proof (induction K nodes arbitrary: n rule: levels.induct)
  case (1 K nodes)
  show ?case
  proof (cases "1 < length nodes")
    case True
    then obtain m where m: "n = Suc m" using "1.prems" by (cases n) auto
    then show ?thesis using "1.IH" [OF True, of m] "1.prems" True by (subst levels.simps) simp
  qed (simp add: levels.simps [of K nodes])
qed

text \<open>The two nodes above which the hash of node \<open>j\<close> goes into.\<close>

lemma parent_hash:
  assumes "j < length nodes"
  shows "newLevel K nodes ! (j div 2) =
    (if even j then innerHash K (nodes ! j) (nodes ! min (j + 1) (length nodes - 1)) else innerHash K (nodes ! (j - 1)) (nodes ! j))"
proof (cases "even j")
  case True
  then show ?thesis using newLevel_nth [OF assms, of K] by simp
next
  case False
  then have "2 * (j div 2) = j - 1" "2 * (j div 2) + 1 = j" by presburger+
  moreover have "min j (length nodes - 1) = j" using assms by simp
  ultimately show ?thesis using newLevel_nth [OF assms, of K] False by simp
qed

subsection \<open>Completeness\<close>

lemma proofFrom_ok:
  assumes "j < length nodes" "unat idx = j" "rootHash = hd (last (levels K nodes))"
    and "\<forall>lvl \<in> set (butlast (levels K nodes)). rootHash \<notin> set lvl"
  shows "\<exists>proof. proofFrom rootHash (levels K nodes) j = Inr proof \<and> length proof = length (levels K nodes) - 1
    \<and> proofHash K idx (nodes ! j) proof = rootHash"
  using assms
proof (induction K nodes arbitrary: j idx rule: levels.induct)
  case (1 K nodes)
  show ?case
  proof (cases "1 < length nodes")
    case True
    note lv = levels.simps [of K nodes]
    have up: "j div 2 < length (newLevel K nodes)" "unat (idx div 2) = j div 2"
      using "1.prems"(1,2) by (auto simp: unat_div)
    obtain pf where ih: "proofFrom rootHash (levels K (newLevel K nodes)) (j div 2) = Inr pf"
        "length pf = length (levels K (newLevel K nodes)) - 1"
        "proofHash K (idx div 2) (newLevel K nodes ! (j div 2)) pf = rootHash"
      using "1.IH" [OF True up] "1.prems"(3,4) lv True by auto
    have node: "nodes ! j \<noteq> rootHash" using "1.prems"(1,4) lv True by (auto dest: nth_mem)
    have par: "idx mod 2 = 0 \<longleftrightarrow> even j" using "1.prems"(2) by (simp add: index_parity)
    define left where "left = nodes ! (2 * (j div 2))"
    define right where "right = nodes ! min (2 * (j div 2) + 1) (length nodes - 1)"
    have step: "proofFrom rootHash (levels K nodes) j = Inr ((if left = nodes ! j then right else left) # pf)"
      using lv True node ih(1) by (simp add: left_def right_def Let_def)
    have sib: "newLevel K nodes ! (j div 2) =
        (if idx mod 2 = 0 then innerHash K (nodes ! j) (if left = nodes ! j then right else left)
         else innerHash K (if left = nodes ! j then right else left) (nodes ! j))"
    proof (cases "even j")
      case True
      then show ?thesis using parent_hash [OF "1.prems"(1), of K] par by (simp add: left_def right_def)
    next
      case False
      then have "2 * (j div 2) = j - 1" "Suc (j - 1) = j" by presburger+
      then show ?thesis using parent_hash [OF "1.prems"(1), of K] par False "1.prems"(1) by (auto simp: left_def right_def min_def)
    qed
    then show ?thesis using step ih(2,3) lv True by (auto simp: Suc_diff_le)
  next
    case False
    then obtain x where "nodes = [x]" using "1.prems"(1) by (cases nodes) auto
    then show ?thesis using "1.prems"(1,3) by (simp add: levels.simps [of K "[x]"])
  qed
qed

lemma findLeaf_Some: "findLeaf data leaf = Some i \<Longrightarrow> i < length data \<and> data ! i = leaf"
  by (induction data arbitrary: i) (auto split: if_splits)

lemma findLeaf_mem: "leaf \<in> set data \<Longrightarrow> \<exists>i. findLeaf data leaf = Some i"
  by (induction data) auto

lemma findLeaf_nth: "distinct data \<Longrightarrow> i < length data \<Longrightarrow> findLeaf data (data ! i) = Some i"
proof (induction data arbitrary: i)
  case (Cons d data)
  then show ?case by (cases i) (auto dest: nth_mem)
qed simp

lemma leaf_proof:
  assumes "NewMerkleTree K data = Inr t" "findLeaf data leaf = Some j" "leaf \<noteq> []" "length data \<le> 2 ^ 62"
    and "\<forall>lvl \<in> set (butlast (mt_levels t)). MerkleTree_Hash t \<notin> set lvl"
  shows "\<exists>pf. GenerateProof t leaf = Inr pf \<and> length pf = length (mt_levels t) - 1
    \<and> VerifyProof big K (of_nat j) leaf pf (MerkleTree_Hash t) = Inr ()"
proof -
  have t: "t = \<lparr>mt_leaves = data, mt_levels = levels K (map K data)\<rparr>" using assms(1) by (simp add: NewMerkleTree_def split: if_splits)
  have jl: "j < length data" "data ! j = leaf" using findLeaf_Some [OF assms(2)] by blast+
  define idx :: uint64 where "idx = of_nat j"
  have idx: "unat idx = j" using jl(1) assms(4) by (simp add: idx_def unat_of_nat)
  obtain pf where pf: "proofFrom (MerkleTree_Hash t) (mt_levels t) j = Inr pf" "length pf = length (mt_levels t) - 1"
      "proofHash K idx (K leaf) pf = MerkleTree_Hash t"
    using proofFrom_ok [of j "map K data" idx "MerkleTree_Hash t" K] jl idx assms(5) t by (auto simp: MerkleTree_Hash_def)
  have "length data \<le> 2 ^ length pf" using level_size [of "map K data" K] pf(2) t by simp
  then have "int j < 2 ^ length pf" using jl(1) by (simp add: zless_nat_eq_int_zless flip: of_nat_less_iff)
  moreover have "sint idx = int j"
  proof -
    have "uint idx = int j" using idx uint_nat [of idx] by simp
    then show ?thesis using signed_take_bit_int_eq_self [of 63 "uint idx"] jl(1) assms(4) by (simp add: sint_uint)
  qed
  moreover have "length pf < 63" using pf(2) levels_length [of "map K data" 62 K] assms(4) by (simp add: t)
  ultimately have "VerifyProof big K idx leaf pf (MerkleTree_Hash t) = Inr ()"
    using assms(3) pf(3) by (simp add: VerifyProof_def getProofHash_def)
  then show ?thesis using assms(2) pf(1,2) t by (auto simp: GenerateProof_def idx_def)
qed

text \<open>C21. Every leaf can be proved: in a tree over at most \<open>2^62\<close> leaves whose root hash is the hash of no other node,
  \<^verbatim>\<open>GenerateProof\<close> of a non-empty leaf returns a proof with one hash for each level below the root, and
  \<^verbatim>\<open>VerifyProof\<close> accepts it for the index of the leaf and the root hash.\<close>

theorem merkle_complete:
  assumes "NewMerkleTree K data = Inr t" "leaf \<in> set data" "leaf \<noteq> []" "length data \<le> 2 ^ 62"
    and "\<forall>lvl \<in> set (butlast (mt_levels t)). MerkleTree_Hash t \<notin> set lvl"
  shows "\<exists>idx pf. LeafIndex t leaf = Inr idx \<and> GenerateProof t leaf = Inr pf \<and> length pf = length (mt_levels t) - 1
    \<and> VerifyProof big K idx leaf pf (MerkleTree_Hash t) = Inr ()"
proof -
  obtain j where j: "findLeaf data leaf = Some j" using findLeaf_mem assms(2) by blast
  moreover have "mt_leaves t = data" using assms(1) by (auto simp: NewMerkleTree_def split: if_splits)
  ultimately show ?thesis using leaf_proof [OF assms(1) j assms(3-5), of big] by (simp add: LeafIndex_def)
qed

subsection \<open>Soundness\<close>

text \<open>The inputs of the hash function in a tree and on a path.\<close>

definition pairInputs :: "hash list \<Rightarrow> byte list set" where
  "pairInputs nodes = (\<lambda>j. hashBytes (nodes ! (2 * (j div 2))) @ hashBytes (nodes ! min (2 * (j div 2) + 1) (length nodes - 1)))
     ` {..<length nodes}"

definition treeInputs :: "hash list list \<Rightarrow> byte list set" where
  "treeInputs lvls = (\<Union>nodes \<in> set (butlast lvls). pairInputs nodes)"

fun pathInputs :: "(byte list \<Rightarrow> hash) \<Rightarrow> uint64 \<Rightarrow> hash \<Rightarrow> hash list \<Rightarrow> byte list set" where
  "pathInputs K index h [] = {}"
| "pathInputs K index h (p # ps) =
    (let b = (if index mod 2 = 0 then hashBytes h @ hashBytes p else hashBytes p @ hashBytes h)
     in insert b (pathInputs K (index div 2) (K b) ps))"

lemma path_unique:
  assumes "unat idx < length nodes" "length pf = length (levels K nodes) - 1"
    and "proofHash K idx h pf = hd (last (levels K nodes))"
    and "inj_on K (treeInputs (levels K nodes) \<union> pathInputs K idx h pf)"
  shows "h = nodes ! unat idx"
  using assms
proof (induction K nodes arbitrary: idx h pf rule: levels.induct)
  case (1 K nodes)
  note lv = levels.simps [of K nodes]
  show ?case
  proof (cases "1 < length nodes")
    case True
    define j where "j = unat idx"
    have up: "unat (idx div 2) < length (newLevel K nodes)" "unat (idx div 2) = j div 2"
      using "1.prems"(1) by (auto simp: unat_div j_def)
    obtain p ps where pf: "pf = p # ps" using "1.prems"(2) True lv by (cases pf) (simp_all add: length_greater_0_conv [symmetric] del: length_greater_0_conv)
    define b where "b = (if idx mod 2 = 0 then hashBytes h @ hashBytes p else hashBytes p @ hashBytes h)"
    have kb: "(if idx mod 2 = 0 then innerHash K h p else innerHash K p h) = K b" by (simp add: b_def innerHash_def)
    define c where "c = hashBytes (nodes ! (2 * (j div 2))) @ hashBytes (nodes ! min (2 * (j div 2) + 1) (length nodes - 1))"
    have nl: "newLevel K nodes ! (j div 2) = K c" using newLevel_nth [of j nodes K] "1.prems"(1) by (simp add: j_def c_def innerHash_def)
    have bl: "butlast (levels K nodes) = nodes # butlast (levels K (newLevel K nodes))" using lv True by simp
    have c: "c \<in> treeInputs (levels K nodes)" using "1.prems"(1) unfolding bl treeInputs_def pairInputs_def by (auto simp: c_def j_def)
    have sub: "treeInputs (levels K (newLevel K nodes)) \<union> pathInputs K (idx div 2) (K b) ps
        \<subseteq> treeInputs (levels K nodes) \<union> pathInputs K idx h pf" "b \<in> pathInputs K idx h pf"
      using bl by (auto simp: treeInputs_def pf b_def Let_def)
    have "K b = newLevel K nodes ! unat (idx div 2)"
      using "1.IH" [OF True up(1), of ps "K b"] "1.prems"(2,3) pf lv True kb inj_on_subset [OF "1.prems"(4) sub(1)] by simp
    then have "b = c" using nl up(2) c sub(2) "1.prems"(4) by (auto dest: inj_onD)
    moreover have "even j \<Longrightarrow> 2 * (j div 2) = j" "odd j \<Longrightarrow> min (2 * (j div 2) + 1) (length nodes - 1) = j"
      using "1.prems"(1) by (auto simp: j_def)
    ultimately show ?thesis unfolding b_def c_def by (auto simp: index_parity j_def [symmetric] simp del: even_mult_iff split: if_splits)
  next
    case False
    then obtain x where "nodes = [x]" using "1.prems"(1) by (cases nodes) auto
    then show ?thesis using "1.prems"(1-3) by (simp add: levels.simps [of K "[x]"])
  qed
qed

text \<open>C20. A proof is binding: if \<^verbatim>\<open>VerifyProof\<close> accepts a leaf against the root hash of a tree with a proof of the length of
  the tree's paths and the index of a leaf, and the hash function has no collision among its inputs in the tree
  and on the path of the proof, then the leaf is the one that the tree has at that index.\<close>

theorem merkle_sound:
  assumes "NewMerkleTree K data = Inr t" "VerifyProof big K idx leaf pf (MerkleTree_Hash t) = Inr ()"
    and "length pf = length (mt_levels t) - 1" "unat idx < length data"
    and "inj_on K (insert leaf (set data) \<union> treeInputs (mt_levels t) \<union> pathInputs K idx (K leaf) pf)"
  shows "leaf = data ! unat idx"
proof -
  have t: "t = \<lparr>mt_leaves = data, mt_levels = levels K (map K data)\<rparr>" using assms(1) by (simp add: NewMerkleTree_def split: if_splits)
  have "proofHash K idx (K leaf) pf = hd (last (levels K (map K data)))"
    using assms(2) by (auto simp: VerifyProof_def getProofHash_def t MerkleTree_Hash_def split: if_splits)
  then have "K leaf = map K data ! unat idx"
    using path_unique [of idx "map K data" pf K "K leaf"] assms(3-5) by (auto simp: t intro: inj_on_subset)
  then show ?thesis using assms(4,5) by (auto dest: inj_onD)
qed

text \<open>The check of the index does not look at the highest bit: beyond \<open>2^63\<close> the conversion to a signed integer gives a
  negative number, and a proof that holds for an index holds for that index with the bit set.\<close>

lemma unat_pow2:
  assumes "k < 64"
  shows "unat (2 ^ k :: uint64) = 2 ^ k"
proof -
  have "(2::nat) ^ k < 2 ^ 64" using assms by (rule power_strict_increasing) simp
  then show ?thesis using unat_of_nat [of "2 ^ k", where 'a = 64] by simp
qed

lemma proofHash_high_bit:
  assumes "length pf \<le> m" "m < 64" "unat idx < 2 ^ m"
  shows "proofHash K (idx + 2 ^ m) h pf = proofHash K idx h pf"
  using assms
proof (induction pf arbitrary: idx h m)
  case (Cons p ps)
  obtain n where n: "m = Suc n" using Cons.prems(1) by (cases m) auto
  have "2 ^ m + unat idx < (2::nat) ^ 64"
    using Cons.prems(2,3) power_increasing [of "Suc m" 64 "2::nat"] by simp
  then have sum: "unat (idx + 2 ^ m) = unat idx + 2 ^ m" using unat_pow2 [OF Cons.prems(2)] unat_plus [of idx "2 ^ m"] by (simp add: add.commute)
  have "2 ^ n + unat idx div 2 < (2::nat) ^ 64" using \<open>2 ^ m + unat idx < (2::nat) ^ 64\<close> n by simp
  moreover have half: "unat (idx div 2) = unat idx div 2" by (simp add: unat_div)
  ultimately have "unat (idx div 2 + 2 ^ n) = unat idx div 2 + 2 ^ n"
    using unat_pow2 [of n] n Cons.prems(2) unat_plus [of "idx div 2" "2 ^ n"] unfolding half by (simp add: add.commute)
  then have "(idx + 2 ^ m) div 2 = idx div 2 + 2 ^ n" using sum n by (simp add: word_unat_eq_iff unat_div)
  moreover have "(idx + 2 ^ m) mod 2 = 0 \<longleftrightarrow> idx mod 2 = 0" using sum n by (simp add: index_parity)
  ultimately show ?case using Cons.IH [of n "idx div 2"] Cons.prems n by (simp add: unat_div)
qed simp

lemma VerifyProof_high_bit:
  assumes "VerifyProof big K idx leaf pf rootHash = Inr ()" "length pf < 63" "idx < 2 ^ 63"
  shows "VerifyProof big K (idx + 2 ^ 63) leaf pf rootHash = Inr ()"
proof -
  have idx: "unat idx < 2 ^ 63" using assms(3) by (simp add: word_less_nat_alt unat_pow2)
  have "unat (idx + 2 ^ 63) = unat idx + 2 ^ 63" using idx unat_plus [of idx "2 ^ 63"] unat_pow2 [of 63] by simp
  then have "uint (idx + 2 ^ 63) = uint idx + 2 ^ 63" unfolding int_unat [symmetric] by simp
  moreover have "take_bit 64 (uint idx + 2 ^ 63 + 2 ^ 63) = uint idx"
    using idx take_bit_int_eq_self [of "uint idx" 64] uint_bounded [of idx] by (simp add: take_bit_eq_mod)
  ultimately have "sint (idx + 2 ^ 63) = uint idx - 2 ^ 63"
    by (simp only: sint_uint signed_take_bit_eq_take_bit_shift) simp
  moreover have "(0::int) < 2 ^ length pf" by simp
  moreover have "uint idx < 2 ^ 63" using of_nat_less_iff [where 'a = int, THEN iffD2, OF idx] unfolding int_unat by simp
  ultimately have "sint (idx + 2 ^ 63) < 2 ^ length pf" by linarith
  then show ?thesis using assms(1,2) proofHash_high_bit [of pf 63 idx K "K leaf"] idx
    by (simp add: VerifyProof_def getProofHash_def split: if_splits)
qed

subsection \<open>Witnesses\<close>

definition demo_digest :: "byte list \<Rightarrow> hash" where
  "demo_digest bs = word_of_int (snd (foldl (\<lambda>(i, h) b. (i + 1, h + i * uint b)) (1, int (length bs)) bs))"

definition demo_tree :: MerkleTree where
  "demo_tree = \<lparr>mt_leaves = [[1], [2], [3]], mt_levels = levels demo_digest (map demo_digest [[1], [2], [3]])\<rparr>"

lemma demo_tree_new: "NewMerkleTree demo_digest [[1], [2], [3]] = Inr demo_tree"
  by (simp add: NewMerkleTree_def demo_tree_def)

lemma demo_digests: "demo_digest [1] = 2" "demo_digest [2] = 3" "demo_digest [3] = 4"
  "innerHash demo_digest 2 3 = 320" "innerHash demo_digest 4 4 = 448" "innerHash demo_digest 320 448 = 14494"
  unfolding innerHash_def demo_digest_def by code_simp+

lemma demo_tree_levels: "mt_levels demo_tree = [[2, 3, 4], [320, 448], [14494]]"
  by (simp add: demo_tree_def levels.simps demo_digests)

theorem merkle_complete_witness:
  "\<exists>idx pf. LeafIndex demo_tree [3] = Inr idx \<and> GenerateProof demo_tree [3] = Inr pf \<and> length pf = length (mt_levels demo_tree) - 1
     \<and> VerifyProof (\<lambda>_. 0) demo_digest idx [3] pf (MerkleTree_Hash demo_tree) = Inr ()"
  using merkle_complete [OF demo_tree_new, of "[3]" "\<lambda>_. 0"] by (simp add: MerkleTree_Hash_def demo_tree_levels)

theorem merkle_sound_witness: "[2] = [[1], [2], [3 :: byte]] ! unat (1 :: uint64)"
proof -
  have "inj_on demo_digest (insert [2] (set [[1], [2], [3]]) \<union> treeInputs (mt_levels demo_tree)
     \<union> pathInputs demo_digest 1 (demo_digest [2]) [2, 448])"
    unfolding demo_tree_levels by code_simp
  moreover have "VerifyProof (\<lambda>_. 0) demo_digest 1 [2] [2, 448] (MerkleTree_Hash demo_tree) = Inr ()"
    by (simp add: VerifyProof_def getProofHash_def MerkleTree_Hash_def demo_tree_levels demo_digests)
  ultimately show ?thesis
    using merkle_sound [OF demo_tree_new, of "\<lambda>_. 0" 1 "[2]" "[2, 448]"] by (simp add: demo_tree_levels)
qed

end
