(* ===== verification/Validators.thy ===== *)
theory Validators
  imports Address Bls Merkle
begin

unbundle bit_operations_syntax

text \<open>
  Validators and quorums of \<^verbatim>\<open>consensus/plgbft/\<close>: bitmaps (\<^verbatim>\<open>bitmap/bitmap.go\<close>), validators and sets of
  accounts (\<^verbatim>\<open>validator_metadata.go\<close>), the quorum of a validator set (\<^verbatim>\<open>validator_set.go\<close>), deltas between
  two sets and aggregated signatures (the first part of \<^verbatim>\<open>extra.go\<close>).

  Slices that may be \<^verbatim>\<open>nil\<close> are lists, \<^verbatim>\<open>nil\<close> being the empty one. Metadata is never written to once made, so
  that a deep copy of it is the value itself. Indices of slices are natural numbers; \<open>of_nat\<close> is their
  conversion to \<^verbatim>\<open>uint64\<close>.
\<close>

datatype bftError =
    FastrlpErr
  | IncorrectElementsCount nat
  | BlsErr blsError
  | InvalidBitmapFilter
  | ValidatorAlreadyPresent address
  | UpdatedValidatorNotFound address
  | BlsKeysDiffer address
  | QuorumNotReached
  | SignatureNotVerified
  | SignaturesNotPresent
  | CheckpointNotPresent
  | InvalidEpochNumber
  | EmptyCurrentValidatorsHash
  | EmptyNextValidatorsHash
  | CurrentValidatorsHashMismatch
  | NextValidatorsHashMismatch
  | EpochNumberChanged
  | InvalidDelta
  | WrongExtraSize nat
  | AbiError
  | BackendError
  | InvalidHeight uint64 uint64
  | ProposerNotFound
  | EmptyValidatorSet
  | NonPositiveTimes
  | WrongBlock uint64 uint64
  | NilDereference
  | DivisionByZero
  | BlockDecoding rlpError
  | IncorrectParentHash
  | InvalidNumber
  | TimestampOlderThanParent
  | IncorrectMixDigest
  | ZeroDifficulty
  | InvalidHeaderHash
  | StateTxWithoutInput
  | UnknownStateTransaction
  | CommitmentTxNotExpected
  | CommitmentTxSingleExpected
  | CommitEpochTxDoesNotExist
  | CommitEpochTxNotExpected
  | CommitEpochTxSingleExpected
  | InvalidCommitEpochTx
  | UnresolvedValidator address
  | IncorrectCommitSignature
  | SignerNotRecovered
  | SignerMismatch
  | SignerNotIncluded
  | ProposalDontMatch
  | InvalidNodeID address
  | InvalidSeal
  | UnknownParent
  | NoBlock
  | UnknownBlock uint64
  | MerkleErr merkleError
  | NotEnoughStateSyncs
  | NoCommitmentForStateSync
  | NoEpochBucket uint64
  | NoStateSync
  | InvalidStateSyncID

definition need :: "'a option \<Rightarrow> bftError \<Rightarrow> ('a \<Rightarrow> bftError + 'b) \<Rightarrow> bftError + 'b" where
  "need x e f = (case x of None \<Rightarrow> Inl e | Some y \<Rightarrow> f y)"

lemma need_simps [simp]: "need (Some y) e f = f y" "need None e f = Inl e"
  by (simp_all add: need_def)

subsection \<open>Bitmaps\<close>

type_synonym Bitmap = "byte list"

definition extendByteSlice :: "byte list \<Rightarrow> nat \<Rightarrow> byte list" where
  "extendByteSlice b needLen = (if length b < needLen then b @ replicate (needLen - length b) 0 else b)"

definition Bitmap_Set :: "uint64 \<Rightarrow> Bitmap \<Rightarrow> Bitmap" where
  "Bitmap_Set idx b =
    (let b = extendByteSlice b (unat (idx div 8) + 1);
         bit = push_bit (unat (idx mod 8)) 1
     in b[unat (idx div 8) := b ! unat (idx div 8) OR bit])"

definition Bitmap_Len :: "Bitmap \<Rightarrow> uint64" where
  "Bitmap_Len b = of_nat (length b * 8)"

definition Bitmap_IsSet :: "Bitmap \<Rightarrow> uint64 \<Rightarrow> bool" where
  "Bitmap_IsSet b idx =
    (if Bitmap_Len b \<le> idx then False
     else let bit = push_bit (unat (idx mod 8)) 1 in b ! unat (idx div 8) AND bit = bit)"

subsection \<open>Validators and sets of accounts\<close>

record 'k ValidatorMetadata =
  vm_Address :: address
  vm_BlsKey :: 'k
  vm_VotingPower :: int
  vm_IsActive :: bool

definition EqualAddressAndBlsKey :: "'k ValidatorMetadata \<Rightarrow> 'k ValidatorMetadata \<Rightarrow> bool" where
  "EqualAddressAndBlsKey v b \<longleftrightarrow> vm_Address v = vm_Address b \<and> vm_BlsKey v = vm_BlsKey b"

definition ValidatorMetadata_Equals :: "'k ValidatorMetadata \<Rightarrow> 'k ValidatorMetadata \<Rightarrow> bool" where
  "ValidatorMetadata_Equals v b \<longleftrightarrow>
    EqualAddressAndBlsKey v b \<and> vm_VotingPower v = vm_VotingPower b \<and> vm_IsActive v = vm_IsActive b"

definition ValidatorMetadata_MarshalRLPWith ::
  "('a, 'v) Codec \<Rightarrow> ('g1, 'k) Bn256 \<Rightarrow> 'k ValidatorMetadata \<Rightarrow> 'a" where
  "ValidatorMetadata_MarshalRLPWith R N v = NewArray R
    [NewBytes R (addrBytes (vm_Address v)),
     NewBytes R (G2_Marshal N (vm_BlsKey v)),
     NewBigInt R (vm_VotingPower v),
     NewBool R (vm_IsActive v)]"

definition ValidatorMetadata_UnmarshalRLPWith ::
  "('a, 'v) Codec \<Rightarrow> ('g1, 'k) Bn256 \<Rightarrow> 'v \<Rightarrow> bftError + 'k ValidatorMetadata" where
  "ValidatorMetadata_UnmarshalRLPWith R N val =
    need (GetElems R val) FastrlpErr (\<lambda>elems.
    if length elems \<noteq> 4 then Inl (IncorrectElementsCount (length elems))
    else
      need (GetBytes R (elems ! 0)) FastrlpErr (\<lambda>addressRaw.
      need (GetBytes R (elems ! 1)) FastrlpErr (\<lambda>blsKeyRaw.
      case UnmarshalPublicKey N blsKeyRaw of
        Inl e \<Rightarrow> Inl (BlsErr e)
      | Inr blsKey \<Rightarrow>
          need (GetBigInt R (elems ! 2)) FastrlpErr (\<lambda>votingPower.
          need (GetBool R (elems ! 3)) FastrlpErr (\<lambda>isActive.
          Inr \<lparr>vm_Address = word_of_int (big_SetBytes addressRaw), vm_BlsKey = blsKey,
               vm_VotingPower = votingPower, vm_IsActive = isActive\<rparr>)))))"

type_synonym 'k AccountSet = "'k ValidatorMetadata list"

definition AccountSet_Equals :: "'k AccountSet \<Rightarrow> 'k AccountSet \<Rightarrow> bool" where
  "AccountSet_Equals as other \<longleftrightarrow> length as = length other \<and> list_all2 ValidatorMetadata_Equals as other"

definition GetAddresses :: "'k AccountSet \<Rightarrow> address list" where
  "GetAddresses as = map vm_Address as"

definition GetAddressesAsSet :: "'k AccountSet \<Rightarrow> address set" where
  "GetAddressesAsSet as = set (map vm_Address as)"

definition GetBlsKeys :: "'k AccountSet \<Rightarrow> 'k list" where
  "GetBlsKeys as = map vm_BlsKey as"

definition ContainsNodeID :: "(byte list \<Rightarrow> hash) \<Rightarrow> 'k AccountSet \<Rightarrow> string \<Rightarrow> bool" where
  "ContainsNodeID keccak as nodeID \<longleftrightarrow> (\<exists>v \<in> set as. checksumEncode keccak (vm_Address v) = nodeID)"

fun AccountSet_Index :: "'k AccountSet \<Rightarrow> address \<Rightarrow> nat option" where
  "AccountSet_Index [] addr = None"
| "AccountSet_Index (v # as) addr =
    (if vm_Address v = addr then Some 0 else map_option Suc (AccountSet_Index as addr))"

definition ContainsAddress :: "'k AccountSet \<Rightarrow> address \<Rightarrow> bool" where
  "ContainsAddress as addr \<longleftrightarrow> AccountSet_Index as addr \<noteq> None"

definition GetValidatorMetadata :: "'k AccountSet \<Rightarrow> address \<Rightarrow> 'k ValidatorMetadata option" where
  "GetValidatorMetadata as addr = map_option (\<lambda>i. as ! i) (AccountSet_Index as addr)"

definition GetFilteredValidators :: "'k AccountSet \<Rightarrow> Bitmap \<Rightarrow> bftError + 'k AccountSet" where
  "GetFilteredValidators as bm =
    (if length as = 0 then Inr []
     else if of_nat (length as) < Bitmap_Len bm
             \<and> (\<exists>i \<in> set [length as..<unat (Bitmap_Len bm)]. Bitmap_IsSet bm (of_nat i))
     then Inl InvalidBitmapFilter
     else Inr (map fst (filter (\<lambda>(v, i). Bitmap_IsSet bm (of_nat i)) (zip as [0..<length as]))))"

definition GetTotalVotingPower :: "'k AccountSet \<Rightarrow> int" where
  "GetTotalVotingPower as = foldl (\<lambda>t v. t + vm_VotingPower v) 0 as"

subsection \<open>Quorum\<close>

text \<open>\<^verbatim>\<open>BigIntDivCeil\<close> panics when \<open>b\<close> is zero.\<close>

definition BigIntDivCeil :: "int \<Rightarrow> int \<Rightarrow> bftError + int" where
  "BigIntDivCeil a b = (if b = 0 then Inl DivisionByZero else Inr (big_Div (a + b - 1) b))"

definition getQuorumSize :: "int \<Rightarrow> bftError + int" where
  "getQuorumSize totalVotingPower = BigIntDivCeil (totalVotingPower * 2) 3"

record 'k validatorSet =
  vs_validators :: "'k AccountSet"
  vs_votingPowerMap :: "address \<rightharpoonup> int"
  vs_totalVotingPower :: int
  vs_quorumSize :: int

definition NewValidatorSet :: "'k AccountSet \<Rightarrow> bftError + 'k validatorSet" where
  "NewValidatorSet valz =
    (let totalVotingPower = GetTotalVotingPower valz in
     rbind (getQuorumSize totalVotingPower) (\<lambda>quorumSize.
     Inr \<lparr>vs_validators = valz,
          vs_votingPowerMap = foldl (\<lambda>m v. m(vm_Address v \<mapsto> vm_VotingPower v)) Map.empty valz,
          vs_totalVotingPower = totalVotingPower, vs_quorumSize = quorumSize\<rparr>))"

definition HasQuorum :: "'k validatorSet \<Rightarrow> address set \<Rightarrow> bool" where
  "HasQuorum vs signers \<longleftrightarrow>
    vs_quorumSize vs \<le> (\<Sum>a\<in>signers. case vs_votingPowerMap vs a of None \<Rightarrow> 0 | Some p \<Rightarrow> p)"

definition Includes :: "'k validatorSet \<Rightarrow> address \<Rightarrow> bool" where
  "Includes vs addr = ContainsAddress (vs_validators vs) addr"

subsection \<open>Deltas\<close>

record 'k ValidatorSetDelta =
  vd_Added :: "'k AccountSet"
  vd_Updated :: "'k AccountSet"
  vd_Removed :: Bitmap

definition emptyDelta :: "'k ValidatorSetDelta" where
  "emptyDelta = \<lparr>vd_Added = [], vd_Updated = [], vd_Removed = []\<rparr>"

definition ValidatorSetDelta_Equals :: "'k ValidatorSetDelta \<Rightarrow> 'k ValidatorSetDelta \<Rightarrow> bool" where
  "ValidatorSetDelta_Equals d other \<longleftrightarrow>
    AccountSet_Equals (vd_Added d) (vd_Added other)
    \<and> AccountSet_Equals (vd_Updated d) (vd_Updated other)
    \<and> vd_Removed d = vd_Removed other"

definition ValidatorSetDelta_IsEmpty :: "'k ValidatorSetDelta \<Rightarrow> bool" where
  "ValidatorSetDelta_IsEmpty d \<longleftrightarrow>
    length (vd_Added d) = 0 \<and> length (vd_Updated d) = 0 \<and> Bitmap_Len (vd_Removed d) = 0"

definition ValidatorSetDelta_Copy :: "'k ValidatorSetDelta \<Rightarrow> 'k ValidatorSetDelta" where
  "ValidatorSetDelta_Copy d = \<lparr>vd_Added = vd_Added d, vd_Updated = [], vd_Removed = vd_Removed d\<rparr>"

text \<open>The two loops of \<^verbatim>\<open>ApplyDelta\<close> that append the added validators and replace the updated ones.\<close>

fun appendAdded :: "'k AccountSet \<Rightarrow> 'k AccountSet \<Rightarrow> bftError + 'k AccountSet" where
  "appendAdded validators [] = Inr validators"
| "appendAdded validators (a # added) =
    (if ContainsAddress validators (vm_Address a) then Inl (ValidatorAlreadyPresent (vm_Address a))
     else appendAdded (validators @ [a]) added)"

fun replaceUpdated :: "'k AccountSet \<Rightarrow> 'k AccountSet \<Rightarrow> bftError + 'k AccountSet" where
  "replaceUpdated validators [] = Inr validators"
| "replaceUpdated validators (u # updated) =
    (case AccountSet_Index validators (vm_Address u) of
       None \<Rightarrow> Inl (UpdatedValidatorNotFound (vm_Address u))
     | Some i \<Rightarrow> replaceUpdated (validators[i := u]) updated)"

definition ApplyDelta :: "'k AccountSet \<Rightarrow> 'k ValidatorSetDelta option \<Rightarrow> bftError + 'k AccountSet" where
  "ApplyDelta as validatorsDelta =
    (case validatorsDelta of
       None \<Rightarrow> Inr as
     | Some d \<Rightarrow>
         if ValidatorSetDelta_IsEmpty d then Inr as
         else
           let validators = map fst (filter (\<lambda>(v, i).
                 \<not> Bitmap_IsSet (vd_Removed d) (of_nat i) \<or> ContainsAddress (vd_Added d) (vm_Address v))
                 (zip as [0..<length as]))
           in rbind (appendAdded validators (vd_Added d)) (\<lambda>validators.
              replaceUpdated validators (vd_Updated d)))"

text \<open>\<^verbatim>\<open>createValidatorSetDelta\<close>: the loop over the old set fills two maps; the loop over the new one sorts its
  validators into added and updated and takes those it meets out of the removed ones. The bits of the
  remaining indices are set in the order of a map iteration; setting bits commutes.\<close>

fun deltaOld ::
  "nat \<Rightarrow> 'k AccountSet \<Rightarrow> (address \<rightharpoonup> nat) \<times> (address \<rightharpoonup> 'k ValidatorMetadata)
    \<Rightarrow> (address \<rightharpoonup> nat) \<times> (address \<rightharpoonup> 'k ValidatorMetadata)" where
  "deltaOld i [] m = m"
| "deltaOld i (v # old) (removed, oldMap) =
    deltaOld (Suc i) old
      (if vm_Address v \<noteq> 0 then (removed(vm_Address v \<mapsto> i), oldMap(vm_Address v \<mapsto> v)) else (removed, oldMap))"

fun deltaNew ::
  "(address \<rightharpoonup> 'k ValidatorMetadata) \<Rightarrow> 'k AccountSet \<Rightarrow> (address \<rightharpoonup> nat) \<times> 'k AccountSet \<times> 'k AccountSet
    \<Rightarrow> bftError + (address \<rightharpoonup> nat) \<times> 'k AccountSet \<times> 'k AccountSet" where
  "deltaNew oldMap [] s = Inr s"
| "deltaNew oldMap (n # new) (removed, added, updated) =
    (case oldMap (vm_Address n) of
       Some old \<Rightarrow>
         if \<not> EqualAddressAndBlsKey old n then Inl (BlsKeysDiffer (vm_Address n))
         else deltaNew oldMap new
           (removed(vm_Address n := None), added,
            if \<not> ValidatorMetadata_Equals old n then updated @ [n] else updated)
     | None \<Rightarrow> deltaNew oldMap new (removed, added @ [n], updated))"

definition createValidatorSetDelta :: "'k AccountSet \<Rightarrow> 'k AccountSet \<Rightarrow> bftError + 'k ValidatorSetDelta" where
  "createValidatorSetDelta oldValidatorSet newValidatorSet =
    (let (removed, oldMap) = deltaOld 0 oldValidatorSet (Map.empty, Map.empty) in
     rbind (deltaNew oldMap newValidatorSet (removed, [], [])) (\<lambda>(removed, added, updated).
     let is = filter (\<lambda>i. removed (vm_Address (oldValidatorSet ! i)) = Some i) [0..<length oldValidatorSet]
     in Inr \<lparr>vd_Added = added, vd_Updated = updated,
             vd_Removed = fold (\<lambda>i. Bitmap_Set (of_nat i)) is []\<rparr>))"

subsection \<open>Aggregated signatures\<close>

record Signature =
  sg_AggregatedSignature :: "byte list"
  sg_Bitmap :: Bitmap

definition Signature_Verify ::
  "('g1, 'k) Bn256 \<Rightarrow> Signature \<Rightarrow> 'k AccountSet \<Rightarrow> hash \<Rightarrow> byte list \<Rightarrow> bftError + unit" where
  "Signature_Verify N s validators hash domain =
    rbind (GetFilteredValidators validators (sg_Bitmap s)) (\<lambda>signers.
    rbind (NewValidatorSet validators) (\<lambda>validatorSet.
    if \<not> HasQuorum validatorSet (GetAddressesAsSet signers) then Inl QuorumNotReached
    else case UnmarshalSignature N (sg_AggregatedSignature s) of
      Inl e \<Rightarrow> Inl (BlsErr e)
    | Inr aggs \<Rightarrow>
        (case VerifyAggregated N aggs (map vm_BlsKey signers) (hashBytes hash) domain of
           Inl e \<Rightarrow> Inl (BlsErr e)
         | Inr ok \<Rightarrow> if \<not> ok then Inl SignatureNotVerified else Inr ())))"

end
