(* ===== verification/Extra.thy ===== *)
theory Extra
  imports Validators RlpSpec
begin

text \<open>
  The extra field of a header (\<^verbatim>\<open>consensus/plgbft/extra.go\<close>): its RLP encoding, the checks of its
  signatures, of its delta and of its checkpoint, and the hash of a header that leaves the seals out
  (\<^verbatim>\<open>hash.go\<close>).

  \<open>BftEnv\<close> holds the code outside the repository: RLP, the curve, and the ABI encodings of a checkpoint and
  of a list of validators (\<^verbatim>\<open>ethgo/abi\<close>). The validators of a block are a function of its number, as
  \<^verbatim>\<open>GetValidators\<close> of the consensus backend. A pointer that may be \<^verbatim>\<open>nil\<close> is an option; \<open>NilDereference\<close> is the
  panic of its use when it is \<^verbatim>\<open>nil\<close>.
\<close>

record ('a, 'v, 'g1, 'k) BftEnv =
  be_R :: "('a, 'v) Codec"
  be_N :: "('g1, 'k) Bn256"
  be_AbiCheckpoint :: "int \<times> int \<times> hash \<times> int \<times> int \<times> hash \<times> hash \<times> hash \<Rightarrow> byte list option"
  be_AbiAccounts :: "(address \<times> int list \<times> int) list \<Rightarrow> byte list option"

type_synonym 'k GetValidators = "uint64 \<Rightarrow> bftError + 'k AccountSet"

definition ExtraVanity :: nat where "ExtraVanity = 32"

text \<open>\<^verbatim>\<open>StringToHash\<close> reads the hexadecimal digits.\<close>

definition PlgBFTMixDigest :: hash where
  "PlgBFTMixDigest = 0xadce6e5230abe012342a44e4e9b6d05997d6f015387ae0e59be924afc7ec70c1"

subsection \<open>Data\<close>

record CheckpointData =
  cd_BlockRound :: uint64
  cd_EpochNumber :: uint64
  cd_CurrentValidatorsHash :: hash
  cd_NextValidatorsHash :: hash
  cd_EventRoot :: hash

record 'k Extra =
  ex_Validators :: "'k ValidatorSetDelta option"
  ex_Seal :: "byte list"
  ex_Parent :: "Signature option"
  ex_Committed :: "Signature option"
  ex_Checkpoint :: "CheckpointData option"

subsection \<open>Encoding\<close>

definition Signature_MarshalRLPWith :: "('a, 'v) Codec \<Rightarrow> Signature \<Rightarrow> 'a" where
  "Signature_MarshalRLPWith R s = NewArray R
    [if sg_AggregatedSignature s = [] then NewNull R else NewBytes R (sg_AggregatedSignature s),
     if sg_Bitmap s = [] then NewNull R else NewBytes R (sg_Bitmap s)]"

definition ValidatorSetDelta_MarshalRLPWith ::
  "('a, 'v) Codec \<Rightarrow> ('g1, 'k) Bn256 \<Rightarrow> 'k ValidatorSetDelta \<Rightarrow> 'a" where
  "ValidatorSetDelta_MarshalRLPWith R N d = NewArray R
    [NewArray R (map (ValidatorMetadata_MarshalRLPWith R N) (vd_Added d)),
     NewArray R (map (ValidatorMetadata_MarshalRLPWith R N) (vd_Updated d)),
     NewBytes R (vd_Removed d)]"

definition CheckpointData_MarshalRLPWith :: "('a, 'v) Codec \<Rightarrow> CheckpointData \<Rightarrow> 'a" where
  "CheckpointData_MarshalRLPWith R c = NewArray R
    [NewUint R (cd_BlockRound c), NewUint R (cd_EpochNumber c),
     NewBytes R (hashBytes (cd_CurrentValidatorsHash c)),
     NewBytes R (hashBytes (cd_NextValidatorsHash c)),
     NewBytes R (hashBytes (cd_EventRoot c))]"

definition Extra_MarshalRLPWith :: "('a, 'v) Codec \<Rightarrow> ('g1, 'k) Bn256 \<Rightarrow> 'k Extra \<Rightarrow> 'a" where
  "Extra_MarshalRLPWith R N i = NewArray R
    [case ex_Validators i of None \<Rightarrow> NewNullArray R | Some d \<Rightarrow> ValidatorSetDelta_MarshalRLPWith R N d,
     if length (ex_Seal i) = 0 then NewNull R else NewBytes R (ex_Seal i),
     case ex_Parent i of None \<Rightarrow> NewNullArray R | Some s \<Rightarrow> Signature_MarshalRLPWith R s,
     case ex_Committed i of None \<Rightarrow> NewNullArray R | Some s \<Rightarrow> Signature_MarshalRLPWith R s,
     case ex_Checkpoint i of None \<Rightarrow> NewNullArray R | Some c \<Rightarrow> CheckpointData_MarshalRLPWith R c]"

definition Extra_MarshalRLPTo :: "('a, 'v) Codec \<Rightarrow> ('g1, 'k) Bn256 \<Rightarrow> 'k Extra \<Rightarrow> byte list" where
  "Extra_MarshalRLPTo R N i = MarshalTo R (Extra_MarshalRLPWith R N i)"

subsection \<open>Decoding\<close>

definition Signature_UnmarshalRLPWith :: "('a, 'v) Codec \<Rightarrow> 'v \<Rightarrow> bftError + Signature" where
  "Signature_UnmarshalRLPWith R v =
    need (GetElems R v) FastrlpErr (\<lambda>vals.
    if length vals \<noteq> 2 then Inl (IncorrectElementsCount (length vals))
    else
      need (GetBytes R (vals ! 0)) FastrlpErr (\<lambda>sig.
      need (GetBytes R (vals ! 1)) FastrlpErr (\<lambda>bm.
      Inr \<lparr>sg_AggregatedSignature = sig, sg_Bitmap = bm\<rparr>)))"

fun unmarshalValidators ::
  "('a, 'v) Codec \<Rightarrow> ('g1, 'k) Bn256 \<Rightarrow> 'v list \<Rightarrow> bftError + 'k AccountSet" where
  "unmarshalValidators R N [] = Inr []"
| "unmarshalValidators R N (v # vs) =
    rbind (ValidatorMetadata_UnmarshalRLPWith R N v) (\<lambda>acc.
    rbind (unmarshalValidators R N vs) (\<lambda>accs. Inr (acc # accs)))"

definition ValidatorSetDelta_UnmarshalRLPWith ::
  "('a, 'v) Codec \<Rightarrow> ('g1, 'k) Bn256 \<Rightarrow> 'v \<Rightarrow> bftError + 'k ValidatorSetDelta" where
  "ValidatorSetDelta_UnmarshalRLPWith R N v =
    need (GetElems R v) FastrlpErr (\<lambda>elems.
    if length elems = 0 then Inr emptyDelta
    else if length elems \<noteq> 3 then Inl (IncorrectElementsCount (length elems))
    else
      need (GetElems R (elems ! 0)) FastrlpErr (\<lambda>validatorsRaw.
      rbind (unmarshalValidators R N validatorsRaw) (\<lambda>added.
      need (GetElems R (elems ! 1)) FastrlpErr (\<lambda>validatorsRaw.
      rbind (unmarshalValidators R N validatorsRaw) (\<lambda>updated.
      need (GetBytes R (elems ! 2)) FastrlpErr (\<lambda>dst.
      Inr \<lparr>vd_Added = added, vd_Updated = updated, vd_Removed = dst\<rparr>))))))"

definition CheckpointData_UnmarshalRLPWith :: "('a, 'v) Codec \<Rightarrow> 'v \<Rightarrow> bftError + CheckpointData" where
  "CheckpointData_UnmarshalRLPWith R v =
    need (GetElems R v) FastrlpErr (\<lambda>vals.
    if length vals \<noteq> 5 then Inl (IncorrectElementsCount (length vals))
    else
      need (GetUint64 R (vals ! 0)) FastrlpErr (\<lambda>blockRound.
      need (GetUint64 R (vals ! 1)) FastrlpErr (\<lambda>epochNumber.
      need (GetBytes R (vals ! 2)) FastrlpErr (\<lambda>current.
      need (GetBytes R (vals ! 3)) FastrlpErr (\<lambda>nextRaw.
      need (GetBytes R (vals ! 4)) FastrlpErr (\<lambda>eventRoot.
      Inr \<lparr>cd_BlockRound = blockRound, cd_EpochNumber = epochNumber,
           cd_CurrentValidatorsHash = word_of_int (big_SetBytes current),
           cd_NextValidatorsHash = word_of_int (big_SetBytes nextRaw),
           cd_EventRoot = word_of_int (big_SetBytes eventRoot)\<rparr>))))))"

text \<open>A field that is decoded only when its value has elements.\<close>

definition unmarshalPresent :: "bool \<Rightarrow> ('v \<Rightarrow> bftError + 'o) \<Rightarrow> 'v \<Rightarrow> bftError + 'o option" where
  "unmarshalPresent present f v = (if present then rbind (f v) (\<lambda>x. Inr (Some x)) else Inr None)"

definition Extra_UnmarshalRLPWith ::
  "('a, 'v) Codec \<Rightarrow> ('g1, 'k) Bn256 \<Rightarrow> 'v \<Rightarrow> bftError + 'k Extra" where
  "Extra_UnmarshalRLPWith R N v =
    need (GetElems R v) FastrlpErr (\<lambda>elems.
    if length elems \<noteq> 5 then Inl (IncorrectElementsCount (length elems))
    else
      rbind (unmarshalPresent (0 < ElemsOf R (elems ! 0)) (ValidatorSetDelta_UnmarshalRLPWith R N) (elems ! 0))
        (\<lambda>validators.
      rbind (if 0 < LenOf R (elems ! 1) then need (GetBytes R (elems ! 1)) FastrlpErr Inr else Inr []) (\<lambda>seal.
      rbind (unmarshalPresent (0 < ElemsOf R (elems ! 2)) (Signature_UnmarshalRLPWith R) (elems ! 2)) (\<lambda>parent.
      rbind (unmarshalPresent (0 < ElemsOf R (elems ! 3)) (Signature_UnmarshalRLPWith R) (elems ! 3)) (\<lambda>committed.
      rbind (unmarshalPresent (0 < ElemsOf R (elems ! 4)) (CheckpointData_UnmarshalRLPWith R) (elems ! 4))
        (\<lambda>checkpoint.
      Inr \<lparr>ex_Validators = validators, ex_Seal = seal, ex_Parent = parent, ex_Committed = committed,
           ex_Checkpoint = checkpoint\<rparr>))))))"

definition Extra_UnmarshalRLP :: "('a, 'v) Codec \<Rightarrow> ('g1, 'k) Bn256 \<Rightarrow> byte list \<Rightarrow> bftError + 'k Extra" where
  "Extra_UnmarshalRLP R N input = need (Parse R input) FastrlpErr (Extra_UnmarshalRLPWith R N)"

definition GetIbftExtra :: "('a, 'v) Codec \<Rightarrow> ('g1, 'k) Bn256 \<Rightarrow> byte list \<Rightarrow> bftError + 'k Extra" where
  "GetIbftExtra R N extraB =
    (if length extraB < ExtraVanity then Inl (WrongExtraSize (length extraB))
     else rbind (Extra_UnmarshalRLP R N (drop ExtraVanity extraB)) (\<lambda>extra.
       Inr (if ex_Validators extra = None then extra\<lparr>ex_Validators := Some emptyDelta\<rparr> else extra)))"

definition GetIbftExtraClean :: "('a, 'v) Codec \<Rightarrow> ('g1, 'k) Bn256 \<Rightarrow> byte list \<Rightarrow> bftError + byte list" where
  "GetIbftExtraClean R N extraRaw =
    rbind (GetIbftExtra R N extraRaw) (\<lambda>extra.
    Inr (Extra_MarshalRLPTo R N
      \<lparr>ex_Validators = ex_Validators extra, ex_Seal = [], ex_Parent = ex_Parent extra,
       ex_Committed = Some \<lparr>sg_AggregatedSignature = [], sg_Bitmap = []\<rparr>,
       ex_Checkpoint = ex_Checkpoint extra\<rparr>))"

text \<open>The header hash that \<^verbatim>\<open>setupHeaderHashFunc\<close> installs.\<close>

definition plgBFTHeaderHash :: "('a, 'v) Codec \<Rightarrow> ('g1, 'k) Bn256 \<Rightarrow> Header \<Rightarrow> hash" where
  "plgBFTHeaderHash R N h =
    (case GetIbftExtraClean R N (hd_ExtraData h) of
       Inl _ \<Rightarrow> 0
     | Inr extra \<Rightarrow> defHeaderHash R (h\<lparr>hd_ExtraData := extra\<rparr>))"

subsection \<open>Checkpoints\<close>

definition CheckpointData_Hash ::
  "('a, 'v, 'g1, 'k) BftEnv \<Rightarrow> CheckpointData \<Rightarrow> uint64 \<Rightarrow> uint64 \<Rightarrow> hash \<Rightarrow> bftError + hash" where
  "CheckpointData_Hash E c chainID blockNumber blockHash =
    need (be_AbiCheckpoint E (uint chainID, uint blockNumber, blockHash, uint (cd_BlockRound c),
        uint (cd_EpochNumber c), cd_EventRoot c, cd_CurrentValidatorsHash c, cd_NextValidatorsHash c)) AbiError
      (\<lambda>abiEncoded. Inr (Keccak (be_R E) abiEncoded))"

definition CheckpointData_ValidateBasic :: "CheckpointData \<Rightarrow> CheckpointData option \<Rightarrow> bftError + unit" where
  "CheckpointData_ValidateBasic c parentCheckpoint =
    need parentCheckpoint NilDereference (\<lambda>parent.
    if cd_EpochNumber c \<noteq> cd_EpochNumber parent \<and> cd_EpochNumber c \<noteq> cd_EpochNumber parent + 1
    then Inl InvalidEpochNumber
    else if cd_CurrentValidatorsHash c = 0 then Inl EmptyCurrentValidatorsHash
    else if cd_NextValidatorsHash c = 0 then Inl EmptyNextValidatorsHash
    else Inr ())"

definition ToAPIBinding :: "('g1, 'k) Bn256 \<Rightarrow> 'k AccountSet \<Rightarrow> (address \<times> int list \<times> int) list" where
  "ToAPIBinding N as = map (\<lambda>v. (vm_Address v, PublicKey_ToBigInt N (vm_BlsKey v), vm_VotingPower v)) as"

definition AccountSet_Hash :: "('a, 'v, 'g1, 'k) BftEnv \<Rightarrow> 'k AccountSet \<Rightarrow> bftError + hash" where
  "AccountSet_Hash E as =
    need (be_AbiAccounts E (ToAPIBinding (be_N E) as)) AbiError (\<lambda>abiEncoded. Inr (Keccak (be_R E) abiEncoded))"

definition CheckpointData_Validate ::
  "('a, 'v, 'g1, 'k) BftEnv \<Rightarrow> CheckpointData \<Rightarrow> CheckpointData option \<Rightarrow> 'k AccountSet \<Rightarrow> 'k AccountSet
    \<Rightarrow> bftError + unit" where
  "CheckpointData_Validate E c parentCheckpoint currentValidators nextValidators =
    rbind (CheckpointData_ValidateBasic c parentCheckpoint) (\<lambda>_.
    rbind (AccountSet_Hash E currentValidators) (\<lambda>currentValidatorsHash.
    if currentValidatorsHash \<noteq> cd_CurrentValidatorsHash c then Inl CurrentValidatorsHashMismatch
    else rbind (AccountSet_Hash E nextValidators) (\<lambda>nextValidatorsHash.
      if nextValidatorsHash \<noteq> cd_NextValidatorsHash c then Inl NextValidatorsHashMismatch
      else need parentCheckpoint NilDereference (\<lambda>parent.
        if \<not> AccountSet_Equals currentValidators nextValidators
           \<and> cd_EpochNumber c \<noteq> cd_EpochNumber parent
        then Inl EpochNumberChanged
        else Inr ()))))"

subsection \<open>Checks of an extra field\<close>

definition ValidateDelta :: "'k Extra \<Rightarrow> 'k AccountSet \<Rightarrow> 'k AccountSet \<Rightarrow> bftError + unit" where
  "ValidateDelta i oldValidators newValidators =
    rbind (createValidatorSetDelta oldValidators newValidators) (\<lambda>delta.
    need (ex_Validators i) NilDereference (\<lambda>d.
    if \<not> ValidatorSetDelta_Equals d delta then Inl InvalidDelta else Inr ()))"

definition ValidateParentSignatures ::
  "('a, 'v, 'g1, 'k) BftEnv \<Rightarrow> 'k Extra \<Rightarrow> uint64 \<Rightarrow> 'k GetValidators \<Rightarrow> Header \<Rightarrow> 'k Extra \<Rightarrow> uint64
    \<Rightarrow> byte list \<Rightarrow> bftError + unit" where
  "ValidateParentSignatures E i blockNumber GetVals parent parentExtra chainID domain =
    (if blockNumber \<le> 1 then Inr ()
     else case ex_Parent i of
       None \<Rightarrow> Inl SignaturesNotPresent
     | Some sig \<Rightarrow>
         rbind (GetVals (blockNumber - 2)) (\<lambda>parentValidators.
         need (ex_Checkpoint parentExtra) NilDereference (\<lambda>checkpoint.
         rbind (CheckpointData_Hash E checkpoint chainID (hd_Number parent) (hd_Hash parent))
           (\<lambda>parentCheckpointHash.
         Signature_Verify (be_N E) sig parentValidators parentCheckpointHash domain))))"

definition ValidateFinalizedData ::
  "('a, 'v, 'g1, 'k) BftEnv \<Rightarrow> 'k Extra \<Rightarrow> Header \<Rightarrow> Header \<Rightarrow> 'k GetValidators \<Rightarrow> uint64 \<Rightarrow> byte list
    \<Rightarrow> bftError + unit" where
  "ValidateFinalizedData E i header parent GetVals chainID domain =
    (let blockNumber = hd_Number header in
     case ex_Committed i of
       None \<Rightarrow> Inl SignaturesNotPresent
     | Some committed \<Rightarrow>
         need (ex_Checkpoint i) CheckpointNotPresent (\<lambda>checkpoint.
         rbind (CheckpointData_Hash E checkpoint chainID (hd_Number header) (hd_Hash header)) (\<lambda>checkpointHash.
         rbind (GetVals (blockNumber - 1)) (\<lambda>validators.
         rbind (Signature_Verify (be_N E) committed validators checkpointHash domain) (\<lambda>_.
         rbind (GetIbftExtra (be_R E) (be_N E) (hd_ExtraData parent)) (\<lambda>parentExtra.
         rbind (ValidateParentSignatures E i blockNumber GetVals parent parentExtra chainID domain) (\<lambda>_.
         CheckpointData_ValidateBasic checkpoint (ex_Checkpoint parentExtra))))))))"

end
