(* ===== verification/Proposer.thy ===== *)
theory Proposer
  imports Extra
begin

text \<open>
  The choice of the proposer, \<^verbatim>\<open>consensus/plgbft/proposer_calculator.go\<close>: validators are elected in weighted
  round-robin order by priorities that grow with the voting power and shrink on election.

  A priority is a pointer to a \<^verbatim>\<open>big.Int\<close> that some operations replace and others change in place, and \<^verbatim>\<open>Copy\<close>
  copies the pointer. The model therefore has a store of integers, \<open>Cells\<close>: a validator holds a reference to
  its priority, and two snapshots can share cells. The proposer of a snapshot points to a validator of which
  only the address is read afterwards; here it is that validator's value.
\<close>

record Cells =
  cl_next :: nat
  cl_val :: "nat \<Rightarrow> int"

definition alloc :: "int \<Rightarrow> Cells \<Rightarrow> nat \<times> Cells" where
  "alloc i s = (cl_next s, s\<lparr>cl_next := Suc (cl_next s), cl_val := (cl_val s)(cl_next s := i)\<rparr>)"

definition assign :: "nat \<Rightarrow> int \<Rightarrow> Cells \<Rightarrow> Cells" where
  "assign r i s = s\<lparr>cl_val := (cl_val s)(r := i)\<rparr>"

record 'k PrioritizedValidator =
  pv_Metadata :: "'k ValidatorMetadata"
  pv_ProposerPriority :: nat

record 'k ProposerSnapshot =
  ps_Height :: uint64
  ps_Round :: uint64
  ps_Proposer :: "'k PrioritizedValidator option"
  ps_Validators :: "'k PrioritizedValidator list"

definition pv_Address :: "'k PrioritizedValidator \<Rightarrow> address" where
  "pv_Address v = vm_Address (pv_Metadata v)"

definition priority :: "Cells \<Rightarrow> 'k PrioritizedValidator \<Rightarrow> int" where
  "priority s v = cl_val s (pv_ProposerPriority v)"

subsection \<open>Snapshots\<close>

text \<open>The validators with the given priorities, each in a cell of its own.\<close>

fun newPrioritized :: "('k ValidatorMetadata \<times> int) list \<Rightarrow> Cells \<Rightarrow> 'k PrioritizedValidator list \<times> Cells" where
  "newPrioritized [] s = ([], s)"
| "newPrioritized ((x, p) # xs) s =
    (let (r, s) = alloc p s; (vs, s) = newPrioritized xs s
     in (\<lparr>pv_Metadata = x, pv_ProposerPriority = r\<rparr> # vs, s))"

definition NewProposerSnapshot :: "uint64 \<Rightarrow> 'k AccountSet \<Rightarrow> Cells \<Rightarrow> 'k ProposerSnapshot \<times> Cells" where
  "NewProposerSnapshot height validators s =
    (let (vs, s) = newPrioritized (map (\<lambda>x. (x, 0)) validators) s
     in (\<lparr>ps_Height = height, ps_Round = 0, ps_Proposer = None, ps_Validators = vs\<rparr>, s))"

text \<open>The form in which a snapshot is kept in the database, with the integers themselves.\<close>

record 'k SavedSnapshot =
  sv_Height :: uint64
  sv_Round :: uint64
  sv_Proposer :: "('k ValidatorMetadata \<times> int) option"
  sv_Validators :: "('k ValidatorMetadata \<times> int) list"

definition saveSnapshot :: "'k ProposerSnapshot \<Rightarrow> Cells \<Rightarrow> 'k SavedSnapshot" where
  "saveSnapshot pcs s =
    \<lparr>sv_Height = ps_Height pcs, sv_Round = ps_Round pcs,
     sv_Proposer = map_option (\<lambda>v. (pv_Metadata v, priority s v)) (ps_Proposer pcs),
     sv_Validators = map (\<lambda>v. (pv_Metadata v, priority s v)) (ps_Validators pcs)\<rparr>"

definition loadSnapshot :: "'k SavedSnapshot \<Rightarrow> Cells \<Rightarrow> 'k ProposerSnapshot \<times> Cells" where
  "loadSnapshot sv s =
    (let (ps, s) = newPrioritized (case sv_Proposer sv of None \<Rightarrow> [] | Some p \<Rightarrow> [p]) s;
         (vs, s) = newPrioritized (sv_Validators sv) s
     in (\<lparr>ps_Height = sv_Height sv, ps_Round = sv_Round sv,
          ps_Proposer = (case ps of [] \<Rightarrow> None | p # _ \<Rightarrow> Some p), ps_Validators = vs\<rparr>, s))"

definition NewProposerSnapshotFromState ::
  "(bftError + 'k SavedSnapshot option) \<Rightarrow> 'k GetValidators \<Rightarrow> Cells \<Rightarrow> bftError + 'k ProposerSnapshot \<times> Cells" where
  "NewProposerSnapshotFromState getProposerSnapshot GetVals s =
    rbind getProposerSnapshot (\<lambda>snapshot.
    case snapshot of
      Some sv \<Rightarrow> Inr (loadSnapshot sv s)
    | None \<Rightarrow> rbind (GetVals 0) (\<lambda>genesisValidatorsSet. Inr (NewProposerSnapshot 1 genesisValidatorsSet s)))"

definition Snapshot_GetTotalVotingPower :: "'k ProposerSnapshot \<Rightarrow> int" where
  "Snapshot_GetTotalVotingPower pcs = foldl (\<lambda>t v. t + vm_VotingPower (pv_Metadata v)) 0 (ps_Validators pcs)"

text \<open>The copy has validators of its own, but their priorities are the same cells. The proposer is the last
  validator with the address of the proposer.\<close>

definition Snapshot_Copy :: "'k ProposerSnapshot \<Rightarrow> 'k ProposerSnapshot" where
  "Snapshot_Copy pcs =
    pcs\<lparr>ps_Proposer :=
      (case ps_Proposer pcs of
         None \<Rightarrow> None
       | Some p \<Rightarrow> foldl (\<lambda>proposer v. if pv_Address p = pv_Address v then Some v else proposer) None (ps_Validators pcs))\<rparr>"

definition toMap :: "'k PrioritizedValidator list \<Rightarrow> address \<rightharpoonup> 'k PrioritizedValidator" where
  "toMap vs = foldl (\<lambda>m v. m(pv_Address v \<mapsto> v)) Map.empty vs"

subsection \<open>Priorities\<close>

definition isBetterProposer :: "Cells \<Rightarrow> 'k PrioritizedValidator \<Rightarrow> 'k PrioritizedValidator option \<Rightarrow> bool" where
  "isBetterProposer s a b =
    (case b of
       None \<Rightarrow> True
     | Some b \<Rightarrow>
         if priority s b < priority s a then True
         else if pv_ProposerPriority a = pv_ProposerPriority b then pv_Address a \<le> pv_Address b
         else False)"

definition getValWithMostPriority :: "'k ProposerSnapshot \<Rightarrow> Cells \<Rightarrow> bftError + 'k PrioritizedValidator" where
  "getValWithMostPriority snapshot s =
    need (foldl (\<lambda>result curr. if isBetterProposer s curr result then Some curr else result) None
            (ps_Validators snapshot)) EmptyValidatorSet Inr"

definition computeMaxMinPriorityDiff :: "'k PrioritizedValidator list \<Rightarrow> Cells \<Rightarrow> int" where
  "computeMaxMinPriorityDiff validators s =
    (let ps = map (priority s) validators;
         low = foldl (\<lambda>m p. if p < m then p else m) (hd ps) (tl ps);
         high = foldl (\<lambda>m p. if m < p then p else m) (hd ps) (tl ps);
         diff = high - low
     in if diff < 0 then - diff else diff)"

text \<open>A loop that changes each priority in place.\<close>

definition assignAll :: "(int \<Rightarrow> int) \<Rightarrow> 'k PrioritizedValidator list \<Rightarrow> Cells \<Rightarrow> Cells" where
  "assignAll f validators s = foldl (\<lambda>s v. assign (pv_ProposerPriority v) (f (priority s v)) s) s validators"

definition rescalePriorities :: "'k ProposerSnapshot \<Rightarrow> int \<Rightarrow> Cells \<Rightarrow> bftError + Cells" where
  "rescalePriorities snapshot totalVotingPower s =
    (if ps_Validators snapshot = [] then Inl EmptyValidatorSet
     else
       let diffMax = 2 * totalVotingPower; diff = computeMaxMinPriorityDiff (ps_Validators snapshot) s
       in rbind (BigIntDivCeil diff diffMax) (\<lambda>ratio.
          Inr (if diffMax < diff then assignAll (\<lambda>p. big_Quo p ratio) (ps_Validators snapshot) s else s)))"

definition computeAvgProposerPriority :: "'k ProposerSnapshot \<Rightarrow> Cells \<Rightarrow> bftError + int" where
  "computeAvgProposerPriority snapshot s =
    (if ps_Validators snapshot = [] then Inl EmptyValidatorSet
     else Inr (foldl (\<lambda>t v. t + priority s v) 0 (ps_Validators snapshot) div int (length (ps_Validators snapshot))))"

definition shiftByAvgProposerPriority :: "'k ProposerSnapshot \<Rightarrow> Cells \<Rightarrow> bftError + Cells" where
  "shiftByAvgProposerPriority snapshot s =
    rbind (computeAvgProposerPriority snapshot s) (\<lambda>avgProposerPriority.
    Inr (assignAll (\<lambda>p. p - avgProposerPriority) (ps_Validators snapshot) s))"

definition updateWithChangeSet :: "'k ProposerSnapshot \<Rightarrow> int \<Rightarrow> Cells \<Rightarrow> bftError + Cells" where
  "updateWithChangeSet snapshot totalVotingPower s =
    rbind (rescalePriorities snapshot totalVotingPower s) (shiftByAvgProposerPriority snapshot)"

subsection \<open>Rounds\<close>

text \<open>The first loop of \<^verbatim>\<open>incrementProposerPriority\<close> gives each validator a new cell.\<close>

definition addPowers :: "'k PrioritizedValidator list \<Rightarrow> Cells \<Rightarrow> 'k PrioritizedValidator list \<times> Cells" where
  "addPowers vs s =
    newPrioritized (map (\<lambda>v. (pv_Metadata v, priority s v + vm_VotingPower (pv_Metadata v))) vs) s"

definition incrementProposerPriority ::
  "'k ProposerSnapshot \<Rightarrow> int \<Rightarrow> Cells \<Rightarrow> bftError + 'k PrioritizedValidator \<times> 'k ProposerSnapshot \<times> Cells" where
  "incrementProposerPriority snapshot totalVotingPower s =
    (let (vs, s) = addPowers (ps_Validators snapshot) s; snapshot = snapshot\<lparr>ps_Validators := vs\<rparr>
     in rbind (getValWithMostPriority snapshot s) (\<lambda>mostest.
        Inr (mostest, snapshot, assign (pv_ProposerPriority mostest) (priority s mostest - totalVotingPower) s)))"

fun incrementLoop ::
  "nat \<Rightarrow> int \<Rightarrow> 'k PrioritizedValidator option \<Rightarrow> 'k ProposerSnapshot \<Rightarrow> Cells
    \<Rightarrow> bftError + 'k PrioritizedValidator option \<times> 'k ProposerSnapshot \<times> Cells" where
  "incrementLoop 0 tvp proposer snapshot s = Inr (proposer, snapshot, s)"
| "incrementLoop (Suc n) tvp proposer snapshot s =
    rbind (incrementProposerPriority snapshot tvp s) (\<lambda>(proposer, snapshot, s).
    incrementLoop n tvp (Some proposer) snapshot s)"

definition incrementProposerPriorityNTimes ::
  "'k ProposerSnapshot \<Rightarrow> uint64 \<Rightarrow> Cells \<Rightarrow> bftError + 'k PrioritizedValidator \<times> 'k ProposerSnapshot \<times> Cells" where
  "incrementProposerPriorityNTimes snapshot turns s =
    (if ps_Validators snapshot = [] then Inl EmptyValidatorSet
     else if turns \<le> 0 then Inl NonPositiveTimes
     else
       let tvp = Snapshot_GetTotalVotingPower snapshot in
       rbind (updateWithChangeSet snapshot tvp s) (\<lambda>s.
       rbind (incrementLoop (unat turns) tvp None snapshot s) (\<lambda>(proposer, snapshot, s).
       need proposer NilDereference (\<lambda>p.
       Inr (p, snapshot\<lparr>ps_Proposer := Some p, ps_Round := turns - 1\<rparr>, s)))))"

text \<open>The snapshot keeps its own validators; the store has the changes of the shared cells.\<close>

definition CalcProposer ::
  "uint64 \<Rightarrow> uint64 \<Rightarrow> 'k ProposerSnapshot \<Rightarrow> Cells \<Rightarrow> bftError + address \<times> 'k ProposerSnapshot \<times> Cells" where
  "CalcProposer rnd height pcs s =
    (if height \<noteq> ps_Height pcs then Inl (InvalidHeight (ps_Height pcs) height)
     else case (if ps_Round pcs = rnd then ps_Proposer pcs else None) of
       Some p \<Rightarrow> Inr (pv_Address p, pcs, s)
     | None \<Rightarrow>
         rbind (incrementProposerPriorityNTimes (Snapshot_Copy pcs) (rnd + 1) s) (\<lambda>(proposer, _, s).
         Inr (pv_Address proposer, pcs\<lparr>ps_Proposer := Some proposer, ps_Round := rnd\<rparr>, s)))"

text \<open>The message of the error reads the fields of the snapshot, also when there is none.\<close>

definition GetLatestProposer :: "uint64 \<Rightarrow> uint64 \<Rightarrow> 'k ProposerSnapshot option \<Rightarrow> bftError + address" where
  "GetLatestProposer rnd height pcs =
    (case pcs of
       None \<Rightarrow> Inl NilDereference
     | Some pcs \<Rightarrow>
         (case ps_Proposer pcs of
            None \<Rightarrow> Inl ProposerNotFound
          | Some p \<Rightarrow>
              if ps_Round pcs \<noteq> rnd \<or> ps_Height pcs \<noteq> height then Inl ProposerNotFound else Inr (pv_Address p)))"

subsection \<open>Blocks\<close>

text \<open>The loop over the new validators: those of the snapshot keep the cell of their priority, the others get a
  new one. \<open>tvp\<close> is \<^verbatim>\<open>tvpAfterUpdatesBeforeRemovals\<close>, which \<^verbatim>\<open>Add\<close> changes at each added validator.\<close>

fun mergeValidators ::
  "(address \<rightharpoonup> 'k PrioritizedValidator) \<Rightarrow> 'k AccountSet \<Rightarrow> int \<Rightarrow> Cells \<Rightarrow> 'k PrioritizedValidator list \<times> Cells" where
  "mergeValidators snapshotValidators [] tvp s = ([], s)"
| "mergeValidators snapshotValidators (x # xs) tvp s =
    (case snapshotValidators (vm_Address x) of
       Some val \<Rightarrow>
         let (vs, s) = mergeValidators snapshotValidators xs tvp s
         in (\<lparr>pv_Metadata = x, pv_ProposerPriority = pv_ProposerPriority val\<rparr> # vs, s)
     | None \<Rightarrow>
         let tvp = tvp + tvp div 8; (r, s) = alloc (- tvp) s; (vs, s) = mergeValidators snapshotValidators xs tvp s
         in (\<lparr>pv_Metadata = x, pv_ProposerPriority = r\<rparr> # vs, s))"

definition removedVotingPower ::
  "(byte list \<Rightarrow> hash) \<Rightarrow> 'k PrioritizedValidator list \<Rightarrow> 'k AccountSet \<Rightarrow> int" where
  "removedVotingPower K vs newValidatorSet =
    (\<Sum>a \<in> pv_Address ` set vs.
       case toMap vs a of
         None \<Rightarrow> 0
       | Some val \<Rightarrow> if \<not> ContainsNodeID K newValidatorSet (checksumEncode K a) then vm_VotingPower (pv_Metadata val) else 0)"

definition updateValidators ::
  "(byte list \<Rightarrow> hash) \<Rightarrow> 'k ProposerSnapshot \<Rightarrow> 'k AccountSet \<Rightarrow> Cells \<Rightarrow> bftError + 'k ProposerSnapshot \<times> Cells" where
  "updateValidators K snapshot newValidatorSet s =
    (if newValidatorSet = [] then Inr (snapshot, s)
     else
       let tvpAfterUpdatesBeforeRemovals =
             foldl (\<lambda>t v. t + vm_VotingPower v) 0 newValidatorSet
               + removedVotingPower K (ps_Validators snapshot) newValidatorSet;
           (newValidators, s) =
             mergeValidators (toMap (ps_Validators snapshot)) newValidatorSet tvpAfterUpdatesBeforeRemovals s;
           snapshot = snapshot\<lparr>ps_Validators := newValidators\<rparr>
       in rbind (updateWithChangeSet snapshot (Snapshot_GetTotalVotingPower snapshot) s) (\<lambda>s. Inr (snapshot, s)))"

definition getBlockData ::
  "('a, 'v) Codec \<Rightarrow> ('g1, 'k) Bn256 \<Rightarrow> (uint64 \<Rightarrow> Header option) \<Rightarrow> uint64 \<Rightarrow> bftError + Header \<times> 'k Extra" where
  "getBlockData R N GetHeaderByNumber blockNumber =
    need (GetHeaderByNumber blockNumber) NoBlock (\<lambda>blockHeader.
    rbind (GetIbftExtra R N (hd_ExtraData blockHeader)) (\<lambda>blockExtra. Inr (blockHeader, blockExtra)))"

text \<open>What the calculator asks of the chain, and the snapshot it owns.\<close>

record ('a, 'v, 'g1, 'k) ProposerEnv =
  pr_R :: "('a, 'v) Codec"
  pr_N :: "('g1, 'k) Bn256"
  pr_GetHeaderByNumber :: "uint64 \<Rightarrow> Header option"
  pr_GetValidators :: "'k GetValidators"

definition updatePerBlock ::
  "('a, 'v, 'g1, 'k) ProposerEnv \<Rightarrow> uint64 \<Rightarrow> 'k ProposerSnapshot \<Rightarrow> Cells
    \<Rightarrow> bftError + 'k ProposerSnapshot \<times> Cells" where
  "updatePerBlock E blockNumber snapshot s =
    (if ps_Height snapshot \<noteq> blockNumber then Inl (WrongBlock blockNumber (ps_Height snapshot))
     else
       rbind (getBlockData (pr_R E) (pr_N E) (pr_GetHeaderByNumber E) blockNumber) (\<lambda>(_, extra).
       rbind (case ex_Validators extra of
                None \<Rightarrow> Inr []
              | Some d \<Rightarrow> if ValidatorSetDelta_IsEmpty d then Inr [] else pr_GetValidators E blockNumber)
         (\<lambda>newValidatorSet.
       need (ex_Checkpoint extra) NilDereference (\<lambda>checkpoint.
       rbind (incrementProposerPriorityNTimes snapshot (cd_BlockRound checkpoint + 1) s) (\<lambda>(_, snapshot, s).
       rbind (updateValidators (Keccak (pr_R E)) snapshot newValidatorSet s) (\<lambda>(snapshot, s).
       Inr (snapshot\<lparr>ps_Height := blockNumber + 1, ps_Round := 0, ps_Proposer := None\<rparr>, s)))))))"

text \<open>An operation above fails before it has changed anything, or panics. \<^verbatim>\<open>PostBlock\<close> catches up with the blocks from
  the height of the snapshot to the new one and hands the snapshot to the database, \<open>write\<close>; on an error it keeps
  the blocks it has done. The numbers of blocks stay below the largest 64-bit one.\<close>

fun updateBlocks ::
  "('a, 'v, 'g1, 'k) ProposerEnv \<Rightarrow> uint64 list \<Rightarrow> 'k ProposerSnapshot \<Rightarrow> Cells
    \<Rightarrow> bftError option \<times> 'k ProposerSnapshot \<times> Cells" where
  "updateBlocks E [] snapshot s = (None, snapshot, s)"
| "updateBlocks E (height # heights) snapshot s =
    (case updatePerBlock E height snapshot s of
       Inl e \<Rightarrow> (Some e, snapshot, s)
     | Inr (snapshot, s) \<Rightarrow> updateBlocks E heights snapshot s)"

definition PostBlock ::
  "('a, 'v, 'g1, 'k) ProposerEnv \<Rightarrow> ('k SavedSnapshot \<Rightarrow> bftError option) \<Rightarrow> uint64 \<Rightarrow> 'k ProposerSnapshot \<Rightarrow> Cells
    \<Rightarrow> bftError option \<times> 'k ProposerSnapshot \<times> Cells" where
  "PostBlock E write blockNumber snapshot s =
    (let (e, snapshot, s) =
           updateBlocks E (map of_nat [unat (ps_Height snapshot)..<Suc (unat blockNumber)]) snapshot s
     in case e of
          Some e \<Rightarrow> (Some e, snapshot, s)
        | None \<Rightarrow> (write (saveSnapshot snapshot s), snapshot, s))"

end
