(* ===== verification/ValidatorsProps.thy ===== *)
theory ValidatorsProps
  imports Validators "HOL-Library.Multiset"
begin

unbundle bit_operations_syntax

text \<open>
  The lemmas about bitmaps, account sets, quorums and deltas, on which the properties of the
  consensus rest.
\<close>

subsection \<open>Bitmaps\<close>

lemma byte_mask: "n < 8 \<Longrightarrow> x AND 2 ^ n = 2 ^ n \<longleftrightarrow> bit (x :: byte) n"
proof
  assume "n < 8" "x AND 2 ^ n = 2 ^ n"
  then have "bit (x AND 2 ^ n) n" by (simp add: bit_simps)
  then show "bit x n" by (simp add: bit_and_iff)
next
  show "x AND 2 ^ n = 2 ^ n" if "bit x n" using that by (intro bit_word_eqI) (auto simp: bit_simps)
qed

lemma idx_split: "unat ((i :: uint64) div 8) = unat i div 8" "unat ((i :: uint64) mod 8) = unat i mod 8"
  by (simp_all add: unat_div unat_mod)

lemma Bitmap_Len_unat: "length b * 8 < 2 ^ 64 \<Longrightarrow> unat (Bitmap_Len b) = length b * 8"
  by (simp add: Bitmap_Len_def unsigned_of_nat take_bit_nat_eq_self del: of_nat_mult)

lemma Bitmap_IsSet_iff:
  assumes "length b * 8 < 2 ^ 64"
  shows "Bitmap_IsSet b i \<longleftrightarrow> unat i < length b * 8 \<and> bit (b ! (unat i div 8)) (unat i mod 8)"
  using Bitmap_Len_unat [OF assms]
  by (auto simp: Bitmap_IsSet_def word_le_nat_alt Let_def idx_split byte_mask)

lemma Bitmap_Set_length:
  "length (Bitmap_Set i b) = max (length b) (unat i div 8 + 1)"
  by (simp add: Bitmap_Set_def extendByteSlice_def idx_split Let_def)

lemma Bitmap_Set_IsSet:
  assumes "length b * 8 < 2 ^ 64" "unat i + 8 < 2 ^ 64"
  shows "Bitmap_IsSet (Bitmap_Set i b) j \<longleftrightarrow> j = i \<or> Bitmap_IsSet b j"
proof -
  let ?e = "extendByteSlice b (unat i div 8 + 1)" and ?q = "unat i div 8"
  have len: "length ?e = max (length b) (?q + 1)" by (simp add: extendByteSlice_def)
  have old: "bit (?e ! (unat j div 8)) (unat j mod 8) \<longleftrightarrow>
    unat j < length b * 8 \<and> bit (b ! (unat j div 8)) (unat j mod 8)" if "unat j < length ?e * 8"
    using that by (auto simp: extendByteSlice_def nth_append)
  have same: "unat j div 8 = ?q \<and> unat j mod 8 = unat i mod 8 \<longleftrightarrow> j = i"
    by (metis div_mult_mod_eq unsigned_word_eqI)
  have set: "Bitmap_Set i b = ?e[?q := ?e ! ?q OR push_bit (unat i mod 8) 1]"
    by (simp add: Bitmap_Set_def idx_split Let_def)
  have "length (Bitmap_Set i b) * 8 < 2 ^ 64" using assms by (auto simp: Bitmap_Set_length max_def)
  then have "Bitmap_IsSet (Bitmap_Set i b) j \<longleftrightarrow>
    unat j < length ?e * 8 \<and> bit (Bitmap_Set i b ! (unat j div 8)) (unat j mod 8)"
    by (simp add: Bitmap_IsSet_iff set)
  also have "\<dots> \<longleftrightarrow> j = i \<or> unat j < length ?e * 8 \<and> bit (?e ! (unat j div 8)) (unat j mod 8)"
  proof (cases "unat j div 8 = ?q")
    case True
    then have "Bitmap_Set i b ! (unat j div 8) = ?e ! ?q OR push_bit (unat i mod 8) 1"
      unfolding set using len by (simp add: nth_list_update_eq)
    moreover have "unat j < length ?e * 8" using True len by (simp add: max_def, linarith)
    ultimately show ?thesis using True same by (auto simp: bit_simps)
  next
    case False
    then show ?thesis using same unfolding set by (auto simp: nth_list_update)
  qed
  also have "\<dots> \<longleftrightarrow> j = i \<or> Bitmap_IsSet b j"
  proof -
    have "unat j < length b * 8 \<Longrightarrow> unat j < length ?e * 8" using len by (simp add: max_def)
    then show ?thesis using old Bitmap_IsSet_iff [OF assms(1), of j] by blast
  qed
  finally show ?thesis .
qed

lemma Bitmap_fold_IsSet:
  assumes "\<forall>i \<in> set is. i < n" "n + 8 < 2 ^ 64" "length b * 8 \<le> n + 7"
  shows "Bitmap_IsSet (fold (\<lambda>i. Bitmap_Set (of_nat i)) is b) w \<longleftrightarrow> w \<in> of_nat ` set is \<or> Bitmap_IsSet b w"
  using assms(1,3)
proof (induction "is" arbitrary: b)
  case (Cons i "is")
  have unat: "unat (of_nat i :: uint64) = i"
    using Cons.prems assms(2) by (simp add: unsigned_of_nat take_bit_nat_eq_self)
  then have "length (Bitmap_Set (of_nat i) b) * 8 \<le> n + 7"
    using Cons.prems by (auto simp: Bitmap_Set_length max_def)
  then show ?case
    using Cons.IH [of "Bitmap_Set (of_nat i) b"] Cons.prems assms(2) unat
    by (auto simp: Bitmap_Set_IsSet)
qed simp

lemma Bitmap_fold_Set:
  assumes "\<forall>i \<in> set is. i < n" "n + 8 < 2 ^ 64" "length b * 8 \<le> n + 7" "j < 2 ^ 64"
  shows "Bitmap_IsSet (fold (\<lambda>i. Bitmap_Set (of_nat i)) is b) (of_nat j) \<longleftrightarrow> j \<in> set is \<or> Bitmap_IsSet b (of_nat j)"
proof -
  have "(of_nat j :: uint64) = of_nat i \<longleftrightarrow> j = i" if "i \<in> set is" for i
  proof -
    have "unat (of_nat i :: uint64) = i" "unat (of_nat j :: uint64) = j"
      using that assms(1,2,4) by (auto simp: unsigned_of_nat take_bit_nat_eq_self)
    then show ?thesis by metis
  qed
  then show ?thesis using Bitmap_fold_IsSet [OF assms(1-3)] by auto
qed

lemma Bitmap_IsSet_Nil: "\<not> Bitmap_IsSet [] i"
  by (simp add: Bitmap_IsSet_def Bitmap_Len_def)

lemma Bitmap_fold_Set_length:
  assumes "\<forall>i \<in> set is. i < n" "length b * 8 \<le> n + 7" "n < 2 ^ 64"
  shows "length (fold (\<lambda>i. Bitmap_Set (of_nat i)) is b) * 8 \<le> n + 7"
  using assms(1,2)
proof (induction "is" arbitrary: b)
  case (Cons i "is")
  have "unat (of_nat i :: uint64) = i" using Cons.prems assms(3) by (simp add: unsigned_of_nat take_bit_nat_eq_self)
  then have "length (Bitmap_Set (of_nat i) b) * 8 \<le> n + 7" using Cons.prems by (auto simp: Bitmap_Set_length max_def)
  then show ?case using Cons by simp
qed simp

subsection \<open>Account sets\<close>

lemma Metadata_Equals_iff [simp]: "ValidatorMetadata_Equals v w \<longleftrightarrow> v = (w :: 'k ValidatorMetadata)"
  by (cases v; cases w) (auto simp: ValidatorMetadata_Equals_def EqualAddressAndBlsKey_def)

lemma AccountSet_Equals_iff [simp]: "AccountSet_Equals as bs \<longleftrightarrow> as = (bs :: 'k AccountSet)"
  by (auto simp: AccountSet_Equals_def list_all2_conv_all_nth intro: nth_equalityI)

lemma ValidatorSetDelta_Equals_iff [simp]: "ValidatorSetDelta_Equals d e \<longleftrightarrow> d = (e :: 'k ValidatorSetDelta)"
  by (cases d; cases e) (auto simp: ValidatorSetDelta_Equals_def)

lemma Index_None: "AccountSet_Index as a = None \<longleftrightarrow> a \<notin> vm_Address ` set as"
  by (induction as) auto

lemma ContainsAddress_iff [simp]: "ContainsAddress as a \<longleftrightarrow> a \<in> vm_Address ` set as"
  by (simp add: ContainsAddress_def Index_None)

lemma Index_Some: "AccountSet_Index as a = Some i \<Longrightarrow> i < length as \<and> vm_Address (as ! i) = a"
  by (induction as arbitrary: i) (auto split: if_splits)

lemma Index_distinct:
  assumes "distinct (map vm_Address as)" "i < length as"
  shows "AccountSet_Index as (vm_Address (as ! i)) = Some i"
proof -
  obtain k where "AccountSet_Index as (vm_Address (as ! i)) = Some k"
    using assms(2) Index_None [of as "vm_Address (as ! i)"] by fastforce
  with Index_Some [OF this] show ?thesis using assms by (auto simp: distinct_conv_nth)
qed

lemma ContainsNodeID_iff: "ContainsNodeID keccak as (checksumEncode keccak a) \<longleftrightarrow> a \<in> vm_Address ` set as"
  by (auto simp: ContainsNodeID_def checksumEncode_inj)

lemma filter_zip_index:
  assumes "\<And>i. i < length as \<Longrightarrow> P (as ! i) i \<longleftrightarrow> Q (as ! i)"
  shows "map fst (filter (\<lambda>(v, i). P v i) (zip as [0..<length as])) = filter Q as"
proof -
  have "filter (\<lambda>(v, i). P v i) (zip as [0..<length as]) = filter (\<lambda>p. Q (fst p)) (zip as [0..<length as])"
    using assms by (intro filter_cong) (auto simp: set_zip)
  then show ?thesis using filter_map [of Q fst "zip as [0..<length as]"] by (simp add: comp_def)
qed

lemma GetFilteredValidators_subset:
  "GetFilteredValidators as bm = Inr f \<Longrightarrow> set f \<subseteq> set as"
  by (auto simp: GetFilteredValidators_def split: if_splits dest!: set_zip_leftD)

subsection \<open>Quorums intersect\<close>

definition votingPowerOf :: "'k AccountSet \<Rightarrow> address \<Rightarrow> int" where
  "votingPowerOf as a =
    (case foldl (\<lambda>m v. m(vm_Address v \<mapsto> vm_VotingPower v)) Map.empty as a of None \<Rightarrow> 0 | Some p \<Rightarrow> p)"

lemma total_snoc: "GetTotalVotingPower (as @ [v]) = GetTotalVotingPower as + vm_VotingPower v"
  by (simp add: GetTotalVotingPower_def)

lemma total_sum_list: "GetTotalVotingPower as = sum_list (map vm_VotingPower as)"
  by (induction as rule: rev_induct) (simp_all add: total_snoc, simp add: GetTotalVotingPower_def)

lemma votingPowerOf_snoc:
  "votingPowerOf (as @ [v]) a = (if a = vm_Address v then vm_VotingPower v else votingPowerOf as a)"
  by (simp add: votingPowerOf_def)

lemma votingPowerOf_nonneg:
  "\<forall>v \<in> set as. 0 \<le> vm_VotingPower v \<Longrightarrow> 0 \<le> votingPowerOf as a"
  by (induction as rule: rev_induct) (simp_all add: votingPowerOf_snoc, simp add: votingPowerOf_def)

lemma votingPower_total:
  "\<forall>v \<in> set as. 0 \<le> vm_VotingPower v \<Longrightarrow>
    (\<Sum>a\<in>vm_Address ` set as. votingPowerOf as a) \<le> GetTotalVotingPower as"
proof (induction as rule: rev_induct)
  case (snoc v as)
  let ?S = "vm_Address ` set as"
  have others: "(\<Sum>a\<in>?S - {vm_Address v}. votingPowerOf (as @ [v]) a) = (\<Sum>a\<in>?S - {vm_Address v}. votingPowerOf as a)"
    by (rule sum.cong) (auto simp: votingPowerOf_snoc)
  have "(\<Sum>a\<in>vm_Address ` set (as @ [v]). votingPowerOf (as @ [v]) a) =
    vm_VotingPower v + (\<Sum>a\<in>?S - {vm_Address v}. votingPowerOf as a)"
    using others by (simp add: sum.insert_remove votingPowerOf_snoc)
  moreover have "(\<Sum>a\<in>?S - {vm_Address v}. votingPowerOf as a) \<le> (\<Sum>a\<in>?S. votingPowerOf as a)"
    using snoc.prems votingPowerOf_nonneg [of as] by (intro sum_mono2) auto
  ultimately show ?case using snoc by (simp add: total_snoc)
qed (simp add: GetTotalVotingPower_def)

lemma quorumSize_bounds:
  assumes "getQuorumSize tot = Inr q"
  shows "2 * tot \<le> 3 * q" "3 * q \<le> 2 * tot + 2"
  using assms by (auto simp: getQuorumSize_def BigIntDivCeil_def big_Div_def split: if_splits)

lemma HasQuorum_power:
  assumes "NewValidatorSet as = Inr vs"
  shows "HasQuorum vs S \<longleftrightarrow> vs_quorumSize vs \<le> sum (votingPowerOf as) S"
    "getQuorumSize (GetTotalVotingPower as) = Inr (vs_quorumSize vs)"
  using assms unfolding NewValidatorSet_def Let_def
  by (auto simp: rbind_def HasQuorum_def votingPowerOf_def split: sum.splits)

lemma quorums_intersect:
  assumes "NewValidatorSet as = Inr vs" "\<forall>v \<in> set as. 0 \<le> vm_VotingPower v"
    and "HasQuorum vs S" "HasQuorum vs T" "S \<union> T \<subseteq> vm_Address ` set as"
  shows "GetTotalVotingPower as \<le> 3 * (\<Sum>a\<in>S \<inter> T. votingPowerOf as a)"
proof -
  have fin: "finite S" "finite T" using assms(5) by (auto intro: finite_subset)
  have "sum (votingPowerOf as) (S \<union> T) \<le> sum (votingPowerOf as) (vm_Address ` set as)"
    using assms(2,5) by (intro sum_mono2) (auto intro: votingPowerOf_nonneg)
  then have "sum (votingPowerOf as) (S \<union> T) \<le> GetTotalVotingPower as"
    using votingPower_total [OF assms(2)] by simp
  moreover have "sum (votingPowerOf as) S + sum (votingPowerOf as) T =
    sum (votingPowerOf as) (S \<union> T) + sum (votingPowerOf as) (S \<inter> T)" using fin by (rule sum.union_inter [symmetric])
  ultimately show ?thesis
    using assms(3,4) HasQuorum_power [OF assms(1)] quorumSize_bounds(1) by fastforce
qed

lemma Signature_Verify_quorum:
  assumes "Signature_Verify N s as h domain = Inr ()"
  shows "\<exists>signers vs aggs. GetFilteredValidators as (sg_Bitmap s) = Inr signers \<and> NewValidatorSet as = Inr vs
    \<and> HasQuorum vs (GetAddressesAsSet signers) \<and> UnmarshalSignature N (sg_AggregatedSignature s) = Inr aggs
    \<and> VerifyAggregated N aggs (map vm_BlsKey signers) (hashBytes h) domain = Inr True"
  using assms unfolding Signature_Verify_def by (auto simp: rbind_def split: sum.splits if_splits)

subsection \<open>Deltas\<close>

definition metadataOf :: "'k AccountSet \<Rightarrow> address \<rightharpoonup> 'k ValidatorMetadata" where
  "metadataOf as a = map_option (\<lambda>i. as ! i) (AccountSet_Index as a)"

lemma metadataOf_Some:
  assumes "distinct (map vm_Address as)"
  shows "metadataOf as a = Some v \<longleftrightarrow> v \<in> set as \<and> vm_Address v = a"
  using Index_Some [of as a] Index_distinct [OF assms]
  by (auto simp: metadataOf_def in_set_conv_nth)

lemma metadataOf_None: "metadataOf as a = None \<longleftrightarrow> a \<notin> vm_Address ` set as"
  by (simp add: metadataOf_def Index_None)

lemma deltaOld_maps:
  assumes "distinct (map vm_Address old)" "0 \<notin> vm_Address ` set old"
  shows "deltaOld i old (removed, oldMap) =
    (\<lambda>a. case AccountSet_Index old a of None \<Rightarrow> removed a | Some k \<Rightarrow> Some (i + k),
     \<lambda>a. case AccountSet_Index old a of None \<Rightarrow> oldMap a | Some k \<Rightarrow> Some (old ! k))"
  using assms
proof (induction old arbitrary: i removed oldMap)
  case (Cons v old)
  have "AccountSet_Index old (vm_Address v) = None" using Cons.prems(1) by (simp add: Index_None)
  then show ?case using Cons by (auto simp: fun_eq_iff split: option.splits)
qed simp

lemma deltaNew_result:
  assumes "deltaNew oldMap new (removed, added, updated) = Inr (removed', added', updated')"
  shows "added' = added @ filter (\<lambda>n. oldMap (vm_Address n) = None) new"
    and "updated' = updated @ filter (\<lambda>n. oldMap (vm_Address n) \<notin> {None, Some n}) new"
    and "removed' = (\<lambda>a. if a \<in> vm_Address ` set new \<and> oldMap a \<noteq> None then None else removed a)"
  using assms
  by (induction oldMap new "(removed, added, updated)" arbitrary: removed added updated rule: deltaNew.induct)
     (auto simp: fun_eq_iff split: option.splits if_splits)

lemma deltaNew_total:
  assumes "\<And>n old. n \<in> set new \<Longrightarrow> oldMap (vm_Address n) = Some old \<Longrightarrow> EqualAddressAndBlsKey old n"
  shows "\<exists>r. deltaNew oldMap new s = Inr r"
  using assms
  by (induction oldMap new s rule: deltaNew.induct) (auto split: option.splits)

lemma appendAdded_ok:
  assumes "distinct (map vm_Address (validators @ added))"
  shows "appendAdded validators added = Inr (validators @ added)"
  using assms by (induction validators added rule: appendAdded.induct) auto

lemma replaceUpdated_ok:
  assumes "distinct (map vm_Address validators)" "distinct (map vm_Address updated)"
    and "vm_Address ` set updated \<subseteq> vm_Address ` set validators"
  shows "\<exists>r. replaceUpdated validators updated = Inr r \<and> map vm_Address r = map vm_Address validators
    \<and> set r = set updated \<union> {v \<in> set validators. vm_Address v \<notin> vm_Address ` set updated}"
  using assms
proof (induction validators updated rule: replaceUpdated.induct)
  case (2 validators u updated)
  obtain i where i: "AccountSet_Index validators (vm_Address u) = Some i"
    using 2(4) Index_None [of validators "vm_Address u"] by (cases "AccountSet_Index validators (vm_Address u)") auto
  note at = Index_Some [OF i]
  let ?vs = "validators[i := u]"
  have addrs: "map vm_Address ?vs = map vm_Address validators"
    using at by (simp add: map_update list_update_same_conv)
  have "{v \<in> set validators. vm_Address v \<noteq> vm_Address u} = set validators - {validators ! i}"
    using 2(2) at by (auto simp: distinct_map) (metis inj_onD nth_mem)
  then have "set ?vs = insert u {v \<in> set validators. vm_Address v \<noteq> vm_Address u}"
    using 2(2) at by (simp add: distinct_map set_update_distinct)
  moreover have "vm_Address ` set ?vs = vm_Address ` set validators" using arg_cong [OF addrs, of set] by simp
  then obtain r where "replaceUpdated ?vs updated = Inr r" "map vm_Address r = map vm_Address ?vs"
    "set r = set updated \<union> {v \<in> set ?vs. vm_Address v \<notin> vm_Address ` set updated}"
    using 2(1) [OF i] 2(2-4) addrs by (auto simp del: map_update)
  moreover have "vm_Address u \<notin> vm_Address ` set updated" using 2(3) by simp
  ultimately show ?case using addrs i by auto
qed simp

text \<open>Applying the delta of two sets to the first gives the second.\<close>

lemma delta_kept:
  assumes "distinct (map vm_Address old)" "0 \<notin> vm_Address ` set old" "length old + 8 < 2 ^ 63"
    and "createValidatorSetDelta old new = Inr d"
  shows "vd_Added d = filter (\<lambda>n. vm_Address n \<notin> vm_Address ` set old) new"
    and "vd_Updated d = filter (\<lambda>n. metadataOf old (vm_Address n) \<notin> {None, Some n}) new"
    and "i < length old \<Longrightarrow>
      Bitmap_IsSet (vd_Removed d) (of_nat i) \<longleftrightarrow> vm_Address (old ! i) \<notin> vm_Address ` set new"
    and "length (vd_Removed d) * 8 < 2 ^ 64"
proof -
  have maps: "deltaOld 0 old (Map.empty, Map.empty) = (AccountSet_Index old, metadataOf old)"
    using deltaOld_maps [OF assms(1,2), of 0 Map.empty Map.empty]
    by (auto simp: metadataOf_def fun_eq_iff split: option.split)
  obtain removed added updated where new: "deltaNew (metadataOf old) new (AccountSet_Index old, [], []) = Inr (removed, added, updated)"
    and d: "d = \<lparr>vd_Added = added, vd_Updated = updated, vd_Removed = fold (\<lambda>i. Bitmap_Set (of_nat i))
      (filter (\<lambda>i. removed (vm_Address (old ! i)) = Some i) [0..<length old]) []\<rparr>"
    using assms(4) unfolding createValidatorSetDelta_def maps by (auto simp: rbind_def split: sum.splits)
  note r = deltaNew_result [OF new]
  show "vd_Added d = filter (\<lambda>n. vm_Address n \<notin> vm_Address ` set old) new"
    using r(1) by (simp add: d metadataOf_None)
  show "vd_Updated d = filter (\<lambda>n. metadataOf old (vm_Address n) \<notin> {None, Some n}) new"
    using r(2) by (simp add: d)
  have "removed (vm_Address (old ! i)) = Some i \<longleftrightarrow> vm_Address (old ! i) \<notin> vm_Address ` set new" if "i < length old" for i
    using that Index_distinct [OF assms(1) that] by (auto simp: r(3) metadataOf_None)
  then show "Bitmap_IsSet (vd_Removed d) (of_nat i) \<longleftrightarrow> vm_Address (old ! i) \<notin> vm_Address ` set new" if "i < length old"
    using that assms(3) by (subst d) (simp add: Bitmap_fold_Set [where n = "length old"] Bitmap_IsSet_Nil)
  have "length (vd_Removed d) * 8 \<le> length old + 7"
    unfolding d using assms(3) by (simp, intro Bitmap_fold_Set_length) auto
  then show "length (vd_Removed d) * 8 < 2 ^ 64" using assms(3) by simp
qed

lemma delta_set:
  assumes "distinct (map vm_Address old)" "distinct (map vm_Address new)"
    and "\<And>v. v \<in> vs \<longleftrightarrow> v \<in> set old \<and> vm_Address v \<in> vm_Address ` set new
      \<or> v \<in> set new \<and> vm_Address v \<notin> vm_Address ` set old"
    and "\<And>u. u \<in> upd \<longleftrightarrow> u \<in> set new \<and> (\<exists>v \<in> set old. vm_Address v = vm_Address u \<and> v \<noteq> u)"
  shows "upd \<union> {v \<in> vs. vm_Address v \<notin> vm_Address ` upd} = set new"
proof (intro subset_antisym subsetI)
  have inj: "v = w" if "v \<in> set new" "w \<in> set new" "vm_Address v = vm_Address w" for v w
    using that assms(2) by (auto simp: distinct_map dest: inj_onD)
  fix v assume v: "v \<in> set new"
  show "v \<in> upd \<union> {v \<in> vs. vm_Address v \<notin> vm_Address ` upd}"
  proof (cases "v \<in> upd")
    case False
    then have "vm_Address v \<notin> vm_Address ` upd" using inj [OF v] assms(4) by auto
    moreover have "v \<in> vs"
    proof (cases "vm_Address v \<in> vm_Address ` set old")
      case True
      then have "v \<in> set old" using False v assms(4) [of v] by auto
      then show ?thesis using v assms(3) [of v] by simp
    qed (use v assms(3) [of v] in simp)
    ultimately show ?thesis by simp
  qed simp
next
  fix v assume v: "v \<in> upd \<union> {v \<in> vs. vm_Address v \<notin> vm_Address ` upd}"
  show "v \<in> set new"
  proof (rule ccontr)
    assume no: "v \<notin> set new"
    then have old: "v \<in> set old" "vm_Address v \<notin> vm_Address ` upd" "vm_Address v \<in> vm_Address ` set new"
      using v assms(3) [of v] assms(4) [of v] by auto
    then obtain n where n: "n \<in> set new" "vm_Address v = vm_Address n" by auto
    then have "n \<in> upd" using no old(1) assms(4) [of n] by auto
    then show False using n(2) old(2) by simp
  qed
qed

lemma delta_applies:
  assumes "distinct (map vm_Address old)" "0 \<notin> vm_Address ` set old" "length old + 8 < 2 ^ 63"
    and "distinct (map vm_Address new)" "createValidatorSetDelta old new = Inr d"
  shows "\<exists>r. ApplyDelta old (Some d) = Inr r \<and> mset r = mset new"
proof -
  note kept = delta_kept [OF assms(1-3,5)]
  define vs where "vs = filter (\<lambda>v. vm_Address v \<in> vm_Address ` set new) old"
  have vs: "map fst (filter (\<lambda>(v, i). \<not> Bitmap_IsSet (vd_Removed d) (of_nat i)
      \<or> ContainsAddress (vd_Added d) (vm_Address v)) (zip old [0..<length old])) = vs"
    unfolding vs_def
  proof (rule filter_zip_index)
    fix i assume i: "i < length old"
    then have "vm_Address (old ! i) \<in> vm_Address ` set old" by simp
    then have "vm_Address (old ! i) \<notin> vm_Address ` set (vd_Added d)" unfolding kept(1) by auto
    then show "\<not> Bitmap_IsSet (vd_Removed d) (of_nat i) \<or> ContainsAddress (vd_Added d) (vm_Address (old ! i))
      \<longleftrightarrow> vm_Address (old ! i) \<in> vm_Address ` set new" using kept(3) [OF i] by simp
  qed
  have dist: "distinct (map vm_Address (vs @ vd_Added d))"
  proof -
    have "vm_Address ` set vs \<subseteq> vm_Address ` set old" by (auto simp: vs_def)
    moreover have "vm_Address ` set (vd_Added d) \<inter> vm_Address ` set old = {}" by (auto simp: kept(1))
    ultimately have "vm_Address ` set vs \<inter> vm_Address ` set (vd_Added d) = {}" by blast
    then show ?thesis using assms(1,4) by (simp add: vs_def kept(1) distinct_map_filter)
  qed
  have upd: "u \<in> set (vd_Updated d) \<longleftrightarrow> u \<in> set new \<and> (\<exists>v \<in> set old. vm_Address v = vm_Address u \<and> v \<noteq> u)" for u
  proof (cases "metadataOf old (vm_Address u)")
    case (Some a)
    then have "v \<in> set old \<and> vm_Address v = vm_Address u \<longleftrightarrow> v = a" for v
      using metadataOf_Some [OF assms(1), of "vm_Address u" v] by auto
    then show ?thesis using Some by (auto simp: kept(2))
  next
    case None
    then have "\<forall>v \<in> set old. vm_Address v \<noteq> vm_Address u" unfolding metadataOf_None by (metis image_eqI)
    then show ?thesis using None by (auto simp: kept(2))
  qed
  have "vm_Address u \<in> vm_Address ` set vs" if u: "u \<in> set (vd_Updated d)" for u
  proof -
    obtain v where "v \<in> set old" "vm_Address v = vm_Address u" "u \<in> set new" using iffD1 [OF upd u] by auto
    then have "v \<in> set vs" by (simp add: vs_def)
    then show ?thesis using \<open>vm_Address v = vm_Address u\<close> by (metis image_eqI)
  qed
  moreover have "distinct (map vm_Address (vd_Updated d))" by (simp add: kept(2) distinct_map_filter assms(4))
  ultimately obtain r where r: "replaceUpdated (vs @ vd_Added d) (vd_Updated d) = Inr r"
    "map vm_Address r = map vm_Address (vs @ vd_Added d)"
    "set r = set (vd_Updated d) \<union> {v \<in> set (vs @ vd_Added d). vm_Address v \<notin> vm_Address ` set (vd_Updated d)}"
    using replaceUpdated_ok [OF dist, of "vd_Updated d"] by (metis (no_types, lifting) UnCI image_Un image_subsetI set_append)
  have "set r = set new"
    unfolding r(3) by (rule delta_set [OF assms(1,4) _ upd]) (simp add: vs_def kept(1))
  moreover have "distinct r" "distinct new" using r(2) dist assms(4) by (metis distinct_map)+
  ultimately have new: "mset r = mset new" by (simp add: set_eq_iff_mset_eq_distinct)
  show ?thesis
  proof (cases "ValidatorSetDelta_IsEmpty d")
    case True
    then have none: "vd_Added d = []" "vd_Updated d = []" "vd_Removed d = []"
      using Bitmap_Len_unat [OF kept(4)] by (auto simp: ValidatorSetDelta_IsEmpty_def)
    have "vs = old"
      unfolding vs_def using kept(3) none(3) by (auto simp: Bitmap_IsSet_Nil filter_id_conv in_set_conv_nth)
    then show ?thesis using True r(1) new none by (auto simp: ApplyDelta_def)
  next
    case False
    then show ?thesis using r(1) new appendAdded_ok [OF dist] vs by (simp add: ApplyDelta_def)
  qed
qed

end
