(* ===== verification/BlsProps.thy ===== *)
theory BlsProps
  imports Bls
begin

text \<open>
  Properties of the signer: the encodings of numbers and keys, the modular arithmetic and the points that
  messages are mapped to.
\<close>

subsection \<open>Bytes of numbers\<close>

lemma big_SetBytes_inj: "length bs = length cs \<Longrightarrow> big_SetBytes bs = big_SetBytes cs \<Longrightarrow> bs = cs"
proof (induction bs arbitrary: cs rule: rev_induct)
  case (snoc b bs)
  obtain c cs' where cs: "cs = cs' @ [c]" using snoc.prems(1) by (cases cs rule: rev_cases) simp_all
  have eq: "big_SetBytes bs * 256 + uint b = big_SetBytes cs' * 256 + uint c" using snoc.prems(2) by (simp add: cs)
  have low: "(n * 256 + uint w) mod 256 = uint w" for n and w :: byte using uint_byte_less [of w] by simp
  have "uint b = uint c" using arg_cong [OF eq, of "\<lambda>n. n mod 256"] unfolding low .
  moreover from this have "big_SetBytes bs = big_SetBytes cs'" using eq by simp
  moreover from \<open>uint b = uint c\<close> have "b = c" by (rule unsigned_word_eqI)
  ultimately have "b = c" "big_SetBytes bs = big_SetBytes cs'" by simp_all
  then show ?case using snoc by (simp add: cs)
qed simp

lemma big_SetBytes_zeros: "big_SetBytes (replicate n 0 @ bs) = big_SetBytes bs"
proof -
  have "big_SetBytes (replicate n 0) = 0" by (induction n) (simp_all add: big_SetBytes_def)
  then show ?thesis by (induction bs rule: rev_induct) (simp_all flip: append_assoc)
qed

lemma length_big_Bytes: "length (big_Bytes i) \<le> n \<longleftrightarrow> \<bar>i\<bar> < 256 ^ n"
  by (simp add: big_Bytes_def floorlog_le_iff nat_less_iff)

lemma big_SetBytes_big_Bytes: "0 \<le> i \<Longrightarrow> big_SetBytes (big_Bytes i) = i"
  using length_big_Bytes [of i "length (big_Bytes i)"]
  by (simp add: big_SetBytes_be_bytes big_Bytes_def)

lemma PadLeftOrTrim_read:
  assumes "0 \<le> i" "i < 256 ^ n"
  shows "length (PadLeftOrTrim (big_Bytes i) n) = n" "big_SetBytes (PadLeftOrTrim (big_Bytes i) n) = i"
  using assms length_big_Bytes [of i n]
  by (auto simp: PadLeftOrTrim_def big_SetBytes_zeros big_SetBytes_big_Bytes)

lemma PadLeftOrTrim_bytes: "length bs = n \<Longrightarrow> PadLeftOrTrim (big_Bytes (big_SetBytes bs)) n = bs"
  using PadLeftOrTrim_read [of "big_SetBytes bs" n] big_SetBytes_less [of bs]
  by (intro big_SetBytes_inj) simp_all

subsection \<open>Modular arithmetic\<close>

lemma bezout_loop_ok:
  assumes "n dvd s0 * g - int r0" "n dvd s1 * g - int r1" "bezout_loop r0 r1 s0 s1 = (d, x)"
  shows "d = gcd r0 r1 \<and> n dvd x * g - int d"
  using assms
proof (induction r0 r1 s0 s1 rule: bezout_loop.induct)
  case (1 r0 r1 s0 s1)
  show ?case
  proof (cases "r1 = 0")
    case True
    then show ?thesis using 1(2,4) by (simp add: bezout_loop.simps)
  next
    case False
    have "int (r0 mod r1) = int r0 - int (r0 div r1) * int r1" by (simp add: zdiv_int zmod_int minus_mult_div_eq_mod mult.commute)
    then have "(s0 - int (r0 div r1) * s1) * g - int (r0 mod r1) =
      (s0 * g - int r0) - int (r0 div r1) * (s1 * g - int r1)" by (simp add: algebra_simps)
    then have "n dvd (s0 - int (r0 div r1) * s1) * g - int (r0 mod r1)" using 1(2,3) by simp
    moreover have "bezout_loop r1 (r0 mod r1) s1 (s0 - int (r0 div r1) * s1) = (d, x)"
      using 1(4) False bezout_loop.simps [of r0 r1] by simp
    ultimately show ?thesis using 1(1) [OF False 1(3)] unfolding gcd_red_nat [of r0 r1] by blast
  qed
qed

lemma big_ModInverse_cert:
  assumes "1 < n" "0 \<le> x" "x < n" "g * x mod n = 1"
  shows "big_ModInverse g n = Some x"
proof -
  obtain d y where loop: "bezout_loop (nat (g mod n)) (nat n) 1 0 = (d, y)" by (cases "bezout_loop (nat (g mod n)) (nat n) 1 0")
  have "d = gcd (nat (g mod n)) (nat n) \<and> n dvd y * g - int d"
    by (rule bezout_loop_ok [OF _ _ loop]) (use assms(1) in \<open>simp_all add: dvd_minus_mod\<close>)
  then have d: "d = gcd (nat (g mod n)) (nat n)" and y: "n dvd y * g - int d" by blast+
  have "int d dvd int (nat (g mod n))" "int d dvd int (nat n)" unfolding int_dvd_int_iff d by simp_all
  then have "int d dvd g mod n" "int d dvd n" using assms(1) by simp_all
  then have "int d dvd g * x mod n" by (metis dvd_mod dvd_mod_imp_dvd dvd_mult2)
  then have "d = 1" using assms(4) by simp
  moreover have "y mod n = x mod n"
  proof -
    have "(y * g) mod n = 1" using y \<open>d = 1\<close> assms(1) by (simp add: mod_eq_dvd_iff [symmetric])
    then have "y mod n = (y * (g * x)) mod n" using assms(4) by (metis mod_mult_right_eq mult.right_neutral)
    also have "\<dots> = (y * g * x) mod n" by (simp add: mult.assoc)
    also have "\<dots> = x mod n" using \<open>(y * g) mod n = 1\<close> by (metis mod_mult_left_eq mult_1)
    finally show ?thesis .
  qed
  ultimately show ?thesis using loop assms(2,3) by (simp add: big_ModInverse_def)
qed

lemma big_Exp_power: "0 < m \<Longrightarrow> big_Exp x y m = x ^ y mod m"
proof (induction x y m rule: big_Exp.induct)
  case (1 x y m)
  show ?case
  proof (cases "y = 0")
    case False
    have sq: "(x * x mod m) ^ (y div 2) mod m = x ^ (2 * (y div 2)) mod m"
      by (simp add: power_mod power_mult power2_eq_square)
    show ?thesis
    proof (cases "odd y")
      case True
      have "big_Exp x y m = x * big_Exp (x * x mod m) (y div 2) m mod m" using False True big_Exp.simps [of x y m] by presburger
      also have "\<dots> = x * x ^ (2 * (y div 2)) mod m" using 1(1) [OF False True 1(3)] sq by (simp add: mod_mult_right_eq)
      also have "x * x ^ (2 * (y div 2)) = x ^ Suc (2 * (y div 2))" by simp
      finally show ?thesis using True by (simp del: power_Suc)
    next
      case even: False
      have "big_Exp x y m = big_Exp (x * x mod m) (y div 2) m" using False even big_Exp.simps [of x y m] by presburger
      then show ?thesis using 1(2) [OF False even 1(3)] sq even by simp
    qed
  qed (subst big_Exp.simps, simp)
qed

lemma big_Exp_range: "0 < m \<Longrightarrow> 0 \<le> big_Exp x y m" "0 < m \<Longrightarrow> big_Exp x y m < m"
  by (simp_all add: big_Exp_power)

lemma pPrime_pos: "0 < pPrime" "pPrime < 256 ^ 32"
  by (simp_all add: pPrime_def)

lemma sqrtp_Some:
  assumes "sqrtp c = Some a"
  shows "a * a mod pPrime = c" "0 \<le> a" "a < pPrime"
proof -
  have "a * a mod pPrime = c \<and> (a = 0 \<or> (\<exists>x y. a = big_Exp x y pPrime))"
    using assms by (auto simp: sqrtp_def big_ModSqrt_def Let_def mulmod_def split: option.splits if_splits) metis
  then show "a * a mod pPrime = c" "0 \<le> a" "a < pPrime" using big_Exp_range [OF pPrime_pos(1)] pPrime_pos(1) by auto
qed

subsection \<open>Points of messages\<close>

definition on_curve :: "int \<Rightarrow> int \<Rightarrow> bool" where
  "on_curve x y \<longleftrightarrow> 0 \<le> x \<and> x \<le> pPrime \<and> 0 \<le> y \<and> y \<le> pPrime \<and> y * y mod pPrime = (x * x * x + 3) mod pPrime"

lemma curve_rhs_eq: "curve_rhs x = (x * x * x + 3) mod pPrime"
  by (simp add: curve_rhs_def addmod_def mulmod_def mod_simps)

lemma signed_root:
  assumes "sqrtp (curve_rhs x) = Some a" "0 \<le> x" "x \<le> pPrime"
  shows "on_curve x a" "on_curve x (pPrime - a)"
proof -
  note a = sqrtp_Some [OF assms(1)]
  have "(pPrime - a) * (pPrime - a) = a * a + (pPrime - 2 * a) * pPrime" by (simp add: algebra_simps)
  then have "(pPrime - a) * (pPrime - a) mod pPrime = a * a mod pPrime" by simp
  then show "on_curve x a" "on_curve x (pPrime - a)" using a assms(2,3) by (simp_all add: on_curve_def curve_rhs_eq)
qed

lemma modp_range: "0 \<le> addmod x y pPrime" "addmod x y pPrime \<le> pPrime"
  using pPrime_pos(1) by (simp_all add: addmod_def less_imp_le)

lemma mapToPoint_curve: "mapToPoint b = Inr (x, y) \<Longrightarrow> on_curve x y"
  using pPrime_pos(1) unfolding mapToPoint_def Let_def
  by (auto split: option.splits if_splits intro: signed_root simp: modp_range)

text \<open>C23. The map of field elements to the curve is sound: \<^verbatim>\<open>mapToPoint\<close> either returns coordinates of a point of
  the curve \<open>y\<^sup>2 = x\<^sup>3 + 3\<close> over the prime field, which the 64 bytes handed to \<^verbatim>\<open>G1.Unmarshal\<close> represent without
  loss, or reports that the mapping failed, or panics for want of an inverse; it has no other outcome.\<close>

theorem mapToPoint_sound:
  "case mapToPoint b of
     Inl e \<Rightarrow> e = NilPointer \<or> e = BadFtMapping
   | Inr (x, y) \<Rightarrow> on_curve x y
       \<and> big_SetBytes (PadLeftOrTrim (big_Bytes x) 32) = x \<and> length (PadLeftOrTrim (big_Bytes x) 32) = 32
       \<and> big_SetBytes (PadLeftOrTrim (big_Bytes y) 32) = y \<and> length (PadLeftOrTrim (big_Bytes y) 32) = 32"
proof (cases "mapToPoint b")
  case (Inl e)
  then show ?thesis unfolding mapToPoint_def Let_def by (auto split: option.splits if_splits)
next
  case (Inr xy)
  obtain x y where xy: "xy = (x, y)" by (cases xy)
  then have curve: "on_curve x y" using Inr by (intro mapToPoint_curve) simp
  then have "0 \<le> x" "x < 256 ^ 32" "0 \<le> y" "y < 256 ^ 32" using pPrime_pos(2) by (auto simp: on_curve_def)
  then show ?thesis using Inr xy curve by (simp add: PadLeftOrTrim_read)
qed

subsection \<open>Keys in contracts\<close>

lemma PublicKey_BigInt_roundtrip:
  assumes "length (G2_Marshal N p) = 128"
  shows "UnmarshalPublicKeyFromBigInt N (PublicKey_ToBigInt N p) = UnmarshalPublicKey N (G2_Marshal N p)"
proof -
  define k where "k = G2_Marshal N p"
  have k: "length k = 128" using assms by (simp add: k_def)
  have pad: "PadLeftOrTrim (big_Bytes (big_SetBytes (take 32 (drop i k)))) 32 = take 32 (drop i k)" if "i \<le> 96" for i
    using that k by (intro PadLeftOrTrim_bytes) simp
  have join: "take 32 (drop i k) @ drop (i + 32) k = drop i k" for i
    by (metis append_take_drop_id drop_drop add.commute)
  have "take 32 k @ take 32 (drop 32 k) @ take 32 (drop 64 k) @ take 32 (drop 96 k) = k"
    using join [of 0] join [of 32] join [of 64] k by simp
  then show ?thesis
    using pad [of 0] pad [of 32] pad [of 64] pad [of 96]
    by (simp add: UnmarshalPublicKeyFromBigInt_def PublicKey_ToBigInt_def Let_def k_def)
qed

end
