(* ===== verification/BlsDemo.thy ===== *)
theory BlsDemo
  imports BlsProps
begin

unbundle bit_operations_syntax

text \<open>
  An instance of the curve's interface for concrete evaluations. Points are numbers: a key times the point
  of a message is its signature. The hash is chosen so that every message is mapped to the field element
  \<open>demo_t\<close>, whose first candidate has the root 1. The large numbers are the steps of \<^verbatim>\<open>mapToPoint\<close> on it, with
  their quotients.
\<close>

definition demo_t :: int where
  "demo_t = 6981579325812040247371513400329354558261284070545482039653850621027750912565"

definition demo_x :: int where
  "demo_x = 16300804051298280266557810744150527230361199964009614164046675910434187948382"

lemma mod_cert: "x = q * pPrime + r \<Longrightarrow> 0 \<le> r \<Longrightarrow> r < pPrime \<Longrightarrow> x mod pPrime = r"
  by simp

lemma demo_steps:
  shows "mulmod demo_t demo_t pPrime = 14802157578949424533624809936192500038690120951249536762002775387649349656221"
    and "addmod 14802157578949424533624809936192500038690120951249536762002775387649349656221 4 pPrime = 14802157578949424533624809936192500038690120951249536762002775387649349656225"
    and "mulmod demo_t z0 pPrime = 9527569699163851082681887872910834979344763525656296499891458442422217962692"
    and "mulmod 9527569699163851082681887872910834979344763525656296499891458442422217962692 14802157578949424533624809936192500038690120951249536762002775387649349656225 pPrime = 14976176141679441801679261353683159332028384509708277483230413034459168931760"
    and "mulmod 9527569699163851082681887872910834979344763525656296499891458442422217962692 9527569699163851082681887872910834979344763525656296499891458442422217962692 pPrime = 21258255878669552065864787427194325150018570618144860702058787520987629657086"
    and "mulmod 21258255878669552065864787427194325150018570618144860702058787520987629657086 8041717479658138504116130083878477167531531625186094979709648328889950307493 pPrime = 3154315385450851015669207322472465351739742597097614650602407469069466738585"
    and "mulmod demo_t 3154315385450851015669207322472465351739742597097614650602407469069466738585 pPrime = 5587438820540994957892555486254869779753714936113971519616641243091243912167"
    and "addmod z1 (pPrime - 5587438820540994957892555486254869779753714936113971519616641243091243912167) pPrime = 16300804051298280266557810744150527230361199964009614164046675910434187948382"
    and "mulmod 16300804051298280266557810744150527230361199964009614164046675910434187948382 16300804051298280266557810744150527230361199964009614164046675910434187948382 pPrime = 12115031879128977066071435068792137729375948471535001835723390870591607187802"
    and "mulmod 12115031879128977066071435068792137729375948471535001835723390870591607187802 16300804051298280266557810744150527230361199964009614164046675910434187948382 pPrime = 21888242871839275222246405745257275088696311157297823662689037894645226208581"
    and "addmod 21888242871839275222246405745257275088696311157297823662689037894645226208581 3 pPrime = 1"
  unfolding mulmod_def addmod_def
  subgoal by (rule mod_cert [of _ 2226878154085022751674296478744055118311256685054847726907404417345572321988]) (simp_all add: demo_t_def z0_def z1_def pPrime_def)
  subgoal by (rule mod_cert [of _ 0]) (simp_all add: demo_t_def z0_def z1_def pPrime_def)
  subgoal by (rule mod_cert [of _ 1405971694312053997822634795474502400041563810650270576891]) (simp_all add: demo_t_def z0_def z1_def pPrime_def)
  subgoal by (rule mod_cert [of _ 6443120576521472733231226225204677997319662970815333698222084171262063007180]) (simp_all add: demo_t_def z0_def z1_def pPrime_def)
  subgoal by (rule mod_cert [of _ 4147184628018399811078486284807253946507824246135857646998345871335930435166]) (simp_all add: demo_t_def z0_def z1_def pPrime_def)
  subgoal by (rule mod_cert [of _ 7810260918955944381375361451136141395874205455638456288241085205879098162811]) (simp_all add: demo_t_def z0_def z1_def pPrime_def)
  subgoal by (rule mod_cert [of _ 1006115621573600291792874475072982721973420792947479661149561445927318844426]) (simp_all add: demo_t_def z0_def z1_def pPrime_def)
  subgoal by (rule mod_cert [of _ 0]) (simp_all add: demo_t_def z0_def z1_def pPrime_def)
  subgoal by (rule mod_cert [of _ 12139677646792038663730509981612420010879587621778092025108899580715988160134]) (simp_all add: demo_t_def z0_def z1_def pPrime_def)
  subgoal by (rule mod_cert [of _ 9022412712305523979309800596294489688010941645196437843050574543007145942401]) (simp_all add: demo_t_def z0_def z1_def pPrime_def)
  subgoal by (rule mod_cert [of _ 1]) (simp_all add: demo_t_def z0_def z1_def pPrime_def)
  done

lemma demo_inverse: "inversemod 14976176141679441801679261353683159332028384509708277483230413034459168931760 pPrime = Some 8041717479658138504116130083878477167531531625186094979709648328889950307493"
  unfolding inversemod_def
  by (rule big_ModInverse_cert, simp_all only: mod_cert [of "14976176141679441801679261353683159332028384509708277483230413034459168931760 * 8041717479658138504116130083878477167531531625186094979709648328889950307493" "5502231410815053141532230291218165641947524940393209984287106255134078626713" 1]) (simp_all add: pPrime_def)

lemma demo_Jacobi: "Jacobi (nat demo_t) (nat pPrime) = - 1" "Jacobi (nat 1) (nat pPrime) = 1"
  unfolding demo_t_def pPrime_def by (simp_all add: Jacobi.simps odd_part.simps)

lemma demo_sqrt: "sqrtp demo_t = None" "sqrtp 1 = Some 1"
proof -
  have "demo_t mod pPrime = demo_t" "1 mod pPrime = 1" by (simp_all add: demo_t_def pPrime_def)
  then show "sqrtp demo_t = None" "sqrtp 1 = Some 1"
    by (simp_all add: sqrtp_def big_ModSqrt_def demo_Jacobi Let_def big_Exp_power pPrime_pos(1) mulmod_def del: nat_1)
qed

lemma demo_map: "mapToPoint demo_t = Inr (demo_x, pPrime - 1)"
  unfolding mapToPoint_def Let_def demo_steps demo_inverse option.case curve_rhs_def demo_sqrt
  by (simp add: demo_x_def)

definition demo_bytes :: "byte list" where
  "demo_bytes = be_bytes 32 demo_t"

definition demo_sha256 :: "byte list \<Rightarrow> byte list" where
  "demo_sha256 bs =
    (if bs ! 32 = 1 then replicate 16 0 @ take 16 demo_bytes
     else if bs ! 32 = 2 then drop 16 demo_bytes @ replicate 16 0
     else demo_bytes)"

definition demo_curve :: "(int, int) Bn256" where
  "demo_curve =
    \<lparr> G1_Unmarshal = (\<lambda>bs. Some (big_SetBytes bs)), G1_Marshal = big_Bytes, G1_IsInfinity = (\<lambda>g. g = 0),
      G1_InCorrectSubgroup = (\<lambda>_. True), G1_New = 0, G1_Add = (+), G1_ScalarMult = (*),
      G2_Unmarshal = (\<lambda>bs. Some (big_SetBytes bs)), G2_Marshal = big_Bytes, G2_IsInfinity = (\<lambda>g. g = 0),
      G2_InCorrectSubgroup = (\<lambda>_. True), G2_New = 0, G2_Add = (+), G2_ScalarMult = (*),
      PairingCheck = (\<lambda>g1s g2s. g1s ! 0 = g1s ! 1 * g2s ! 1), Sha256 = demo_sha256 \<rparr>"

definition demo_point :: int where
  "demo_point = 2 * big_SetBytes (PadLeftOrTrim (big_Bytes demo_x) 32 @ PadLeftOrTrim (big_Bytes (pPrime - 1)) 32)"

lemma demo_bytes_length: "length demo_bytes = 32"
  by (simp add: demo_bytes_def)

lemma demo_bytes_read: "big_SetBytes demo_bytes = demo_t"
  by (simp add: demo_bytes_def big_SetBytes_be_bytes demo_t_def)

lemma demo_sha256_length: "length (demo_sha256 bs) = 32"
  by (simp add: demo_sha256_def demo_bytes_length)

lemma demo_sha256_counter:
  assumes "length xs = 32"
  shows "demo_sha256 (xs @ [1] @ ys) = replicate 16 0 @ take 16 demo_bytes"
    and "demo_sha256 (xs @ [2] @ ys) = drop 16 demo_bytes @ replicate 16 0"
    and "demo_sha256 (xs @ [3] @ ys) = demo_bytes"
  using assms by (simp_all add: demo_sha256_def nth_append)

lemma demo_expand:
  assumes "length domain \<le> 255"
  shows "expandMsgSHA256XMD demo_sha256 msg domain 96 =
    Inr ((replicate 16 0 @ demo_bytes) @ (replicate 16 0 @ demo_bytes))"
proof -
  let ?b1 = "replicate 16 0 @ take 16 demo_bytes :: byte list" and ?b2 = "drop 16 demo_bytes @ replicate 16 0"
  have len: "length ?b1 = 32" "length ?b2 = 32" by (simp_all add: demo_bytes_length)
  have "xmd_blocks demo_sha256 domain b0 ?b1 1 2 = ?b1 @ ?b2 @ demo_bytes" if "length b0 = 32" for b0
  proof -
    have two: "1 + of_nat 1 = (2 :: byte)" "1 + of_nat (Suc 1) = (3 :: byte)" by simp_all
    have "length (map2 (XOR) b0 ?b1) = 32" "length (map2 (XOR) b0 ?b2) = 32" using that len by (simp_all only: length_map length_zip min.idem)
    note sha = demo_sha256_counter(2) [OF this(1)] demo_sha256_counter(3) [OF this(2)]
    show ?thesis unfolding numeral_2_eq_2 xmd_blocks.simps two sha ..
  qed
  from this [OF demo_sha256_length]
  have "expandMsgSHA256XMD demo_sha256 msg domain 96 = Inr (take 96 (?b1 @ ?b2 @ demo_bytes))"
    unfolding expandMsgSHA256XMD_def Let_def demo_sha256_counter(1) [OF demo_sha256_length] using assms by simp
  also have "?b1 @ ?b2 @ demo_bytes = (replicate 16 0 @ demo_bytes) @ (replicate 16 0 @ demo_bytes)"
    unfolding append_assoc by (simp only: append_assoc [symmetric, of "take 16 demo_bytes"] append_take_drop_id)
  finally show ?thesis by (simp add: demo_bytes_length)
qed

text \<open>Every message has the point \<open>demo_point\<close>.\<close>

lemma demo_hash:
  assumes "length domain \<le> 255"
  shows "hashToPoint demo_curve msg domain = Inr demo_point"
proof -
  have red: "reduceFp demo_t = demo_t" by (simp add: reduceFp_def demo_t_def modulus_def)
  have "hashToFpXMDSHA256 demo_sha256 msg domain 2 = Inr [demo_t, demo_t]"
    using demo_expand [OF assms, of msg]
    by (simp add: hashToFpXMDSHA256_def demo_bytes_length big_SetBytes_zeros demo_bytes_read red upt_rec del: append_assoc)
  moreover have "mapToG1Point demo_curve demo_t =
    Inr (big_SetBytes (PadLeftOrTrim (big_Bytes demo_x) 32 @ PadLeftOrTrim (big_Bytes (pPrime - 1)) 32))"
    by (simp add: mapToG1Point_def demo_map demo_curve_def)
  ultimately show ?thesis by (simp add: hashToPoint_def demo_point_def) (simp add: demo_curve_def)
qed

lemma demo_point_pos: "0 < demo_point"
proof -
  let ?a = "PadLeftOrTrim (big_Bytes demo_x) 32" and ?b = "PadLeftOrTrim (big_Bytes (pPrime - 1)) 32"
  have "big_SetBytes ?b = pPrime - 1" using pPrime_pos by (intro PadLeftOrTrim_read) simp_all
  moreover have "big_SetBytes ys \<le> big_SetBytes (xs @ ys)" for xs ys
    by (induction ys rule: rev_induct) (simp_all flip: append_assoc)
  ultimately have "pPrime - 1 \<le> big_SetBytes (?a @ ?b)" by metis
  then show ?thesis unfolding demo_point_def by (simp add: pPrime_def)
qed

text \<open>The instance has the documented behaviour: keys and signatures can be read back.\<close>

lemma demo_key: "0 < k \<Longrightarrow> UnmarshalPublicKey demo_curve (G2_Marshal demo_curve k) = Inr k"
  by (simp add: UnmarshalPublicKey_def demo_curve_def big_SetBytes_big_Bytes)

lemma demo_signature: "0 < s \<Longrightarrow> UnmarshalSignature demo_curve (big_Bytes s) = Inr s"
proof -
  assume "0 < s"
  then have "big_Bytes s \<noteq> []" using length_big_Bytes [of s 0] by auto
  then show ?thesis using \<open>0 < s\<close> by (simp add: UnmarshalSignature_def demo_curve_def big_SetBytes_big_Bytes)
qed

lemma demo_aggregate: "PublicKeys_Aggregate demo_curve ks = sum_list ks"
  by (induction ks rule: rev_induct) (simp_all add: PublicKeys_Aggregate_def demo_curve_def)

lemma demo_verify:
  "length domain \<le> 255 \<Longrightarrow>
    VerifyAggregated demo_curve s ks msg domain = Inr (s = demo_point * sum_list ks)"
  by (simp add: VerifyAggregated_def Signature_VerifyBls_def demo_hash demo_aggregate) (simp add: demo_curve_def)

end
