(* ===== verification/ExtraProps.thy ===== *)
theory ExtraProps
  imports Extra ValidatorsProps BlsDemo RlpProps
begin

text \<open>
  Properties of the extra field: reading undoes writing, the hash of a header does not depend on its seals,
  and two finalised blocks of one height have signers in common with a third of the voting power.
\<close>

subsection \<open>Reading undoes writing\<close>

definition accounts_ok :: "('g1, 'k) Bn256 \<Rightarrow> 'k AccountSet \<Rightarrow> bool" where
  "accounts_ok N as \<longleftrightarrow>
    (\<forall>v \<in> set as. UnmarshalPublicKey N (G2_Marshal N (vm_BlsKey v)) = Inr (vm_BlsKey v) \<and> 0 \<le> vm_VotingPower v)"

definition delta_ok :: "('g1, 'k) Bn256 \<Rightarrow> 'k ValidatorSetDelta option \<Rightarrow> bool" where
  "delta_ok N d \<longleftrightarrow> (case d of None \<Rightarrow> True | Some d \<Rightarrow> accounts_ok N (vd_Added d) \<and> accounts_ok N (vd_Updated d))"

lemma Metadata_read:
  assumes "fastrlp_ok R pv" "accounts_ok N [v]"
  shows "ValidatorMetadata_UnmarshalRLPWith R N (pv (ValidatorMetadata_MarshalRLPWith R N v)) = Inr v"
  using assms(2)
  by (simp add: ValidatorMetadata_UnmarshalRLPWith_def ValidatorMetadata_MarshalRLPWith_def fastrlp_simps [OF assms(1)]
      accounts_ok_def)

lemma Validators_read:
  assumes "fastrlp_ok R pv" "accounts_ok N as"
  shows "unmarshalValidators R N (map (\<lambda>v. pv (ValidatorMetadata_MarshalRLPWith R N v)) as) = Inr as"
  using assms(2) by (induction as) (simp_all add: Metadata_read [OF assms(1)] accounts_ok_def)

lemma Delta_read:
  assumes "fastrlp_ok R pv" "delta_ok N (Some d)"
  shows "ValidatorSetDelta_UnmarshalRLPWith R N (pv (ValidatorSetDelta_MarshalRLPWith R N d)) = Inr d"
  using assms(2)
  by (simp add: ValidatorSetDelta_UnmarshalRLPWith_def ValidatorSetDelta_MarshalRLPWith_def fastrlp_simps [OF assms(1)]
      Validators_read [OF assms(1)] delta_ok_def comp_def)

lemma Signature_read:
  assumes "fastrlp_ok R pv"
  shows "Signature_UnmarshalRLPWith R (pv (Signature_MarshalRLPWith R s)) = Inr s"
  by (auto simp: Signature_UnmarshalRLPWith_def Signature_MarshalRLPWith_def fastrlp_simps [OF assms] need_def
      split: option.splits)

lemma Checkpoint_read:
  assumes "fastrlp_ok R pv"
  shows "CheckpointData_UnmarshalRLPWith R (pv (CheckpointData_MarshalRLPWith R c)) = Inr c"
  by (simp add: CheckpointData_UnmarshalRLPWith_def CheckpointData_MarshalRLPWith_def fastrlp_simps [OF assms])

lemma elems_present:
  assumes "fastrlp_ok R pv"
  shows "0 < ElemsOf R (pv (ValidatorSetDelta_MarshalRLPWith R N d))"
    and "0 < ElemsOf R (pv (Signature_MarshalRLPWith R s))"
    and "0 < ElemsOf R (pv (CheckpointData_MarshalRLPWith R c))"
  by (simp_all add: ValidatorSetDelta_MarshalRLPWith_def Signature_MarshalRLPWith_def
      CheckpointData_MarshalRLPWith_def fastrlp_simps [OF assms])

lemma Extra_read:
  assumes "fastrlp_ok R pv" "delta_ok N (ex_Validators i)"
  shows "Extra_UnmarshalRLPWith R N (pv (Extra_MarshalRLPWith R N i)) = Inr i"
proof -
  have d: "unmarshalPresent (0 < ElemsOf R v) (ValidatorSetDelta_UnmarshalRLPWith R N) v = Inr (ex_Validators i)"
    if "v = pv (case ex_Validators i of None \<Rightarrow> NewNullArray R | Some d \<Rightarrow> ValidatorSetDelta_MarshalRLPWith R N d)" for v
    using assms that by (cases "ex_Validators i") (simp_all add: unmarshalPresent_def fastrlp_simps elems_present Delta_read)
  have s: "unmarshalPresent (0 < ElemsOf R v) (Signature_UnmarshalRLPWith R) v = Inr x"
    if "v = pv (case x of None \<Rightarrow> NewNullArray R | Some d \<Rightarrow> Signature_MarshalRLPWith R d)" for v x
    using assms(1) that by (cases x) (simp_all add: unmarshalPresent_def fastrlp_simps elems_present Signature_read)
  have c: "unmarshalPresent (0 < ElemsOf R v) (CheckpointData_UnmarshalRLPWith R) v = Inr x"
    if "v = pv (case x of None \<Rightarrow> NewNullArray R | Some d \<Rightarrow> CheckpointData_MarshalRLPWith R d)" for v x
    using assms(1) that by (cases x) (simp_all add: unmarshalPresent_def fastrlp_simps elems_present Checkpoint_read)
  show ?thesis
    unfolding Extra_UnmarshalRLPWith_def Extra_MarshalRLPWith_def
    by (cases "ex_Seal i = []") (simp_all add: fastrlp_simps [OF assms(1)] d s c)
qed

text \<open>The extra field of a header is 32 bytes of vanity and the encoding.\<close>

definition headerExtra :: "('a, 'v) Codec \<Rightarrow> ('g1, 'k) Bn256 \<Rightarrow> 'k Extra \<Rightarrow> byte list" where
  "headerExtra R N i = replicate ExtraVanity 0 @ Extra_MarshalRLPTo R N i"

definition with_delta :: "'k Extra \<Rightarrow> 'k Extra" where
  "with_delta i = (if ex_Validators i = None then i\<lparr>ex_Validators := Some emptyDelta\<rparr> else i)"

lemma GetIbftExtra_headerExtra:
  assumes "fastrlp_ok R pv" "delta_ok N (ex_Validators i)" "length (Extra_MarshalRLPTo R N i) < 2 ^ 64"
  shows "GetIbftExtra R N (headerExtra R N i) = Inr (with_delta i)"
  using assms(2,3)
  by (simp add: GetIbftExtra_def headerExtra_def ExtraVanity_def Extra_UnmarshalRLP_def Extra_MarshalRLPTo_def
      fastrlp_simps [OF assms(1)] Extra_read [OF assms(1)] with_delta_def)

text \<open>The signers of a finalised block.\<close>

definition committedSigners :: "'k AccountSet \<Rightarrow> 'k Extra \<Rightarrow> address set" where
  "committedSigners validators i =
    (case ex_Committed i of
       None \<Rightarrow> {}
     | Some s \<Rightarrow> (case GetFilteredValidators validators (sg_Bitmap s) of Inl _ \<Rightarrow> {} | Inr f \<Rightarrow> GetAddressesAsSet f))"

lemma ValidateFinalizedData_signed:
  assumes "ValidateFinalizedData E i h p GetVals chainID domain = Inr ()" "GetVals (hd_Number h - 1) = Inr as"
  shows "\<exists>s c ch. ex_Committed i = Some s \<and> ex_Checkpoint i = Some c
    \<and> CheckpointData_Hash E c chainID (hd_Number h) (hd_Hash h) = Inr ch
    \<and> Signature_Verify (be_N E) s as ch domain = Inr ()"
  using assms unfolding ValidateFinalizedData_def Let_def
  by (auto simp: rbind_def need_def split: option.splits sum.splits)

lemma Signature_Verify_signers:
  assumes "Signature_Verify N s as h domain = Inr ()" "ex_Committed i = Some s"
  shows "\<exists>vs. NewValidatorSet as = Inr vs \<and> HasQuorum vs (committedSigners as i)
    \<and> committedSigners as i \<subseteq> vm_Address ` set as"
  using Signature_Verify_quorum [OF assms(1)] GetFilteredValidators_subset [of as "sg_Bitmap s"] assms(2)
  by (force simp: committedSigners_def GetAddressesAsSet_def)

lemma finalized_intersect:
  assumes "ValidateFinalizedData E i h p GetVals chainID domain = Inr ()"
    and "ValidateFinalizedData E i' h' p' GetVals chainID domain = Inr ()"
    and "hd_Number h = hd_Number h'" "GetVals (hd_Number h - 1) = Inr as"
    and "\<forall>v \<in> set as. 0 \<le> vm_VotingPower v"
  shows "GetTotalVotingPower as \<le> 3 * (\<Sum>a\<in>committedSigners as i \<inter> committedSigners as i'. votingPowerOf as a)"
proof -
  obtain s ch where s: "ex_Committed i = Some s" "Signature_Verify (be_N E) s as ch domain = Inr ()"
    using ValidateFinalizedData_signed [OF assms(1,4)] by auto
  obtain s' ch' where s': "ex_Committed i' = Some s'" "Signature_Verify (be_N E) s' as ch' domain = Inr ()"
    using ValidateFinalizedData_signed [OF assms(2) assms(4) [unfolded assms(3)]] by auto
  obtain vs where vs: "NewValidatorSet as = Inr vs" "HasQuorum vs (committedSigners as i)"
    "committedSigners as i \<subseteq> vm_Address ` set as" using Signature_Verify_signers [OF s(2,1)] by blast
  then have "HasQuorum vs (committedSigners as i')" "committedSigners as i' \<subseteq> vm_Address ` set as"
    using Signature_Verify_signers [OF s'(2,1)] by auto
  then show ?thesis using quorums_intersect [OF vs(1) assms(5) vs(2)] vs(3) by simp
qed

subsection \<open>Properties\<close>

text \<open>C14. Accountable finality: if the extra fields of two headers of the same height both pass the checks of a
  finalised block against the same validators, then the validators that signed both of them have at least
  a third of the total voting power. Fewer dishonest validators than that cannot finalise two blocks.\<close>

theorem finality_accountable:
  assumes "ValidateFinalizedData E i h p GetVals chainID domain = Inr ()"
    and "ValidateFinalizedData E i' h' p' GetVals chainID domain = Inr ()"
    and "hd_Number h = hd_Number h'" "GetVals (hd_Number h - 1) = Inr as"
    and "\<forall>v \<in> set as. 0 \<le> vm_VotingPower v"
  shows "GetTotalVotingPower as \<le> 3 * (\<Sum>a\<in>committedSigners as i \<inter> committedSigners as i'. votingPowerOf as a)"
  using assms by (rule finalized_intersect)

text \<open>C15. The delta in a header carries the change of the validator set: if the delta passes \<^verbatim>\<open>ValidateDelta\<close> for an old
  and a new set with distinct addresses, then applying it to the old set succeeds and gives the validators
  of the new set, each once, up to their order.\<close>

theorem delta_transition:
  assumes "distinct (map vm_Address old)" "0 \<notin> vm_Address ` set old" "length old + 8 < 2 ^ 63"
    and "distinct (map vm_Address new)" "ValidateDelta i old new = Inr ()"
  shows "\<exists>r. ApplyDelta old (ex_Validators i) = Inr r \<and> mset r = mset new"
proof -
  obtain d where "createValidatorSetDelta old new = Inr d" "ex_Validators i = Some d"
    using assms(5) unfolding ValidateDelta_def
    by (auto simp: rbind_def need_def split: sum.splits option.splits if_splits)
  then show ?thesis using delta_applies [OF assms(1-4)] by simp
qed

text \<open>C22. Reading the extra field of a header returns what was written to it, with an absent delta read as the
  empty one, for a library of RLP with the documented behaviour and validators whose keys the curve can
  read back.\<close>

theorem Extra_roundtrip:
  assumes "fastrlp_ok R pv" "delta_ok N (ex_Validators i)" "length (Extra_MarshalRLPTo R N i) < 2 ^ 64"
  shows "GetIbftExtra R N (replicate ExtraVanity 0 @ Extra_MarshalRLPTo R N i) =
    Inr (if ex_Validators i = None then i\<lparr>ex_Validators := Some emptyDelta\<rparr> else i)"
  using GetIbftExtra_headerExtra [OF assms] by (simp add: headerExtra_def with_delta_def)

subsection \<open>Witnesses\<close>

definition demo_vm :: "address \<Rightarrow> int \<Rightarrow> int \<Rightarrow> int ValidatorMetadata" where
  "demo_vm a k p = \<lparr>vm_Address = a, vm_BlsKey = k, vm_VotingPower = p, vm_IsActive = True\<rparr>"

definition demo_accounts :: "int AccountSet" where
  "demo_accounts = [demo_vm 1 5 1, demo_vm 2 7 1, demo_vm 3 11 1]"

definition demo_bft :: "(Item, Item, int, int) BftEnv" where
  "demo_bft = \<lparr>be_R = demo_codec, be_N = demo_curve, be_AbiCheckpoint = (\<lambda>_. Some []), be_AbiAccounts = (\<lambda>_. Some [1])\<rparr>"

definition demo_checkpoint :: CheckpointData where
  "demo_checkpoint = \<lparr>cd_BlockRound = 0, cd_EpochNumber = 0, cd_CurrentValidatorsHash = 1,
     cd_NextValidatorsHash = 1, cd_EventRoot = 0\<rparr>"

definition demo_extra :: "Signature option \<Rightarrow> int Extra" where
  "demo_extra s = \<lparr>ex_Validators = None, ex_Seal = [], ex_Parent = None, ex_Committed = s,
     ex_Checkpoint = Some demo_checkpoint\<rparr>"

definition demo_sealed :: "int list \<Rightarrow> byte \<Rightarrow> int Extra" where
  "demo_sealed ks bm = demo_extra (Some \<lparr>sg_AggregatedSignature = big_Bytes (demo_point * sum_list ks), sg_Bitmap = [bm]\<rparr>)"

definition demo_parent :: Header where
  "demo_parent = zeroHeader\<lparr>hd_ExtraData := headerExtra demo_codec demo_curve (demo_extra None)\<rparr>"

lemma demo_parent_extra:
  "GetIbftExtra demo_codec demo_curve (hd_ExtraData demo_parent) = Inr ((demo_extra None)\<lparr>ex_Validators := Some emptyDelta\<rparr>)"
proof -
  have "rlp_bound (Extra_MarshalRLPWith demo_codec demo_curve (demo_extra None)) < 2 ^ 63"
    by (simp add: Extra_MarshalRLPWith_def CheckpointData_MarshalRLPWith_def demo_extra_def demo_checkpoint_def demo_sizes)
  then have "length (Extra_MarshalRLPTo demo_codec demo_curve (demo_extra None)) < 2 ^ 64"
    using demo_small by (fastforce simp: Extra_MarshalRLPTo_def)
  moreover have "delta_ok demo_curve (ex_Validators (demo_extra None))" by (simp add: demo_extra_def delta_ok_def)
  ultimately show ?thesis
    using GetIbftExtra_headerExtra [OF demo_codec_ok, of demo_curve "demo_extra None"]
    by (simp add: demo_parent_def with_delta_def demo_extra_def)
qed

lemma demo_finalized:
  assumes "GetFilteredValidators demo_accounts [bm] = Inr signers" "ks = map vm_BlsKey signers" "0 < sum_list ks"
    and "\<not> (case NewValidatorSet demo_accounts of Inl _ \<Rightarrow> True | Inr vs \<Rightarrow> \<not> HasQuorum vs (GetAddressesAsSet signers))"
  shows "ValidateFinalizedData demo_bft (demo_sealed ks bm) (zeroHeader\<lparr>hd_Number := 1, hd_Hash := h\<rparr>) demo_parent
    (\<lambda>_. Inr demo_accounts) 0 [] = Inr ()"
proof -
  have "0 < demo_point * sum_list ks" using demo_point_pos assms(3) by simp
  then have "Signature_Verify demo_curve \<lparr>sg_AggregatedSignature = big_Bytes (demo_point * sum_list ks), sg_Bitmap = [bm]\<rparr>
    demo_accounts ch [] = Inr ()" for ch
    using assms(1,2,4) demo_signature [of "demo_point * sum_list ks"]
    by (auto simp: Signature_Verify_def demo_verify rbind_def split: sum.splits)
  then show ?thesis
    using demo_parent_extra
    by (simp add: ValidateFinalizedData_def demo_sealed_def demo_bft_def demo_extra_def CheckpointData_Hash_def
        ValidateParentSignatures_def CheckpointData_ValidateBasic_def demo_checkpoint_def)
qed

theorem finality_accountable_witness:
  "GetTotalVotingPower demo_accounts \<le>
    3 * (\<Sum>a\<in>committedSigners demo_accounts (demo_sealed [5, 7, 11] 7) \<inter> committedSigners demo_accounts (demo_sealed [5, 7] 3).
      votingPowerOf demo_accounts a)"
  apply (rule finality_accountable [where E = demo_bft and GetVals = "\<lambda>_. Inr demo_accounts" and domain = "[]" and chainID = 0
      and h = "zeroHeader\<lparr>hd_Number := 1, hd_Hash := 1\<rparr>" and h' = "zeroHeader\<lparr>hd_Number := 1, hd_Hash := 2\<rparr>"
      and p = demo_parent and p' = demo_parent])
  subgoal by (rule demo_finalized [of _ demo_accounts]) (code_simp | simp add: demo_accounts_def demo_vm_def)+
  subgoal by (rule demo_finalized [of _ "take 2 demo_accounts"]) (code_simp | simp add: demo_accounts_def demo_vm_def)+
  subgoal by simp
  subgoal by simp
  subgoal by (simp add: demo_accounts_def demo_vm_def)
  done

theorem delta_transition_witness:
  "\<exists>r. ApplyDelta demo_accounts
      (Some \<lparr>vd_Added = [demo_vm 4 13 2], vd_Updated = [demo_vm 2 7 9], vd_Removed = [1]\<rparr>) = Inr r
    \<and> mset r = mset [demo_vm 4 13 2, demo_vm 3 11 1, demo_vm 2 7 9]"
proof -
  let ?d = "\<lparr>vd_Added = [demo_vm 4 13 2], vd_Updated = [demo_vm 2 7 9], vd_Removed = [1]\<rparr>"
  let ?x = "(demo_extra None)\<lparr>ex_Validators := Some ?d\<rparr>"
  have "ValidateDelta ?x demo_accounts [demo_vm 4 13 2, demo_vm 3 11 1, demo_vm 2 7 9] = Inr ()" by code_simp
  from delta_transition [OF _ _ _ _ this] show ?thesis by (simp add: demo_accounts_def demo_vm_def)
qed

theorem Extra_roundtrip_witness:
  "GetIbftExtra demo_codec demo_curve (replicate ExtraVanity 0 @ Extra_MarshalRLPTo demo_codec demo_curve
      ((demo_extra None)\<lparr>ex_Validators := Some \<lparr>vd_Added = [demo_vm 4 13 2], vd_Updated = [], vd_Removed = [1]\<rparr>\<rparr>)) =
    Inr ((demo_extra None)\<lparr>ex_Validators := Some \<lparr>vd_Added = [demo_vm 4 13 2], vd_Updated = [], vd_Removed = [1]\<rparr>\<rparr>)"
proof -
  let ?x = "(demo_extra None)\<lparr>ex_Validators := Some \<lparr>vd_Added = [demo_vm 4 13 2], vd_Updated = [], vd_Removed = [1]\<rparr>\<rparr>"
  have "length (G2_Marshal demo_curve 13) \<le> 1" unfolding demo_curve_def by (simp add: length_big_Bytes)
  then have "rlp_bound (Extra_MarshalRLPWith demo_codec demo_curve ?x) < 2 ^ 63"
    by (simp add: Extra_MarshalRLPWith_def CheckpointData_MarshalRLPWith_def ValidatorSetDelta_MarshalRLPWith_def
        ValidatorMetadata_MarshalRLPWith_def demo_extra_def demo_checkpoint_def demo_vm_def demo_sizes)
  then have "length (Extra_MarshalRLPTo demo_codec demo_curve ?x) < 2 ^ 64"
    using demo_small by (fastforce simp: Extra_MarshalRLPTo_def)
  moreover have "delta_ok demo_curve (ex_Validators ?x)"
    by (simp add: delta_ok_def accounts_ok_def demo_vm_def demo_key)
  ultimately show ?thesis using Extra_roundtrip [OF demo_codec_ok, of demo_curve ?x] by simp
qed

end
