(* ===== verification/ProposerProps.thy ===== *)
theory ProposerProps
  imports Proposer ExtraProps
begin

text \<open>
  The election of proposers on lists of priorities, and the refinement of the operations on cells to it: the
  proposer of a round is the same on every node, whatever rounds a node has calculated before, and every
  validator with voting power is elected within a bounded number of rounds.
\<close>

subsection \<open>Centring\<close>

definition spread :: "int list \<Rightarrow> int" where
  "spread ps = Max (set ps) - Min (set ps)"

definition rescaled :: "int \<Rightarrow> int list \<Rightarrow> int list" where
  "rescaled T ps =
    (if 2 * T < spread ps then map (\<lambda>p. big_Quo p ((spread ps + 2 * T - 1) div (2 * T))) ps else ps)"

definition shifted :: "int list \<Rightarrow> int list" where
  "shifted ps = map (\<lambda>p. p - sum_list ps div int (length ps)) ps"

definition centred :: "int \<Rightarrow> int list \<Rightarrow> int list" where
  "centred T ps = shifted (rescaled T ps)"

lemma length_centred [simp]: "length (centred T ps) = length ps"
  by (simp add: centred_def shifted_def rescaled_def)

lemma spread_le:
  assumes "ps \<noteq> []" "\<And>p q. p \<in> set ps \<Longrightarrow> q \<in> set ps \<Longrightarrow> p - q \<le> d"
  shows "spread ps \<le> d"
  unfolding spread_def using assms by (simp add: assms(2))

lemma spread_ge: "p \<in> set ps \<Longrightarrow> q \<in> set ps \<Longrightarrow> p - q \<le> spread ps"
  unfolding spread_def by (simp add: diff_mono)

lemma big_Quo_window:
  fixes p q m r :: int
  assumes "0 < r" "0 \<le> m" "p - q \<le> m * r"
  shows "big_Quo p r - big_Quo q r \<le> m"
proof -
  have pos: "a div r - b div r \<le> m" if "a - b \<le> m * r" for a b
  proof -
    have "a div r \<le> (b + m * r) div r" using that assms(1) by (intro zdiv_mono1) auto
    then show ?thesis using assms(1) by simp
  qed
  have neg: "big_Quo x r = (if 0 \<le> x then x div r else - ((- x) div r))" for x
    using assms(1) by (simp add: big_Quo_def sgn_if)
  consider "0 \<le> p" "0 \<le> q" | "p < 0" "q < 0" | "0 \<le> p" "q < 0" | "p < 0" "0 \<le> q" by linarith
  then show ?thesis
  proof cases
    case 2
    then show ?thesis using pos [of "- q" "- p"] assms(3) by (simp add: neg)
  next
    case 3
    have "p div r + (- q) div r \<le> (p - q) div r" 
      using div_add1_eq [of p "- q" r] assms(1) by (simp add: pos_imp_zdiv_nonneg_iff)
    also have "\<dots> \<le> m" using pos [of "p - q" 0] assms(3) by simp
    finally show ?thesis using 3 by (simp add: neg)
  next
    case 4
    then have "0 \<le> (- p) div r" "0 \<le> q div r" using assms(1) by (simp_all add: pos_imp_zdiv_nonneg_iff)
    then show ?thesis using 4 assms(2) by (simp add: neg)
  qed (use pos [of p q] assms(3) in \<open>simp add: neg\<close>)
qed

lemma ceil_ratio:
  fixes d m :: int
  assumes "0 < m" "0 < d"
  shows "0 < (d + m - 1) div m" "d \<le> m * ((d + m - 1) div m)"
proof -
  have "m div m \<le> (d + m - 1) div m" using assms by (intro zdiv_mono1) auto
  then show "0 < (d + m - 1) div m" using assms by simp
  have "(d + m - 1) mod m \<le> m - 1" using assms(1) pos_mod_bound [of m "d + m - 1"] by linarith
  then show "d \<le> m * ((d + m - 1) div m)" using mult_div_mod_eq [of m "d + m - 1"] by linarith
qed

lemma spread_rescaled:
  assumes "0 < T" "ps \<noteq> []"
  shows "spread (rescaled T ps) \<le> 2 * T"
proof (cases "2 * T < spread ps")
  case True
  define r where "r = (spread ps + 2 * T - 1) div (2 * T)"
  have r: "0 < r" "spread ps \<le> 2 * T * r" using ceil_ratio [of "2 * T" "spread ps"] assms(1) True by (auto simp: r_def)
  have "p - q \<le> 2 * T * r" if "p \<in> set ps" "q \<in> set ps" for p q
    using spread_ge [OF that] r(2) by linarith
  then show ?thesis using assms True r(1) unfolding rescaled_def r_def [symmetric]
    by (auto intro!: spread_le big_Quo_window)
qed (simp add: rescaled_def)

lemma spread_shifted: "ps \<noteq> [] \<Longrightarrow> spread (shifted ps) \<le> spread ps"
  by (intro spread_le) (auto simp: shifted_def dest: spread_ge)

lemma sum_shifted:
  assumes "ps \<noteq> []"
  shows "0 \<le> sum_list (shifted ps)" "sum_list (shifted ps) < int (length ps)"
proof -
  have "sum_list (map (\<lambda>p. p - c) xs) = sum_list xs - int (length xs) * c" for c and xs :: "int list"
    by (induction xs) (auto simp: algebra_simps)
  then have "sum_list (shifted ps) = sum_list ps mod int (length ps)"
    by (simp add: shifted_def minus_mult_div_eq_mod)
  then show "0 \<le> sum_list (shifted ps)" "sum_list (shifted ps) < int (length ps)"
    using assms by auto
qed

text \<open>Priorities are centred if centring does not change them.\<close>

definition is_centred :: "int \<Rightarrow> int list \<Rightarrow> bool" where
  "is_centred T ps \<longleftrightarrow> ps \<noteq> [] \<and> spread ps \<le> 2 * T \<and> 0 \<le> sum_list ps \<and> sum_list ps < int (length ps)"

lemma centred_ok: "0 < T \<Longrightarrow> ps \<noteq> [] \<Longrightarrow> is_centred T (centred T ps)"
  using spread_rescaled [of T ps] spread_shifted [of "rescaled T ps"] sum_shifted [of "rescaled T ps"]
  unfolding is_centred_def by (auto simp: centred_def shifted_def rescaled_def split: if_splits)

lemma centred_id: "is_centred T ps \<Longrightarrow> centred T ps = ps"
  by (auto simp: is_centred_def centred_def rescaled_def shifted_def div_pos_pos_trivial)

lemma centred_idem: "0 < T \<Longrightarrow> ps \<noteq> [] \<Longrightarrow> centred T (centred T ps) = centred T ps"
  by (simp add: centred_id centred_ok)

subsection \<open>Rounds\<close>

definition best :: "int list \<Rightarrow> nat" where
  "best ps = length (takeWhile (\<lambda>p. p \<noteq> Max (set ps)) ps)"

definition elect :: "int \<Rightarrow> int list \<Rightarrow> int list \<Rightarrow> nat \<times> int list" where
  "elect T ws ps = (let qs = map2 (+) ps ws; i = best qs in (i, qs[i := qs ! i - T]))"

fun priosAt :: "int \<Rightarrow> int list \<Rightarrow> int list \<Rightarrow> nat \<Rightarrow> int list" where
  "priosAt T ws ps 0 = ps"
| "priosAt T ws ps (Suc r) = snd (elect T ws (priosAt T ws ps r))"

definition electedAt :: "int \<Rightarrow> int list \<Rightarrow> int list \<Rightarrow> nat \<Rightarrow> nat" where
  "electedAt T ws ps r = fst (elect T ws (priosAt T ws ps r))"

lemma best_Max:
  assumes "ps \<noteq> []"
  shows "best ps < length ps" "ps ! best ps = Max (set ps)"
proof -
  define m where "m = Max (set ps)"
  have "m \<in> set ps" using assms by (simp add: m_def)
  then obtain xs ys where ps: "ps = xs @ m # ys" "m \<notin> set xs" by (meson split_list_first)
  then have "takeWhile (\<lambda>p. p \<noteq> m) ps = xs" by (subst ps(1), subst takeWhile_append2) auto
  then show "best ps < length ps" using ps(1) unfolding best_def m_def [symmetric] by simp
  then show "ps ! best ps = Max (set ps)" using nth_length_takeWhile [of "\<lambda>p. p \<noteq> Max (set ps)" ps] by (simp add: best_def)
qed

lemma elect_length [simp]: "length ws = length ps \<Longrightarrow> length (snd (elect T ws ps)) = length ps"
  by (simp add: elect_def Let_def)

lemma priosAt_length [simp]: "length ws = length ps \<Longrightarrow> length (priosAt T ws ps r) = length ps"
  by (induction r) auto

lemma electedAt_less: "length ws = length ps \<Longrightarrow> ps \<noteq> [] \<Longrightarrow> electedAt T ws ps r < length ps"
  using best_Max(1) [of "map2 (+) (priosAt T ws ps r) ws"] priosAt_length [of ws ps T r]
  by (cases "priosAt T ws ps r"; cases ws) (auto simp: electedAt_def elect_def Let_def)

lemma sum_map2_add: "length ws = length ps \<Longrightarrow> sum_list (map2 (+) ps ws) = sum_list ps + sum_list ws" for ps ws :: "int list"
  by (induction ps ws rule: list_induct2') auto

lemma sum_list_update_minus: "i < length ps \<Longrightarrow> sum_list (ps[i := ps ! i - T]) = sum_list ps - T" for ps :: "int list"
  by (induction ps arbitrary: i) (auto split: nat.splits)

lemma Max_nonneg:
  fixes ps :: "int list"
  assumes "ps \<noteq> []" "0 \<le> sum_list ps"
  shows "0 \<le> Max (set ps)"
proof (rule ccontr)
  assume neg: "\<not> 0 \<le> Max (set ps)"
  have "q \<le> - 1" if "q \<in> set ps" for q using neg Max_ge [OF finite_set that] by linarith
  then have "sum_list ps \<le> sum_list (map (\<lambda>_. - 1) ps)" using sum_list_mono [of ps "\<lambda>q. q" "\<lambda>_. - 1"] by simp
  moreover have "0 < length ps" using assms(1) by simp
  ultimately show False using assms(2) by (simp add: sum_list_triv)
qed

lemma elect_round:
  fixes T :: int
  assumes "length ws = length ps" "ps \<noteq> []" "\<forall>w \<in> set ws. 0 \<le> w" "sum_list ws = T"
    and "\<forall>p \<in> set ps. - 2 * T \<le> p" "0 \<le> sum_list ps"
  shows "sum_list (snd (elect T ws ps)) = sum_list ps" "\<forall>p \<in> set (snd (elect T ws ps)). - 2 * T \<le> p"
proof -
  define qs where "qs = map2 (+) ps ws"
  have qs: "qs \<noteq> []" "sum_list qs = sum_list ps + T"
    using assms(1,2,4) sum_map2_add [OF assms(1)] by (auto simp: qs_def)
  note b = best_Max [OF qs(1)]
  have snd_elect: "snd (elect T ws ps) = qs[best qs := qs ! best qs - T]" by (simp add: elect_def Let_def qs_def)
  then show "sum_list (snd (elect T ws ps)) = sum_list ps" using b(1) qs(2) by (simp add: sum_list_update_minus)
  have "0 \<le> T" using assms(3,4) sum_list_nonneg by blast
  have "0 \<le> Max (set qs)" using Max_nonneg [OF qs(1)] qs(2) assms(6) \<open>0 \<le> T\<close> by simp
  moreover have "- 2 * T \<le> q" if "q \<in> set qs" for q
  proof -
    obtain p w where pw: "(p, w) \<in> set (zip ps ws)" "q = p + w" using \<open>q \<in> set qs\<close> unfolding qs_def by auto
    show ?thesis using pw(2) set_zip_leftD [OF pw(1)] set_zip_rightD [OF pw(1)] assms(3,5) by fastforce
  qed
  ultimately show "\<forall>p \<in> set (snd (elect T ws ps)). - 2 * T \<le> p"
    using snd_elect b \<open>0 \<le> T\<close> set_update_subset_insert [of qs "best qs" "qs ! best qs - T"] by fastforce
qed

text \<open>A validator that is not elected in \<open>r\<close> rounds has gained its voting power \<open>r\<close> times.\<close>

lemma unelected_gains:
  assumes "length ws = length ps" "i < length ps" "\<forall>q < r. electedAt T ws ps q \<noteq> i"
  shows "priosAt T ws ps r ! i = ps ! i + int r * ws ! i"
  using assms(3)
proof (induction r)
  case (Suc r)
  then have "best (map2 (+) (priosAt T ws ps r) ws) \<noteq> i" by (auto simp: electedAt_def elect_def Let_def)
  then show ?case using Suc assms(1,2) by (simp add: elect_def Let_def algebra_simps)
qed simp

lemma priosAt_bounds:
  fixes T :: int
  assumes "length ws = length ps" "is_centred T ps" "\<forall>w \<in> set ws. 0 \<le> w" "sum_list ws = T"
  shows "sum_list (priosAt T ws ps r) = sum_list ps \<and> (\<forall>p \<in> set (priosAt T ws ps r). - 2 * T \<le> p)"
proof (induction r)
  case 0
  have "0 \<le> Max (set ps)" using Max_nonneg assms(2) by (simp add: is_centred_def)
  then have "- 2 * T \<le> p" if "p \<in> set ps" for p
    using spread_ge [of "Max (set ps)" ps p] that assms(2) by (auto simp: is_centred_def)
  then show ?case by simp
next
  case (Suc r)
  have "priosAt T ws ps r \<noteq> []" using assms(1,2) priosAt_length [of ws ps T r] length_0_conv unfolding is_centred_def by metis
  then show ?case
    using elect_round [of ws "priosAt T ws ps r" T] Suc assms by (auto simp: is_centred_def)
qed

lemma nth_le_rest:
  fixes ps :: "int list"
  assumes "i < length ps" "\<forall>p \<in> set ps. - d \<le> p"
  shows "ps ! i \<le> sum_list ps + (int (length ps) - 1) * d"
  using assms
proof (induction ps arbitrary: i)
  case (Cons p ps)
  have "- (int (length ps) * d) \<le> sum_list ps"
    using Cons.prems(2) sum_list_mono [of ps "\<lambda>_. - d" "\<lambda>p. p"] by (simp add: sum_list_triv)
  then show ?case using Cons.IH [of "i - 1"] Cons.prems by (cases i) (auto simp: algebra_simps)
qed simp

lemma fair_rounds:
  fixes T :: int
  assumes "length ws = length ps" "is_centred T ps" "\<forall>w \<in> set ws. 0 \<le> w" "sum_list ws = T"
    and "i < length ps" "int (length ps) * (2 * T + 1) \<le> int k * ws ! i"
  shows "\<exists>r < k. electedAt T ws ps r = i"
proof (rule ccontr)
  assume "\<not> (\<exists>r < k. electedAt T ws ps r = i)"
  then have gain: "priosAt T ws ps k ! i = ps ! i + int k * ws ! i" using unelected_gains assms(1,5) by blast
  have "- (2 * T) \<le> ps ! i" using priosAt_bounds [OF assms(1-4), of 0] assms(5) by auto
  moreover have "priosAt T ws ps k ! i \<le> sum_list ps + (int (length ps) - 1) * (2 * T)"
    using nth_le_rest [of i "priosAt T ws ps k" "2 * T"] priosAt_bounds [OF assms(1-4), of k] assms(1,5) by auto
  ultimately show False using gain assms(2,6) by (auto simp: is_centred_def algebra_simps)
qed

lemma best_snoc:
  assumes "ps \<noteq> []"
  shows "best (ps @ [p]) = (if Max (set ps) < p then length ps else best ps)"
proof -
  define m where "m = Max (set ps)"
  have m: "m \<in> set ps" "\<forall>q \<in> set ps. q \<le> m" using assms by (auto simp: m_def)
  have "Max (set (ps @ [p])) = max p m" using assms by (simp add: m_def)
  then have best: "best (ps @ [p]) = length (takeWhile (\<lambda>q. q \<noteq> max p m) (ps @ [p]))" by (simp add: best_def)
  show ?thesis
  proof (cases "m < p")
    case True
    then have "q \<noteq> p" if "q \<in> set ps" for q using m(2) that by force
    then show ?thesis using best True takeWhile_append2 [of ps "\<lambda>q. q \<noteq> p" "[p]"] by (simp add: m_def [symmetric] max_def)
  next
    case False
    then show ?thesis using best m(1) takeWhile_append1 [of m ps "\<lambda>q. q \<noteq> m" "[p]"]
      by (simp add: m_def [symmetric] max_def best_def)
  qed
qed

subsection \<open>Cells\<close>

text \<open>Each validator has a priority of its own.\<close>

definition cells_ok :: "Cells \<Rightarrow> 'k PrioritizedValidator list \<Rightarrow> bool" where
  "cells_ok s vs \<longleftrightarrow>
    distinct (map pv_ProposerPriority vs) \<and> (\<forall>v \<in> set vs. pv_ProposerPriority v < cl_next s)"

definition powers :: "'k PrioritizedValidator list \<Rightarrow> int list" where
  "powers vs = map (\<lambda>v. vm_VotingPower (pv_Metadata v)) vs"

lemma assign_simps [simp]:
  "cl_next (assign r i s) = cl_next s" "cl_val (assign r i s) = (cl_val s)(r := i)"
  by (simp_all add: assign_def)

lemma assignAll_ok:
  assumes "distinct (map pv_ProposerPriority vs)"
  shows "map (priority (assignAll f vs s)) vs = map (f \<circ> priority s) vs
    \<and> cl_next (assignAll f vs s) = cl_next s
    \<and> (\<forall>r. r \<notin> pv_ProposerPriority ` set vs \<longrightarrow> cl_val (assignAll f vs s) r = cl_val s r)"
  using assms
proof (induction vs arbitrary: s)
  case (Cons v vs)
  define t where "t = assign (pv_ProposerPriority v) (f (priority s v)) s"
  have step: "assignAll f (v # vs) s = assignAll f vs t" by (simp add: assignAll_def t_def)
  have "priority t w = priority s w" if "w \<in> set vs" for w
  proof -
    have "pv_ProposerPriority w \<noteq> pv_ProposerPriority v" using Cons.prems \<open>w \<in> set vs\<close> by (metis distinct.simps(2) image_eqI list.set_map list.simps(9))
    then show ?thesis by (simp add: t_def priority_def)
  qed
  moreover have "priority (assignAll f vs t) v = f (priority s v)"
    using Cons.IH [of t] Cons.prems by (simp add: priority_def t_def)
  ultimately show ?case using Cons.IH [of t] Cons.prems step by (auto simp: t_def)
qed (simp add: assignAll_def)

lemma newPrioritized_ok:
  assumes "newPrioritized xs s = (vs, s')"
  shows "map pv_Metadata vs = map fst xs" "map (priority s') vs = map snd xs"
    "map pv_ProposerPriority vs = [cl_next s..<cl_next s + length xs]" "cl_next s' = cl_next s + length xs"
    "\<forall>r < cl_next s. cl_val s' r = cl_val s r"
proof -
  have "map pv_Metadata vs = map fst xs \<and> map (priority s') vs = map snd xs
    \<and> map pv_ProposerPriority vs = [cl_next s..<cl_next s + length xs] \<and> cl_next s' = cl_next s + length xs
    \<and> (\<forall>r < cl_next s. cl_val s' r = cl_val s r)"
    using assms
  proof (induction xs arbitrary: s vs)
    case (Cons x xs)
    obtain m p where x: "x = (m, p)" by (cases x)
    define t where "t = snd (alloc p s)"
    have t: "cl_next t = Suc (cl_next s)" "cl_val t (cl_next s) = p" "\<forall>r < cl_next s. cl_val t r = cl_val s r"
      by (simp_all add: t_def alloc_def)
    obtain ws where ws: "newPrioritized xs t = (ws, s')"
      and vs: "vs = \<lparr>pv_Metadata = m, pv_ProposerPriority = cl_next s\<rparr> # ws"
      using Cons.prems x by (auto simp: t_def alloc_def Let_def split: prod.splits)
    show ?case using Cons.IH [OF ws] t vs x by (auto simp: priority_def upt_conv_Cons simp del: upt_Suc)
  qed auto
  then show "map pv_Metadata vs = map fst xs" "map (priority s') vs = map snd xs"
    "map pv_ProposerPriority vs = [cl_next s..<cl_next s + length xs]" "cl_next s' = cl_next s + length xs"
    "\<forall>r < cl_next s. cl_val s' r = cl_val s r" by blast+
qed

lemma most_priority:
  assumes "distinct (map pv_ProposerPriority (ps_Validators snap))" "ps_Validators snap \<noteq> []"
  shows "getValWithMostPriority snap s = Inr (ps_Validators snap ! best (map (priority s) (ps_Validators snap)))"
proof -
  have "foldl (\<lambda>result curr. if isBetterProposer s curr result then Some curr else result) None vs =
      (if vs = [] then None else Some (vs ! best (map (priority s) vs)))"
    if "distinct (map pv_ProposerPriority vs)" for vs :: "'a PrioritizedValidator list"
    using that
  proof (induction vs rule: rev_induct)
    case (snoc v vs)
    show ?case
    proof (cases "vs = []")
      case True
      then show ?thesis by (simp add: isBetterProposer_def best_def)
    next
      case False
      define b where "b = best (map (priority s) vs)"
      have b: "b < length vs" "priority s (vs ! b) = Max (set (map (priority s) vs))"
        using best_Max [of "map (priority s) vs"] False by (auto simp: b_def)
      then have "pv_ProposerPriority v \<noteq> pv_ProposerPriority (vs ! b)" using snoc.prems nth_mem [OF b(1)] by auto
      then show ?thesis using snoc False b best_snoc [of "map (priority s) vs" "priority s v"]
        by (auto simp: isBetterProposer_def b_def [symmetric] nth_append)
    qed
  qed simp
  then show ?thesis using assms by (simp add: getValWithMostPriority_def need_def)
qed

lemma foldl_Max: "foldl (\<lambda>m p. if m < p then p else m) a xs = Max (set (a # xs))" for a :: int
  unfolding Max.set_eq_fold foldl_conv_fold by (rule arg_cong [where f = "\<lambda>f. fold f xs a"]) (auto simp: fun_eq_iff max_def)

lemma foldl_Min: "foldl (\<lambda>m p. if p < m then p else m) a xs = Min (set (a # xs))" for a :: int
  unfolding Min.set_eq_fold foldl_conv_fold by (rule arg_cong [where f = "\<lambda>f. fold f xs a"]) (auto simp: fun_eq_iff min_def)

lemma foldl_plus: "foldl (\<lambda>t v. t + f v) a xs = a + sum_list (map f xs)" for a :: int
  by (induction xs arbitrary: a) auto

lemma diff_spread:
  assumes "vs \<noteq> []"
  shows "computeMaxMinPriorityDiff vs s = spread (map (priority s) vs)"
proof -
  obtain v ws where vs: "vs = v # ws" using assms by (cases vs) auto
  have "0 \<le> spread (map (priority s) vs)" using spread_ge [of "priority s v" "map (priority s) vs" "priority s v"] vs by simp
  then show ?thesis using vs unfolding computeMaxMinPriorityDiff_def Let_def by (simp add: foldl_Max foldl_Min spread_def)
qed

lemma total_powers: "Snapshot_GetTotalVotingPower snap = sum_list (powers (ps_Validators snap))"
  by (simp add: Snapshot_GetTotalVotingPower_def powers_def foldl_plus)

lemma updateWithChangeSet_ok:
  assumes "cells_ok s (ps_Validators snap)" "ps_Validators snap \<noteq> []" "0 < T"
  shows "\<exists>s'. updateWithChangeSet snap T s = Inr s' \<and> cl_next s' = cl_next s
    \<and> map (priority s') (ps_Validators snap) = centred T (map (priority s) (ps_Validators snap))
    \<and> (\<forall>r. r \<notin> pv_ProposerPriority ` set (ps_Validators snap) \<longrightarrow> cl_val s' r = cl_val s r)"
proof -
  define vs where "vs = ps_Validators snap"
  have dist: "distinct (map pv_ProposerPriority vs)" "vs \<noteq> []" using assms(1,2) by (auto simp: cells_ok_def vs_def)
  define ratio where "ratio = (spread (map (priority s) vs) + 2 * T - 1) div (2 * T)"
  define t where "t = (if 2 * T < spread (map (priority s) vs) then assignAll (\<lambda>p. big_Quo p ratio) vs s else s)"
  have t: "rescalePriorities snap T s = Inr t"
    using assms(3) dist(2) by (simp add: rescalePriorities_def diff_spread BigIntDivCeil_def big_Div_def Let_def vs_def [symmetric] t_def ratio_def)
  have t_ok: "map (priority t) vs = rescaled T (map (priority s) vs)" "cl_next t = cl_next s"
      "\<forall>r. r \<notin> pv_ProposerPriority ` set vs \<longrightarrow> cl_val t r = cl_val s r"
    using assignAll_ok [OF dist(1), of "\<lambda>p. big_Quo p ratio" s] by (auto simp: t_def rescaled_def ratio_def comp_def)
  define avg where "avg = sum_list (map (priority t) vs) div int (length vs)"
  have "shiftByAvgProposerPriority snap t = Inr (assignAll (\<lambda>p. p - avg) vs t)"
    using dist(2) by (simp add: shiftByAvgProposerPriority_def computeAvgProposerPriority_def vs_def [symmetric] foldl_plus avg_def)
  moreover have "map (\<lambda>v. priority t v - avg) vs = shifted (map (priority t) vs)" by (simp add: shifted_def avg_def)
  ultimately show ?thesis
    using t t_ok assignAll_ok [OF dist(1), of "\<lambda>p. p - avg" t]
    by (simp add: updateWithChangeSet_def vs_def [symmetric] centred_def comp_def)
qed

lemma increment_ok:
  assumes "cells_ok s (ps_Validators snap)" "ps_Validators snap \<noteq> []"
    and e_def: "e = elect T (powers (ps_Validators snap)) (map (priority s) (ps_Validators snap))"
  shows "\<exists>p vs s'. incrementProposerPriority snap T s = Inr (p, snap\<lparr>ps_Validators := vs\<rparr>, s')
    \<and> pv_Metadata p = pv_Metadata (ps_Validators snap ! fst e) \<and> map pv_Metadata vs = map pv_Metadata (ps_Validators snap)
    \<and> map (priority s') vs = snd e \<and> cells_ok s' vs
    \<and> cl_next s \<le> cl_next s' \<and> (\<forall>r < cl_next s. cl_val s' r = cl_val s r)"
proof -
  define us where "us = ps_Validators snap"
  define xs where "xs = map (\<lambda>v. (pv_Metadata v, priority s v + vm_VotingPower (pv_Metadata v))) us"
  obtain vs t where add: "newPrioritized xs s = (vs, t)" by fastforce
  note new = newPrioritized_ok [OF add]
  have meta: "map pv_Metadata vs = map pv_Metadata us" using new(1) by (simp add: xs_def)
  then have len: "length vs = length us" by (metis length_map)
  then have vs: "vs \<noteq> []" using assms(2) by (auto simp: us_def)
  have qs: "map (priority t) vs = map2 (+) (map (priority s) us) (powers us)"
    using new(2) by (simp add: xs_def powers_def map2_map_map)
  define b where "b = best (map (priority t) vs)"
  have b: "b < length vs" using best_Max(1) [of "map (priority t) vs"] vs by (simp add: b_def)
  have e: "fst e = b" "snd e = (map (priority t) vs)[b := priority t (vs ! b) - T]"
    using b by (simp_all add: e_def elect_def Let_def us_def [symmetric] qs [symmetric] b_def [symmetric])
  define s' where "s' = assign (pv_ProposerPriority (vs ! b)) (priority t (vs ! b) - T) t"
  have dist: "distinct (map pv_ProposerPriority vs)" using new(3) by simp
  have most: "getValWithMostPriority (snap\<lparr>ps_Validators := vs\<rparr>) t = Inr (vs ! b)"
    using most_priority [of "snap\<lparr>ps_Validators := vs\<rparr>" t] dist vs by (simp add: b_def)
  then have run: "incrementProposerPriority snap T s = Inr (vs ! b, snap\<lparr>ps_Validators := vs\<rparr>, s')"
    using add by (simp add: incrementProposerPriority_def addPowers_def us_def [symmetric] xs_def [symmetric] s'_def)
  have "priority s' (vs ! i) = (if i = b then priority t (vs ! b) - T else priority t (vs ! i))" if "i < length vs" for i
    using that b nth_eq_iff_index_eq [OF dist, of i b] by (simp add: s'_def priority_def)
  then have prios: "map (priority s') vs = snd e" using b e(2) by (intro nth_equalityI) (auto simp: nth_list_update)
  have refs: "cl_next s \<le> pv_ProposerPriority v \<and> pv_ProposerPriority v < cl_next t" if "v \<in> set vs" for v
  proof -
    have "pv_ProposerPriority v \<in> set (map pv_ProposerPriority vs)" using that by simp
    then show ?thesis unfolding new(3) using new(4) by simp
  qed
  have frame: "\<forall>r < cl_next s. cl_val s' r = cl_val s r"
    using refs [of "vs ! b"] b new(5) by (auto simp: s'_def)
  have "cells_ok s' vs" using refs dist by (simp add: cells_ok_def s'_def)
  moreover have "pv_Metadata (vs ! b) = pv_Metadata (us ! b)" using meta b len by (metis nth_map)
  ultimately show ?thesis using run meta prios frame e(1) new(4) by (auto simp: us_def [symmetric] s'_def)
qed

lemma priosAt_shift: "priosAt T ws (snd (elect T ws ps)) n = priosAt T ws ps (Suc n)"
  by (induction n) auto

lemma electedAt_shift: "electedAt T ws (snd (elect T ws ps)) n = electedAt T ws ps (Suc n)"
  using priosAt_shift [of T ws ps n] by (simp add: electedAt_def)

lemma powers_meta: "map pv_Metadata vs = map pv_Metadata us \<Longrightarrow> powers vs = powers us"
  unfolding powers_def by (metis (no_types, lifting) comp_apply list.map_comp map_eq_conv)

lemma meta_nth: "map pv_Metadata vs = map pv_Metadata us \<Longrightarrow> i < length us \<Longrightarrow> pv_Metadata (vs ! i) = pv_Metadata (us ! i)"
  by (metis length_map nth_map)

lemma incrementLoop_ok:
  assumes "cells_ok s (ps_Validators snap)" "ps_Validators snap \<noteq> []" "ws = powers (ps_Validators snap)"
    and "ps = map (priority s) (ps_Validators snap)"
  shows "\<exists>p vs s'. incrementLoop n T q snap s = Inr (p, snap\<lparr>ps_Validators := vs\<rparr>, s')
    \<and> (if n = 0 then p = q
       else map_option pv_Metadata p = Some (pv_Metadata (ps_Validators snap ! electedAt T ws ps (n - 1))))
    \<and> map pv_Metadata vs = map pv_Metadata (ps_Validators snap)
    \<and> map (priority s') vs = priosAt T ws ps n \<and> cells_ok s' vs
    \<and> cl_next s \<le> cl_next s' \<and> (\<forall>r < cl_next s. cl_val s' r = cl_val s r)"
  using assms
proof (induction n arbitrary: snap s ps q)
  case 0
  then show ?case by (auto intro: exI [of _ "ps_Validators snap"])
next
  case (Suc n)
  define e where "e = elect T ws ps"
  obtain p vs t where inc: "incrementProposerPriority snap T s = Inr (p, snap\<lparr>ps_Validators := vs\<rparr>, t)"
      "pv_Metadata p = pv_Metadata (ps_Validators snap ! fst e)" "map pv_Metadata vs = map pv_Metadata (ps_Validators snap)"
      "map (priority t) vs = snd e" "cells_ok t vs" "cl_next s \<le> cl_next t" "\<forall>r < cl_next s. cl_val t r = cl_val s r"
    using increment_ok [OF Suc.prems(1,2), of e T] Suc.prems(3,4) by (auto simp: e_def)
  have len: "length vs = length (ps_Validators snap)" using inc(3) by (metis length_map)
  have vs: "vs \<noteq> []" "ws = powers vs" using Suc.prems(2,3) len powers_meta [OF inc(3)] by auto
  obtain p' vs' s' where loop: "incrementLoop n T (Some p) (snap\<lparr>ps_Validators := vs\<rparr>) t = Inr (p', snap\<lparr>ps_Validators := vs'\<rparr>, s')"
      "if n = 0 then p' = Some p else map_option pv_Metadata p' = Some (pv_Metadata (vs ! electedAt T ws (snd e) (n - 1)))"
      "map pv_Metadata vs' = map pv_Metadata vs" "map (priority s') vs' = priosAt T ws (snd e) n" "cells_ok s' vs'"
      "cl_next t \<le> cl_next s'" "\<forall>r < cl_next t. cl_val s' r = cl_val t r"
    using Suc.IH [of t "snap\<lparr>ps_Validators := vs\<rparr>" "snd e" "Some p"] inc(4,5) vs by auto
  have "electedAt T ws ps n < length vs"
    using electedAt_less [of ws ps T n] Suc.prems(2-4) len by (simp add: powers_def)
  then have "map_option pv_Metadata p' = Some (pv_Metadata (ps_Validators snap ! electedAt T ws ps n))"
    using loop(2) inc(2) meta_nth [OF inc(3)] len electedAt_shift [of T ws ps "n - 1"]
    by (cases n) (auto simp: e_def electedAt_def split: if_splits)
  then show ?case using inc loop by (auto simp: e_def priosAt_shift)
qed

text \<open>A round of the calculation: the store is centred in place, the snapshot gets new cells.\<close>

lemma NTimes_ok:
  assumes "cells_ok s (ps_Validators snap)" "ps_Validators snap \<noteq> []" "turns \<noteq> 0"
    and "ws = powers (ps_Validators snap)" "T = sum_list ws" "0 < T"
    and "ps = centred T (map (priority s) (ps_Validators snap))"
  shows "\<exists>p vs s'. incrementProposerPriorityNTimes snap turns s =
      Inr (p, snap\<lparr>ps_Validators := vs, ps_Proposer := Some p, ps_Round := turns - 1\<rparr>, s')
    \<and> pv_Metadata p = pv_Metadata (ps_Validators snap ! electedAt T ws ps (unat turns - 1))
    \<and> map pv_Metadata vs = map pv_Metadata (ps_Validators snap)
    \<and> map (priority s') vs = priosAt T ws ps (unat turns) \<and> cells_ok s' vs
    \<and> cells_ok s' (ps_Validators snap) \<and> map (priority s') (ps_Validators snap) = ps"
proof -
  obtain t where t: "updateWithChangeSet snap T s = Inr t" "cl_next t = cl_next s" "map (priority t) (ps_Validators snap) = ps"
    using updateWithChangeSet_ok [OF assms(1,2,6)] assms(7) by auto
  then have ok: "cells_ok t (ps_Validators snap)" using assms(1) by (simp add: cells_ok_def)
  obtain p vs s' where loop: "incrementLoop (unat turns) T None snap t = Inr (p, snap\<lparr>ps_Validators := vs\<rparr>, s')"
      "map_option pv_Metadata p = Some (pv_Metadata (ps_Validators snap ! electedAt T ws ps (unat turns - 1)))"
      "map pv_Metadata vs = map pv_Metadata (ps_Validators snap)" "map (priority s') vs = priosAt T ws ps (unat turns)"
      "cells_ok s' vs" "cl_next t \<le> cl_next s'" "\<forall>r < cl_next t. cl_val s' r = cl_val t r"
    using incrementLoop_ok [OF ok assms(2,4) t(3) [symmetric], of "unat turns" T None] assms(3) by (auto simp: unat_eq_0)
  have "map (priority s') (ps_Validators snap) = ps" using loop(7) ok t(3) by (auto simp: cells_ok_def priority_def)
  moreover have "cells_ok s' (ps_Validators snap)" using ok loop(6) by (auto simp: cells_ok_def)
  ultimately show ?thesis using t(1) loop assms(2-6)
    by (auto simp: incrementProposerPriorityNTimes_def total_powers need_def word_le_0_iff)
qed

subsection \<open>Proposers\<close>

definition snapshot_ok :: "Cells \<Rightarrow> 'k ProposerSnapshot \<Rightarrow> bool" where
  "snapshot_ok s pcs \<longleftrightarrow> cells_ok s (ps_Validators pcs) \<and> ps_Validators pcs \<noteq> []
    \<and> (\<forall>w \<in> set (powers (ps_Validators pcs)). 0 \<le> w) \<and> 0 < sum_list (powers (ps_Validators pcs))"

definition startPriorities :: "Cells \<Rightarrow> 'k ProposerSnapshot \<Rightarrow> int list" where
  "startPriorities s pcs = centred (sum_list (powers (ps_Validators pcs))) (map (priority s) (ps_Validators pcs))"

definition proposerAt :: "Cells \<Rightarrow> 'k ProposerSnapshot \<Rightarrow> uint64 \<Rightarrow> address" where
  "proposerAt s pcs r =
    (let ws = powers (ps_Validators pcs)
     in pv_Address (ps_Validators pcs ! electedAt (sum_list ws) ws (startPriorities s pcs) (unat r)))"

text \<open>A proposer that is kept in the snapshot is the one of its round.\<close>

definition calc_ok :: "Cells \<Rightarrow> 'k ProposerSnapshot \<Rightarrow> bool" where
  "calc_ok s pcs \<longleftrightarrow> snapshot_ok s pcs
    \<and> (\<forall>p. ps_Proposer pcs = Some p \<longrightarrow> pv_Address p = proposerAt s pcs (ps_Round pcs))"

text \<open>Two states of a snapshot from which every round has the same proposer.\<close>

definition same_start :: "Cells \<times> 'k ProposerSnapshot \<Rightarrow> Cells \<times> 'k ProposerSnapshot \<Rightarrow> bool" where
  "same_start = (\<lambda>(s, pcs) (s', pcs'). ps_Height pcs' = ps_Height pcs \<and> ps_Validators pcs' = ps_Validators pcs
    \<and> startPriorities s' pcs' = startPriorities s pcs)"

lemma same_start_proposerAt: "same_start (s, pcs) (s', pcs') \<Longrightarrow> proposerAt s' pcs' r = proposerAt s pcs r"
  by (simp add: same_start_def proposerAt_def)

lemma CalcProposer_ok:
  assumes "calc_ok s pcs" "rnd + 1 \<noteq> 0"
  shows "\<exists>pcs' s'. CalcProposer rnd (ps_Height pcs) pcs s = Inr (proposerAt s pcs rnd, pcs', s')
    \<and> calc_ok s' pcs' \<and> same_start (s, pcs) (s', pcs')"
proof (cases "ps_Round pcs = rnd \<and> ps_Proposer pcs \<noteq> None")
  case True
  then show ?thesis using assms(1) by (auto simp: CalcProposer_def calc_ok_def same_start_def)
next
  case False
  define ws where "ws = powers (ps_Validators pcs)"
  note ok = assms(1) [unfolded calc_ok_def snapshot_ok_def]
  have vals: "ps_Validators (Snapshot_Copy pcs) = ps_Validators pcs" by (simp add: Snapshot_Copy_def)
  obtain p vs s' where run: "incrementProposerPriorityNTimes (Snapshot_Copy pcs) (rnd + 1) s = Inr (p, vs, s')"
      "pv_Metadata p = pv_Metadata (ps_Validators pcs ! electedAt (sum_list ws) ws (startPriorities s pcs) (unat (rnd + 1) - 1))"
      "cells_ok s' (ps_Validators pcs)" "map (priority s') (ps_Validators pcs) = startPriorities s pcs"
    using NTimes_ok [of s "Snapshot_Copy pcs" "rnd + 1" ws "sum_list ws" "startPriorities s pcs"] ok assms(2)
    by (auto simp: vals ws_def startPriorities_def)
  have "unat (rnd + 1) = Suc (unat rnd)" using assms(2) unatSuc [of rnd] by (metis add.commute)
  then have p: "pv_Address p = proposerAt s pcs rnd" using run(2) by (simp add: proposerAt_def ws_def pv_Address_def Let_def)
  define pcs' where "pcs' = pcs\<lparr>ps_Proposer := Some p, ps_Round := rnd\<rparr>"
  have calc: "CalcProposer rnd (ps_Height pcs) pcs s = Inr (pv_Address p, pcs', s')"
    using False run(1) by (auto simp: CalcProposer_def pcs'_def split: option.splits)
  have same: "same_start (s, pcs) (s', pcs')"
    using run(4) ok centred_idem [of "sum_list ws" "map (priority s) (ps_Validators pcs)"]
    by (simp add: same_start_def pcs'_def startPriorities_def ws_def)
  have "calc_ok s' pcs'" using ok run(3) p same_start_proposerAt [OF same] by (simp add: calc_ok_def snapshot_ok_def pcs'_def)
  then show ?thesis using calc p same by auto
qed

text \<open>The calls of one node: any rounds in any order.\<close>

fun calcRounds :: "uint64 list \<Rightarrow> 'k ProposerSnapshot \<Rightarrow> Cells \<Rightarrow> 'k ProposerSnapshot \<times> Cells" where
  "calcRounds [] pcs s = (pcs, s)"
| "calcRounds (r # rs) pcs s =
    (case CalcProposer r (ps_Height pcs) pcs s of
       Inl e \<Rightarrow> calcRounds rs pcs s
     | Inr (_, pcs, s) \<Rightarrow> calcRounds rs pcs s)"

lemma calcRounds_ok:
  assumes "calc_ok s pcs" "\<forall>r \<in> set rs. r + 1 \<noteq> 0" "calcRounds rs pcs s = (pcs', s')"
  shows "calc_ok s' pcs' \<and> same_start (s, pcs) (s', pcs')"
  using assms
proof (induction rs arbitrary: pcs s)
  case Nil
  then show ?case by (simp add: same_start_def)
next
  case (Cons r rs)
  obtain q t where step: "CalcProposer r (ps_Height pcs) pcs s = Inr (proposerAt s pcs r, q, t)"
      "calc_ok t q" "same_start (s, pcs) (t, q)"
    using CalcProposer_ok [OF Cons.prems(1), of r] Cons.prems(2) by auto
  then show ?case using Cons.IH [of t q] Cons.prems by (auto simp: same_start_def)
qed

subsection \<open>Blocks\<close>

definition view :: "Cells \<Rightarrow> 'k PrioritizedValidator list \<Rightarrow> ('k ValidatorMetadata \<times> int) list" where
  "view s vs = map (\<lambda>v. (pv_Metadata v, priority s v)) vs"

fun merged :: "(address \<rightharpoonup> int) \<Rightarrow> 'k AccountSet \<Rightarrow> int \<Rightarrow> int list" where
  "merged m [] tvp = []"
| "merged m (x # xs) tvp =
    (case m (vm_Address x) of
       Some p \<Rightarrow> p # merged m xs tvp
     | None \<Rightarrow> - (tvp + tvp div 8) # merged m xs (tvp + tvp div 8))"

definition viewMap :: "('k ValidatorMetadata \<times> int) list \<Rightarrow> address \<rightharpoonup> 'k ValidatorMetadata \<times> int" where
  "viewMap w = map_of (rev (map (\<lambda>x. (vm_Address (fst x), x)) w))"

definition updatedView ::
  "(byte list \<Rightarrow> hash) \<Rightarrow> ('k ValidatorMetadata \<times> int) list \<Rightarrow> 'k AccountSet \<Rightarrow> ('k ValidatorMetadata \<times> int) list" where
  "updatedView K w new =
    (if new = [] then w
     else
       let total = GetTotalVotingPower new;
           removed = (\<Sum>a \<in> vm_Address ` fst ` set w. case viewMap w a of None \<Rightarrow> 0
             | Some x \<Rightarrow> if \<not> ContainsNodeID K new (checksumEncode K a) then vm_VotingPower (fst x) else 0)
       in zip new (centred total (merged (\<lambda>a. map_option snd (viewMap w a)) new (total + removed))))"

lemma toMap_map_of: "toMap vs = map_of (rev (map (\<lambda>v. (pv_Address v, v)) vs))"
  unfolding toMap_def by (induction vs rule: rev_induct) auto

lemma viewMap_view: "viewMap (view s vs) a = map_option (\<lambda>v. (pv_Metadata v, priority s v)) (toMap vs a)"
  unfolding viewMap_def view_def toMap_map_of
  by (induction vs rule: rev_induct) (auto simp: pv_Address_def)

lemma toMap_SomeD: "toMap vs a = Some v \<Longrightarrow> v \<in> set vs \<and> pv_Address v = a"
  unfolding toMap_map_of by (auto dest: map_of_SomeD)

lemma removed_view:
  "removedVotingPower K vs new = (\<Sum>a \<in> vm_Address ` fst ` set (view s vs). case viewMap (view s vs) a of None \<Rightarrow> 0
     | Some x \<Rightarrow> if \<not> ContainsNodeID K new (checksumEncode K a) then vm_VotingPower (fst x) else 0)"
proof -
  have "vm_Address ` fst ` set (view s vs) = pv_Address ` set vs" by (auto simp: view_def pv_Address_def image_image)
  then show ?thesis unfolding removedVotingPower_def viewMap_view
    by (auto intro!: sum.cong split: option.splits)
qed

text \<open>The cells that a merge takes over stay with the validators of their addresses, the others are new.\<close>

lemma mergeValidators_ok:
  assumes "mergeValidators m xs tvp s = (vs, s')" "distinct (map vm_Address xs)"
    and "\<forall>a v. m a = Some v \<longrightarrow> pv_ProposerPriority v < cl_next s"
    and "\<forall>a b v w. m a = Some v \<longrightarrow> m b = Some w \<longrightarrow> pv_ProposerPriority v = pv_ProposerPriority w \<longrightarrow> a = b"
  shows "map pv_Metadata vs = xs \<and> map (priority s') vs = merged (\<lambda>a. map_option (priority s) (m a)) xs tvp
    \<and> cells_ok s' vs \<and> cl_next s \<le> cl_next s' \<and> (\<forall>r < cl_next s. cl_val s' r = cl_val s r)
    \<and> (\<forall>v \<in> set vs. pv_ProposerPriority v < cl_next s \<longrightarrow>
         (\<exists>w. m (pv_Address v) = Some w \<and> pv_ProposerPriority w = pv_ProposerPriority v))"
  using assms(1-3)
proof (induction xs arbitrary: tvp s vs)
  case Nil
  then show ?case by (simp add: cells_ok_def)
next
  case (Cons x xs)
  show ?case
  proof (cases "m (vm_Address x)")
    case (Some val)
    obtain us where us: "mergeValidators m xs tvp s = (us, s')"
      and vs: "vs = \<lparr>pv_Metadata = x, pv_ProposerPriority = pv_ProposerPriority val\<rparr> # us"
      using Cons.prems(1) Some by (auto split: prod.splits)
    have dist: "distinct (map vm_Address xs)" using Cons.prems(2) by simp
    note IH = Cons.IH [OF us dist Cons.prems(3)]
    have val: "pv_ProposerPriority val < cl_next s" using Cons.prems(3) Some by blast
    have "pv_ProposerPriority v \<noteq> pv_ProposerPriority val" if "v \<in> set us" for v
    proof
      assume same: "pv_ProposerPriority v = pv_ProposerPriority val"
      then have "pv_Address v = vm_Address x" using IH \<open>v \<in> set us\<close> val assms(4) Some by metis
      moreover have "pv_Metadata v \<in> set xs" using IH \<open>v \<in> set us\<close> by force
      ultimately have "vm_Address x \<in> vm_Address ` set xs" unfolding pv_Address_def by (metis image_eqI)
      then show False using Cons.prems(2) by simp
    qed
    then have "pv_ProposerPriority val \<notin> pv_ProposerPriority ` set us" by (metis imageE)
    then show ?thesis using IH vs Some val
      by (auto simp: cells_ok_def priority_def pv_Address_def)
  next
    case None
    define t where "t = snd (alloc (- (tvp + tvp div 8)) s)"
    have t: "cl_next t = Suc (cl_next s)" "cl_val t (cl_next s) = - (tvp + tvp div 8)" "\<forall>r < cl_next s. cl_val t r = cl_val s r"
      by (simp_all add: t_def alloc_def)
    obtain us where us: "mergeValidators m xs (tvp + tvp div 8) t = (us, s')"
      and vs: "vs = \<lparr>pv_Metadata = x, pv_ProposerPriority = cl_next s\<rparr> # us"
      using Cons.prems(1) None by (auto simp: t_def alloc_def Let_def split: prod.splits)
    have dist: "distinct (map vm_Address xs)" using Cons.prems(2) by simp
    have old: "\<forall>a v. m a = Some v \<longrightarrow> pv_ProposerPriority v < cl_next t" using Cons.prems(3) t(1) by (simp add: less_SucI)
    note IH = Cons.IH [OF us dist old]
    have same: "(\<lambda>a. map_option (priority t) (m a)) = (\<lambda>a. map_option (priority s) (m a))"
      using Cons.prems(3) t(3) by (auto simp: fun_eq_iff priority_def option.map_sel intro: option.map_cong0 split: option.splits)
    have "pv_ProposerPriority v \<noteq> cl_next s" if "v \<in> set us" for v
      using IH Cons.prems(3) that t(1) by (metis lessI less_irrefl)
    then have "cl_next s \<notin> pv_ProposerPriority ` set us" by (metis imageE)
    moreover have "cl_val s' (cl_next s) = - (tvp + tvp div 8)" using IH t by simp
    then have "priority s' \<lparr>pv_Metadata = x, pv_ProposerPriority = cl_next s\<rparr> = - (tvp + tvp div 8)" by (simp add: priority_def)
    ultimately show ?thesis using IH [unfolded same] vs None t by (auto simp: cells_ok_def)
  qed
qed

lemma updateValidators_view:
  assumes "cells_ok s (ps_Validators snap)" "new = [] \<or> distinct (map vm_Address new) \<and> 0 < GetTotalVotingPower new"
  shows "\<exists>vs s'. updateValidators K snap new s = Inr (snap\<lparr>ps_Validators := vs\<rparr>, s')
    \<and> view s' vs = updatedView K (view s (ps_Validators snap)) new"
proof (cases "new = []")
  case True
  then show ?thesis by (auto simp: updateValidators_def updatedView_def intro: exI [of _ "ps_Validators snap"])
next
  case False
  define us where "us = ps_Validators snap"
  define tvp where "tvp = GetTotalVotingPower new + removedVotingPower K us new"
  obtain vs t where merge: "mergeValidators (toMap us) new tvp s = (vs, t)" by fastforce
  have refs: "pv_ProposerPriority v < cl_next s" if "toMap us a = Some v" for a v
    using toMap_SomeD [OF that] assms(1) by (auto simp: cells_ok_def us_def)
  have inj: "a = b" if "toMap us a = Some v" "toMap us b = Some w" "pv_ProposerPriority v = pv_ProposerPriority w" for a b v w
    using toMap_SomeD [OF that(1)] toMap_SomeD [OF that(2)] that(3) assms(1)
    by (auto simp: cells_ok_def us_def distinct_map inj_on_def)
  have ok: "map pv_Metadata vs = new" "map (priority t) vs = merged (\<lambda>a. map_option (priority s) (toMap us a)) new tvp"
      "cells_ok t vs"
    using mergeValidators_ok [OF merge] refs inj assms(2) False by (metis, metis, metis)
  have powers: "sum_list (powers vs) = GetTotalVotingPower new"
    using ok(1) by (simp add: powers_def total_sum_list flip: ok(1)) (simp add: comp_def)
  have "vs \<noteq> []" using ok(1) False by auto
  then obtain s' where s': "updateWithChangeSet (snap\<lparr>ps_Validators := vs\<rparr>) (GetTotalVotingPower new) t = Inr s'"
      "map (priority s') vs = centred (GetTotalVotingPower new) (map (priority t) vs)"
    using updateWithChangeSet_ok [of t "snap\<lparr>ps_Validators := vs\<rparr>" "GetTotalVotingPower new"] ok(3) assms(2) False by auto
  have "updateValidators K snap new s = Inr (snap\<lparr>ps_Validators := vs\<rparr>, s')"
    using False merge s'(1) powers
    by (simp add: updateValidators_def GetTotalVotingPower_def [symmetric] us_def [symmetric] tvp_def total_powers)
  moreover have "view s' vs = zip (map pv_Metadata vs) (map (priority s') vs)" by (simp add: view_def zip_map_map zip_same_conv_map)
  moreover have "(\<lambda>a. map_option (priority s) (toMap us a)) = (\<lambda>a. map_option snd (viewMap (view s us) a))"
    by (simp add: viewMap_view option.map_comp comp_def)
  ultimately show ?thesis using False ok s'(2) removed_view [of K us new s]
    by (auto simp: updatedView_def Let_def us_def [symmetric] tvp_def)
qed

text \<open>What a block makes of the priorities, on values.\<close>

definition blockView ::
  "('a, 'v, 'g1, 'k) ProposerEnv \<Rightarrow> uint64 \<Rightarrow> 'k AccountSet \<Rightarrow> int list \<Rightarrow> bftError + 'k SavedSnapshot" where
  "blockView E h ms ps =
    rbind (getBlockData (pr_R E) (pr_N E) (pr_GetHeaderByNumber E) h) (\<lambda>(_, extra).
    rbind (case ex_Validators extra of
             None \<Rightarrow> Inr []
           | Some d \<Rightarrow> if ValidatorSetDelta_IsEmpty d then Inr [] else pr_GetValidators E h) (\<lambda>new.
    need (ex_Checkpoint extra) NilDereference (\<lambda>c.
    if cd_BlockRound c + 1 = 0 then Inl NonPositiveTimes
    else
      let ws = map vm_VotingPower ms; w = zip ms (priosAt (sum_list ws) ws ps (unat (cd_BlockRound c + 1)))
      in Inr \<lparr>sv_Height = h + 1, sv_Round = 0, sv_Proposer = None, sv_Validators = updatedView (Keccak (pr_R E)) w new\<rparr>)))"

definition saved :: "bftError + 'k ProposerSnapshot \<times> Cells \<Rightarrow> bftError + 'k SavedSnapshot" where
  "saved r = map_sum id (\<lambda>(pcs, s). saveSnapshot pcs s) r"

lemma updatePerBlock_view:
  assumes "snapshot_ok s pcs" "ps_Height pcs = h"
    and "\<And>new. pr_GetValidators E h = Inr new \<Longrightarrow> new = [] \<or> distinct (map vm_Address new) \<and> 0 < GetTotalVotingPower new"
  shows "saved (updatePerBlock E h pcs s) = blockView E h (map pv_Metadata (ps_Validators pcs)) (startPriorities s pcs)"
proof -
  define ws where "ws = powers (ps_Validators pcs)"
  have ws: "map vm_VotingPower (map pv_Metadata (ps_Validators pcs)) = ws" by (simp add: ws_def powers_def)
  have step: "saved (rbind (incrementProposerPriorityNTimes pcs turns s) (\<lambda>(_, snap, s).
        rbind (updateValidators K snap new s) (\<lambda>(snap, s). Inr (snap\<lparr>ps_Height := h + 1, ps_Round := 0, ps_Proposer := None\<rparr>, s))))
      = Inr \<lparr>sv_Height = h + 1, sv_Round = 0, sv_Proposer = None, sv_Validators = updatedView K
          (zip (map pv_Metadata (ps_Validators pcs)) (priosAt (sum_list ws) ws (startPriorities s pcs) (unat turns))) new\<rparr>"
    if turns: "turns \<noteq> 0" and new: "new = [] \<or> distinct (map vm_Address new) \<and> 0 < GetTotalVotingPower new" for turns K new
  proof -
    obtain p vs t where run: "incrementProposerPriorityNTimes pcs turns s =
          Inr (p, pcs\<lparr>ps_Validators := vs, ps_Proposer := Some p, ps_Round := turns - 1\<rparr>, t)"
        "map pv_Metadata vs = map pv_Metadata (ps_Validators pcs)"
        "map (priority t) vs = priosAt (sum_list ws) ws (startPriorities s pcs) (unat turns)" "cells_ok t vs"
      using NTimes_ok [of s pcs turns ws "sum_list ws" "startPriorities s pcs"] assms(1) turns
      by (auto simp: snapshot_ok_def startPriorities_def ws_def)
    have "view t vs = zip (map pv_Metadata vs) (map (priority t) vs)" by (simp add: view_def zip_map_map zip_same_conv_map)
    then show ?thesis
      using updateValidators_view [of t "pcs\<lparr>ps_Validators := vs, ps_Proposer := Some p, ps_Round := turns - 1\<rparr>" new K] run new
      by (auto simp: saved_def saveSnapshot_def view_def)
  qed
  have "ps_Validators pcs \<noteq> []" using assms(1) by (simp add: snapshot_ok_def)
  then have zero: "incrementProposerPriorityNTimes pcs 0 s = Inl NonPositiveTimes" by (simp add: incrementProposerPriorityNTimes_def)
  show ?thesis
    unfolding updatePerBlock_def blockView_def ws Let_def
    using assms(2,3) step zero
    by (auto simp: rbind_def need_def saved_def split: sum.splits option.splits prod.splits if_splits)
qed

subsection \<open>Properties\<close>

text \<open>C16. Nodes agree on the proposer although \<^verbatim>\<open>CalcProposer\<close> changes priorities that are shared with the snapshot: after
  any calls of \<^verbatim>\<open>CalcProposer\<close> for any rounds in any order, a round has the proposer that it has without them, and
  the next block makes of the snapshot what it makes without them.\<close>

theorem proposer_agreement:
  assumes "snapshot_ok s pcs" "ps_Proposer pcs = None" "\<forall>r \<in> set rs. r + 1 \<noteq> 0" "calcRounds rs pcs s = (pcs', s')"
    and "rnd + 1 \<noteq> 0"
    and "\<forall>new. pr_GetValidators E (ps_Height pcs) = Inr new \<longrightarrow>
      new = [] \<or> distinct (map vm_Address new) \<and> 0 < GetTotalVotingPower new"
  shows "\<exists>a q t q' t'. CalcProposer rnd (ps_Height pcs) pcs s = Inr (a, q, t)
      \<and> CalcProposer rnd (ps_Height pcs) pcs' s' = Inr (a, q', t')
      \<and> saved (updatePerBlock E (ps_Height pcs) pcs' s') = saved (updatePerBlock E (ps_Height pcs) pcs s)"
proof -
  have start: "calc_ok s pcs" using assms(1,2) by (simp add: calc_ok_def)
  then have after: "calc_ok s' pcs'" "same_start (s, pcs) (s', pcs')" using calcRounds_ok assms(3,4) by blast+
  then have same: "ps_Height pcs' = ps_Height pcs" "ps_Validators pcs' = ps_Validators pcs"
      "startPriorities s' pcs' = startPriorities s pcs" by (auto simp: same_start_def)
  have "saved (updatePerBlock E (ps_Height pcs) pcs' s') = saved (updatePerBlock E (ps_Height pcs) pcs s)"
    using updatePerBlock_view [of s pcs "ps_Height pcs" E] updatePerBlock_view [of s' pcs' "ps_Height pcs" E]
      assms(1,6) after(1) same by (simp add: calc_ok_def)
  then show ?thesis
    using CalcProposer_ok [OF start assms(5)] CalcProposer_ok [OF after(1) assms(5)] same_start_proposerAt [OF after(2)] same(1)
    by fastforce
qed

text \<open>C17. No validator waits forever: a validator with voting power \<open>w\<close> among \<open>n\<close> validators with total power \<open>T\<close> is the
  proposer of one of the first \<open>k\<close> rounds of a height as soon as \<open>k w \<ge> n (2 T + 1)\<close>.\<close>

theorem proposer_fair:
  assumes "snapshot_ok s pcs" "ps_Proposer pcs = None" "v \<in> set (ps_Validators pcs)" "k < 2 ^ 64"
    and "int (length (ps_Validators pcs)) * (2 * Snapshot_GetTotalVotingPower pcs + 1) \<le> int k * vm_VotingPower (pv_Metadata v)"
  shows "\<exists>r < k. \<exists>pcs' s'. CalcProposer (of_nat r) (ps_Height pcs) pcs s = Inr (pv_Address v, pcs', s')"
proof -
  define ws where "ws = powers (ps_Validators pcs)"
  note ok = assms(1) [unfolded snapshot_ok_def]
  obtain i where i: "i < length (ps_Validators pcs)" "v = ps_Validators pcs ! i" using assms(3) by (metis in_set_conv_nth)
  have "is_centred (sum_list ws) (startPriorities s pcs)" using ok by (simp add: startPriorities_def ws_def centred_ok)
  moreover have "length ws = length (startPriorities s pcs)" by (simp add: startPriorities_def ws_def powers_def)
  moreover have "ws ! i = vm_VotingPower (pv_Metadata v)" using i by (simp add: ws_def powers_def)
  ultimately obtain r where r: "r < k" "electedAt (sum_list ws) ws (startPriorities s pcs) r = i"
    using fair_rounds [of ws "startPriorities s pcs" "sum_list ws" i k] ok i(1) assms(5)
    by (auto simp: total_powers ws_def startPriorities_def)
  have ur: "unat (of_nat r :: uint64) = r" using r(1) assms(4) by (simp add: unat_of_nat)
  then have "proposerAt s pcs (of_nat r) = pv_Address v" using r(2) i(2) by (simp add: proposerAt_def Let_def ws_def)
  moreover have "(of_nat r :: uint64) + 1 \<noteq> 0"
  proof -
    have "unat (of_nat (Suc r) :: uint64) = Suc r" using r(1) assms(4) by (simp add: unat_of_nat del: of_nat_Suc)
    then have "(of_nat (Suc r) :: uint64) \<noteq> 0" by (metis nat.distinct(1) unat_0)
    then show ?thesis by (simp add: add.commute)
  qed
  moreover have "calc_ok s pcs" using assms(1,2) by (simp add: calc_ok_def)
  ultimately show ?thesis using CalcProposer_ok [of s pcs "of_nat r"] r(1) by metis
qed

subsection \<open>Witnesses\<close>

definition demo_snapshot :: "int ProposerSnapshot \<times> Cells" where
  "demo_snapshot = NewProposerSnapshot 1 [demo_vm 1 5 1, demo_vm 2 7 2] \<lparr>cl_next = 0, cl_val = (\<lambda>_. 0)\<rparr>"

definition demo_proposers :: "(Item, Item, int, int) ProposerEnv" where
  "demo_proposers = \<lparr>pr_R = demo_codec, pr_N = demo_curve, pr_GetHeaderByNumber = (\<lambda>_. Some demo_parent),
     pr_GetValidators = (\<lambda>_. Inr demo_accounts)\<rparr>"

lemmas demo_snapshot_simps = demo_snapshot_def NewProposerSnapshot_def alloc_def demo_vm_def

lemma demo_snapshot_ok: "snapshot_ok (snd demo_snapshot) (fst demo_snapshot)"
  by (simp add: demo_snapshot_simps snapshot_ok_def cells_ok_def powers_def)

theorem proposer_agreement_witness:
  "\<exists>a q t q' t'. CalcProposer 2 1 (fst demo_snapshot) (snd demo_snapshot) = Inr (a, q, t)
     \<and> CalcProposer 2 1 (fst (calcRounds [0, 5, 1] (fst demo_snapshot) (snd demo_snapshot)))
         (snd (calcRounds [0, 5, 1] (fst demo_snapshot) (snd demo_snapshot))) = Inr (a, q', t')"
proof -
  have h: "ps_Height (fst demo_snapshot) = 1" "ps_Proposer (fst demo_snapshot) = None" by (simp_all add: demo_snapshot_simps)
  have "GetTotalVotingPower demo_accounts = 3" "distinct (map vm_Address demo_accounts)"
    by (simp_all add: demo_accounts_def demo_vm_def GetTotalVotingPower_def)
  then show ?thesis
    using proposer_agreement [OF demo_snapshot_ok h(2), of "[0, 5, 1]" _ _ 2 demo_proposers, OF _ prod.collapse [symmetric]] h(1)
    by (fastforce simp: demo_proposers_def)
qed

theorem proposer_fair_witness:
  "\<exists>r < 14. \<exists>pcs' s'. CalcProposer (of_nat r) 1 (fst demo_snapshot) (snd demo_snapshot) = Inr (1, pcs', s')"
  using proposer_fair [OF demo_snapshot_ok, of "hd (ps_Validators (fst demo_snapshot))" 14]
  by (simp add: demo_snapshot_simps Snapshot_GetTotalVotingPower_def pv_Address_def)

end
