(* ===== verification/Fsm.thy ===== *)
theory Fsm
  imports Extra
begin

text \<open>
  The state machine of one block of the consensus (\<^verbatim>\<open>consensus/plgbft/fsm.go\<close>) and the verification of
  headers (\<^verbatim>\<open>plgbft.go\<close>): a proposer builds a proposal, the other validators check it, and when enough of
  them have committed to it, each inserts it with the aggregated seals.

  \<open>Backend\<close> is the interface of the block chain, of the execution of blocks and of the validator set
  contract (\<^verbatim>\<open>blockchainBackend\<close>, \<^verbatim>\<open>SystemState\<close>), and the ABI codecs of state transactions (\<^verbatim>\<open>contractsapi\<close>, generated
  code); \<open>'t\<close> are state transitions. The block builder of a proposer is the interface \<open>BlockBuilder\<close>, with \<open>'b\<close>
  its state. Log messages, and the values that are only computed for them, are left out.
\<close>

record StateSyncCommitment =
  sc_StartID :: int
  sc_EndID :: int
  sc_Root :: hash

record CommitmentMessageSigned =
  cm_Message :: StateSyncCommitment
  cm_AggSignature :: Signature
  cm_PublicKeys :: "byte list list"

datatype StateTransactionInput = CommitmentInput CommitmentMessageSigned | CommitEpochInput

record FullBlock =
  fl_Block :: Block
  fl_Receipts :: "Receipt list"

record ('k, 't, 'i) Backend =
  bk_GetValidators :: "'k GetValidators"
  bk_GetChainID :: uint64
  bk_ProcessBlock :: "Header \<Rightarrow> Block \<Rightarrow> ('t \<Rightarrow> bftError + unit) \<Rightarrow> bftError + FullBlock"
  bk_CommitBlock :: "FullBlock \<Rightarrow> bftError + unit"
  bk_GetValidatorSet :: "'t \<Rightarrow> bftError + 'k AccountSet"
  bk_EncodeCommitEpoch :: "'i \<Rightarrow> byte list option"
  bk_DecodesAsCommitEpoch :: "byte list \<Rightarrow> bool"
  bk_EncodeCommitment :: "StateSyncCommitment \<Rightarrow> byte list option"
  bk_EncodeCommitmentSigned :: "CommitmentMessageSigned \<Rightarrow> byte list option"
  bk_DecodeCommitmentSigned :: "byte list \<Rightarrow> CommitmentMessageSigned option"
  bk_CommitFnSig :: "byte list"
  bk_CommitEpochFnSig :: "byte list"

record ('b, 't) BlockBuilder =
  bb_Reset :: "'b \<Rightarrow> bftError + 'b"
  bb_WriteTx :: "Transaction \<Rightarrow> 'b \<Rightarrow> bftError + 'b"
  bb_Fill :: "'b \<Rightarrow> 'b"
  bb_GetState :: "'b \<Rightarrow> 't"
  bb_Build :: "(Header \<Rightarrow> Header) \<Rightarrow> 'b \<Rightarrow> bftError + FullBlock"

record ('k, 'i, 'b) fsm =
  f_IsBridgeEnabled :: bool
  f_parent :: Header
  f_validators :: "'k validatorSet"
  f_blockBuilder :: 'b
  f_epochNumber :: uint64
  f_commitEpochInput :: 'i
  f_isEndOfEpoch :: bool
  f_isEndOfSprint :: bool
  f_proposerCommitmentToRegister :: "CommitmentMessageSigned option"
  f_target :: "FullBlock option"
  f_exitEventRootHash :: hash

text \<open>The domains of signatures are hashes of their names.\<close>

definition blsDomain :: "('a, 'v) Codec \<Rightarrow> string \<Rightarrow> byte list" where
  "blsDomain R name = hashBytes (Keccak R (map of_char name))"

definition DomainCheckpointManager :: "('a, 'v) Codec \<Rightarrow> byte list" where
  "DomainCheckpointManager R = blsDomain R ''DOMAIN_CHECKPOINT_MANAGER''"

definition DomainStateReceiver :: "('a, 'v) Codec \<Rightarrow> byte list" where
  "DomainStateReceiver R = blsDomain R ''DOMAIN_STATE_RECEIVER''"

definition Height :: "('k, 'i, 'b) fsm \<Rightarrow> uint64" where
  "Height f = hd_Number (f_parent f) + 1"

subsection \<open>State transactions\<close>

definition createStateTransactionWithData :: "('a, 'v) Codec \<Rightarrow> address \<Rightarrow> byte list \<Rightarrow> Transaction" where
  "createStateTransactionWithData R target inputData =
    Transaction_ComputeHash R
      (zeroTransaction\<lparr>tx_From := SystemCaller, tx_To := Some target, tx_Type := StateTx, tx_Input := inputData,
        tx_Gas := StateTransactionGasLimit, tx_GasPrice := 0\<rparr>)"

definition decodeStateTransaction :: "('k, 't, 'i) Backend \<Rightarrow> byte list \<Rightarrow> bftError + StateTransactionInput" where
  "decodeStateTransaction B txData =
    (if length txData < 4 then Inl StateTxWithoutInput
     else if take 4 txData = bk_CommitFnSig B then
       need (bk_DecodeCommitmentSigned B txData) AbiError (\<lambda>cm. Inr (CommitmentInput cm))
     else if take 4 txData = bk_CommitEpochFnSig B then
       (if bk_DecodesAsCommitEpoch B txData then Inr CommitEpochInput else Inl AbiError)
     else Inl UnknownStateTransaction)"

definition CommitmentMessageSigned_Hash ::
  "('a, 'v) Codec \<Rightarrow> ('k, 't, 'i) Backend \<Rightarrow> CommitmentMessageSigned \<Rightarrow> bftError + hash" where
  "CommitmentMessageSigned_Hash R B cm =
    need (bk_EncodeCommitment B (cm_Message cm)) AbiError (\<lambda>data. Inr (Keccak R data))"

definition createCommitEpochTx ::
  "('a, 'v) Codec \<Rightarrow> ('k, 't, 'i) Backend \<Rightarrow> ('k, 'i, 'b) fsm \<Rightarrow> bftError + Transaction" where
  "createCommitEpochTx R B f =
    need (bk_EncodeCommitEpoch B (f_commitEpochInput f)) AbiError (\<lambda>input.
    Inr (createStateTransactionWithData R ValidatorSetContract input))"

definition createBridgeCommitmentTx ::
  "('a, 'v) Codec \<Rightarrow> ('k, 't, 'i) Backend \<Rightarrow> CommitmentMessageSigned \<Rightarrow> bftError + Transaction" where
  "createBridgeCommitmentTx R B cm =
    need (bk_EncodeCommitmentSigned B cm) AbiError (\<lambda>inputData.
    Inr (createStateTransactionWithData R StateReceiverContract inputData))"

definition verifyCommitEpochTx ::
  "('a, 'v) Codec \<Rightarrow> ('k, 't, 'i) Backend \<Rightarrow> ('k, 'i, 'b) fsm \<Rightarrow> Transaction \<Rightarrow> bftError + unit" where
  "verifyCommitEpochTx R B f commitEpochTx =
    (if f_isEndOfEpoch f then
       rbind (createCommitEpochTx R B f) (\<lambda>localCommitEpochTx.
       if tx_Hash commitEpochTx \<noteq> tx_Hash localCommitEpochTx then Inl InvalidCommitEpochTx else Inr ())
     else Inl CommitEpochTxNotExpected)"

text \<open>The check of a bridge commitment: its signers have a quorum and their aggregated signature is valid.\<close>

definition verifyCommitment ::
  "('a, 'v, 'g1, 'k) BftEnv \<Rightarrow> ('k, 't, 'i) Backend \<Rightarrow> ('k, 'i, 'b) fsm \<Rightarrow> CommitmentMessageSigned \<Rightarrow> bftError + unit"
  where
  "verifyCommitment E B f cm =
    rbind (GetFilteredValidators (vs_validators (f_validators f)) (sg_Bitmap (cm_AggSignature cm))) (\<lambda>signers.
    if \<not> HasQuorum (f_validators f) (GetAddressesAsSet signers) then Inl QuorumNotReached
    else case UnmarshalSignature (be_N E) (sg_AggregatedSignature (cm_AggSignature cm)) of
      Inl e \<Rightarrow> Inl (BlsErr e)
    | Inr aggs \<Rightarrow>
        rbind (CommitmentMessageSigned_Hash (be_R E) B cm) (\<lambda>hash.
        case VerifyAggregated (be_N E) aggs (GetBlsKeys signers) (hashBytes hash) (DomainStateReceiver (be_R E)) of
          Inl e \<Rightarrow> Inl (BlsErr e)
        | Inr verified \<Rightarrow> if \<not> verified then Inl SignatureNotVerified else Inr ()))"

text \<open>The loop over the transactions; the flags are \<^verbatim>\<open>commitmentTxExists\<close> and \<^verbatim>\<open>commitEpochTxExists\<close>.\<close>

fun verifyStateTxs ::
  "('a, 'v, 'g1, 'k) BftEnv \<Rightarrow> ('k, 't, 'i) Backend \<Rightarrow> ('k, 'i, 'b) fsm \<Rightarrow> Transaction list \<Rightarrow> bool \<times> bool
    \<Rightarrow> bftError + bool \<times> bool" where
  "verifyStateTxs E B f [] flags = Inr flags"
| "verifyStateTxs E B f (tx # txs) (commitmentTxExists, commitEpochTxExists) =
    (if tx_Type tx \<noteq> StateTx then verifyStateTxs E B f txs (commitmentTxExists, commitEpochTxExists)
     else case decodeStateTransaction B (tx_Input tx) of
       Inl e \<Rightarrow> Inl e
     | Inr (CommitmentInput cm) \<Rightarrow>
         if \<not> f_isEndOfSprint f then Inl CommitmentTxNotExpected
         else if commitmentTxExists then Inl CommitmentTxSingleExpected
         else rbind (verifyCommitment E B f cm) (\<lambda>_. verifyStateTxs E B f txs (True, commitEpochTxExists))
     | Inr CommitEpochInput \<Rightarrow>
         if commitEpochTxExists then Inl CommitEpochTxSingleExpected
         else rbind (verifyCommitEpochTx (be_R E) B f tx) (\<lambda>_. verifyStateTxs E B f txs (commitmentTxExists, True)))"

definition VerifyStateTransactions ::
  "('a, 'v, 'g1, 'k) BftEnv \<Rightarrow> ('k, 't, 'i) Backend \<Rightarrow> ('k, 'i, 'b) fsm \<Rightarrow> Transaction list \<Rightarrow> bftError + unit" where
  "VerifyStateTransactions E B f transactions =
    rbind (verifyStateTxs E B f transactions (False, False)) (\<lambda>(_, commitEpochTxExists).
    if f_isEndOfEpoch f \<and> \<not> commitEpochTxExists then Inl CommitEpochTxDoesNotExist else Inr ())"

subsection \<open>Proposals\<close>

definition getValidatorsTransition ::
  "('k, 'i, 'b) fsm \<Rightarrow> 'k ValidatorSetDelta option \<Rightarrow> bftError + 'k AccountSet" where
  "getValidatorsTransition f delta = ApplyDelta (vs_validators (f_validators f)) delta"

definition applyBridgeCommitmentTx ::
  "('a, 'v) Codec \<Rightarrow> ('k, 't, 'i) Backend \<Rightarrow> ('b, 't) BlockBuilder \<Rightarrow> ('k, 'i, 'b) fsm \<Rightarrow> 'b \<Rightarrow> bftError + 'b" where
  "applyBridgeCommitmentTx R B W f b =
    (case f_proposerCommitmentToRegister f of
       None \<Rightarrow> Inr b
     | Some cm \<Rightarrow> rbind (createBridgeCommitmentTx R B cm) (\<lambda>tx. bb_WriteTx W tx b))"

definition BuildProposal ::
  "('a, 'v, 'g1, 'k) BftEnv \<Rightarrow> ('k, 't, 'i) Backend \<Rightarrow> ('b, 't) BlockBuilder \<Rightarrow> uint64 \<Rightarrow> ('k, 'i, 'b) fsm
    \<Rightarrow> bftError + byte list \<times> ('k, 'i, 'b) fsm" where
  "BuildProposal E B W currentRound f =
    (let R = be_R E; N = be_N E; accounts = vs_validators (f_validators f) in
     rbind (GetIbftExtra R N (hd_ExtraData (f_parent f))) (\<lambda>extraParent.
     rbind (bb_Reset W (f_blockBuilder f)) (\<lambda>b.
     rbind (if f_isEndOfEpoch f then rbind (createCommitEpochTx R B f) (\<lambda>tx. bb_WriteTx W tx b) else Inr b) (\<lambda>b.
     rbind (if f_IsBridgeEnabled f then applyBridgeCommitmentTx R B W f b else Inr b) (\<lambda>b.
     let b = bb_Fill W b in
     rbind (if f_isEndOfEpoch f then
              rbind (bk_GetValidatorSet B (bb_GetState W b)) (\<lambda>nextValidators.
              rbind (createValidatorSetDelta accounts nextValidators) (\<lambda>validatorsDelta.
              rbind (getValidatorsTransition f (Some validatorsDelta)) (\<lambda>nextValidators.
              Inr (Some validatorsDelta, nextValidators))))
            else Inr (None, accounts)) (\<lambda>(delta, nextValidators).
     rbind (AccountSet_Hash E accounts) (\<lambda>currentValidatorsHash.
     rbind (AccountSet_Hash E nextValidators) (\<lambda>nextValidatorsHash.
     let checkpoint = \<lparr>cd_BlockRound = currentRound, cd_EpochNumber = f_epochNumber f,
           cd_CurrentValidatorsHash = currentValidatorsHash, cd_NextValidatorsHash = nextValidatorsHash,
           cd_EventRoot = f_exitEventRootHash f\<rparr>;
         extra = \<lparr>ex_Validators = delta, ex_Seal = [], ex_Parent = ex_Committed extraParent, ex_Committed = None,
           ex_Checkpoint = Some checkpoint\<rparr>
     in rbind (bb_Build W (\<lambda>h. h\<lparr>hd_ExtraData := replicate ExtraVanity 0 @ Extra_MarshalRLPTo R N extra,
                                hd_MixHash := PlgBFTMixDigest\<rparr>) b) (\<lambda>stateBlock.
        Inr (Block_MarshalRLPTo R (fl_Block stateBlock) [],
             f\<lparr>f_blockBuilder := b, f_target := Some stateBlock\<rparr>))))))))))"

definition validateHeaderFields ::
  "('a, 'v) Codec \<Rightarrow> ('g1, 'k) Bn256 \<Rightarrow> Header \<Rightarrow> Header \<Rightarrow> bftError + unit" where
  "validateHeaderFields R N parent header =
    (if hd_Hash parent \<noteq> hd_ParentHash header then Inl IncorrectParentHash
     else if hd_Number header \<noteq> hd_Number parent + 1 then Inl InvalidNumber
     else if hd_Timestamp header \<le> hd_Timestamp parent then Inl TimestampOlderThanParent
     else if hd_MixHash header \<noteq> PlgBFTMixDigest then Inl IncorrectMixDigest
     else if hd_Difficulty header \<le> 0 then Inl ZeroDifficulty
     else if hd_Hash header \<noteq> plgBFTHeaderHash R N header then Inl InvalidHeaderHash
     else Inr ())"

definition decodeBlock :: "('a, 'v) Codec \<Rightarrow> ('g1, 'k) Bn256 \<Rightarrow> byte list \<Rightarrow> bftError + Block" where
  "decodeBlock R N proposal =
    (case Block_UnmarshalRLP R (plgBFTHeaderHash R N) proposal zeroBlock of
       Inl e \<Rightarrow> Inl (BlockDecoding e)
     | Inr block \<Rightarrow> Inr block)"

text \<open>The callback \<^verbatim>\<open>validateExtraData\<close>, which runs on the state after the transactions.\<close>

definition validateExtraData ::
  "('a, 'v, 'g1, 'k) BftEnv \<Rightarrow> ('k, 't, 'i) Backend \<Rightarrow> ('k, 'i, 'b) fsm \<Rightarrow> 'k Extra \<Rightarrow> CheckpointData
    \<Rightarrow> CheckpointData option \<Rightarrow> 't \<Rightarrow> bftError + unit" where
  "validateExtraData E B f extra checkpoint parentCheckpoint transition =
    (let currentValidators = vs_validators (f_validators f) in
     rbind (if f_isEndOfEpoch f then bk_GetValidatorSet B transition else Inr currentValidators) (\<lambda>nextValidators.
     rbind (ValidateDelta extra currentValidators nextValidators) (\<lambda>_.
     rbind (getValidatorsTransition f (ex_Validators extra)) (\<lambda>nextValidators.
     CheckpointData_Validate E checkpoint parentCheckpoint currentValidators nextValidators))))"

definition Validate ::
  "('a, 'v, 'g1, 'k) BftEnv \<Rightarrow> ('k, 't, 'i) Backend \<Rightarrow> byte list \<Rightarrow> ('k, 'i, 'b) fsm
    \<Rightarrow> bftError + ('k, 'i, 'b) fsm" where
  "Validate E B proposal f =
    (let R = be_R E; N = be_N E; parent = f_parent f in
     rbind (decodeBlock R N proposal) (\<lambda>block.
     let header = bl_Header block in
     rbind (validateHeaderFields R N parent header) (\<lambda>_.
     rbind (GetIbftExtra R N (hd_ExtraData header)) (\<lambda>extra.
     rbind (GetIbftExtra R N (hd_ExtraData parent)) (\<lambda>parentExtra.
     need (ex_Checkpoint extra) CheckpointNotPresent (\<lambda>checkpoint.
     need (ex_Checkpoint parentExtra) CheckpointNotPresent (\<lambda>parentCheckpoint.
     rbind (ValidateParentSignatures E extra (hd_Number header) (bk_GetValidators B) parent parentExtra
              (bk_GetChainID B) (DomainCheckpointManager R)) (\<lambda>_.
     rbind (VerifyStateTransactions E B f (bl_Transactions block)) (\<lambda>_.
     rbind (bk_ProcessBlock B parent block
              (validateExtraData E B f extra checkpoint (Some parentCheckpoint))) (\<lambda>stateBlock.
     Inr (f\<lparr>f_target := Some stateBlock\<rparr>)))))))))))"

subsection \<open>Commits\<close>

definition ValidateCommit ::
  "('a, 'v, 'g1, 'k) BftEnv \<Rightarrow> ('k, 'i, 'b) fsm \<Rightarrow> byte list \<Rightarrow> byte list \<Rightarrow> byte list \<Rightarrow> bftError + unit" where
  "ValidateCommit E f signer seal proposalHash =
    (let from = word_of_int (big_SetBytes signer) in
     case GetValidatorMetadata (vs_validators (f_validators f)) from of
       None \<Rightarrow> Inl (UnresolvedValidator from)
     | Some validator \<Rightarrow>
         (case UnmarshalSignature (be_N E) seal of
            Inl e \<Rightarrow> Inl (BlsErr e)
          | Inr signature \<Rightarrow>
              (case Signature_VerifyBls (be_N E) signature (vm_BlsKey validator) proposalHash
                      (DomainCheckpointManager (be_R E)) of
                 Inl e \<Rightarrow> Inl (BlsErr e)
               | Inr ok \<Rightarrow> if \<not> ok then Inl IncorrectCommitSignature else Inr ())))"

text \<open>A message of the consensus: \<open>recover\<close> is \<^verbatim>\<open>RecoverAddressFromSignature\<close> on its payload and signature, or an
  error of either.\<close>

definition ValidateSender :: "('k, 'i, 'b) fsm \<Rightarrow> byte list \<Rightarrow> address option \<Rightarrow> bftError + unit" where
  "ValidateSender f msgFrom recover =
    need recover SignerNotRecovered (\<lambda>signerAddress.
    if msgFrom \<noteq> addrBytes signerAddress then Inl SignerMismatch
    else if \<not> Includes (f_validators f) signerAddress then Inl SignerNotIncluded
    else Inr ())"

record CommittedSeal =
  cs_Signer :: "byte list"
  cs_Signature :: "byte list"

fun collectSeals ::
  "('g1, 'k) Bn256 \<Rightarrow> (address \<rightharpoonup> nat) \<Rightarrow> CommittedSeal list \<Rightarrow> Bitmap \<times> 'g1 list \<Rightarrow> bftError + Bitmap \<times> 'g1 list" where
  "collectSeals N nodeIDIndexMap [] s = Inr s"
| "collectSeals N nodeIDIndexMap (commSeal # seals) (bm, signatures) =
    (let signerAddr = word_of_int (big_SetBytes (cs_Signer commSeal)) in
     case nodeIDIndexMap signerAddr of
       None \<Rightarrow> Inl (InvalidNodeID signerAddr)
     | Some index \<Rightarrow>
         (case UnmarshalSignature N (cs_Signature commSeal) of
            Inl e \<Rightarrow> Inl InvalidSeal
          | Inr s \<Rightarrow> collectSeals N nodeIDIndexMap seals (Bitmap_Set (of_nat index) bm, signatures @ [s])))"

definition nodeIDIndexMap :: "address list \<Rightarrow> address \<rightharpoonup> nat" where
  "nodeIDIndexMap addrs = foldl (\<lambda>m (i, a). m(a \<mapsto> i)) Map.empty (zip [0..<length addrs] addrs)"

definition fsm_Insert ::
  "('a, 'v, 'g1, 'k) BftEnv \<Rightarrow> ('k, 't, 'i) Backend \<Rightarrow> byte list \<Rightarrow> CommittedSeal list \<Rightarrow> ('k, 'i, 'b) fsm
    \<Rightarrow> bftError + FullBlock" where
  "fsm_Insert E B proposal committedSeals f =
    (let R = be_R E; N = be_N E; accounts = vs_validators (f_validators f) in
     rbind (decodeBlock R N proposal) (\<lambda>proposedBlock.
     case f_target f of
       None \<Rightarrow> Inl ProposalDontMatch
     | Some newBlock \<Rightarrow>
         if hd_Hash (bl_Header (fl_Block newBlock)) \<noteq> hd_Hash (bl_Header proposedBlock) then Inl ProposalDontMatch
         else
           rbind (GetIbftExtra R N (hd_ExtraData (bl_Header (fl_Block newBlock)))) (\<lambda>extra.
           rbind (collectSeals N (nodeIDIndexMap (GetAddresses accounts)) committedSeals ([], [])) (\<lambda>(bm, signatures).
           let aggregatedSignature = G1_Marshal N (Signatures_Aggregate N signatures);
               extra = extra\<lparr>ex_Committed := Some \<lparr>sg_AggregatedSignature = aggregatedSignature, sg_Bitmap = bm\<rparr>\<rparr>;
               header = (bl_Header (fl_Block newBlock))\<lparr>hd_ExtraData :=
                 replicate ExtraVanity 0 @ Extra_MarshalRLPTo R N extra\<rparr>;
               newBlock = newBlock\<lparr>fl_Block := (fl_Block newBlock)\<lparr>bl_Header := header\<rparr>\<rparr>
           in rbind (bk_CommitBlock B newBlock) (\<lambda>_. Inr newBlock)))))"

subsection \<open>Headers\<close>

definition verifyHeaderImpl ::
  "('a, 'v, 'g1, 'k) BftEnv \<Rightarrow> 'k GetValidators \<Rightarrow> uint64 \<Rightarrow> Header \<Rightarrow> Header \<Rightarrow> bftError + unit" where
  "verifyHeaderImpl E GetVals chainID parent header =
    rbind (validateHeaderFields (be_R E) (be_N E) parent header) (\<lambda>_.
    rbind (GetIbftExtra (be_R E) (be_N E) (hd_ExtraData header)) (\<lambda>extra.
    ValidateFinalizedData E extra header parent GetVals chainID (DomainCheckpointManager (be_R E))))"

definition VerifyHeader ::
  "('a, 'v, 'g1, 'k) BftEnv \<Rightarrow> 'k GetValidators \<Rightarrow> uint64 \<Rightarrow> (hash \<Rightarrow> Header option) \<Rightarrow> Header \<Rightarrow> bftError + unit" where
  "VerifyHeader E GetVals chainID GetHeaderByHash header =
    (if GetHeaderByHash (hd_Hash header) \<noteq> None then Inr ()
     else need (GetHeaderByHash (hd_ParentHash header)) UnknownParent (\<lambda>parent.
       verifyHeaderImpl E GetVals chainID parent header))"

end
