(* ===== verification/StateSync.thy ===== *)
theory StateSync
  imports Fsm
begin

text \<open>
  State syncs from the root chain: the manager of \<^verbatim>\<open>consensus/plgbft/state_sync_manager.go\<close>, its part of the database
  (\<^verbatim>\<open>state_store_state_sync.go\<close>) and the commitments of \<^verbatim>\<open>state_transaction.go\<close>. Validators vote for commitments to
  ranges of events; a commitment with a quorum of votes goes into a block, and the events are then executed with
  Merkle proofs against it.

  The buckets of the database are maps, and the ordered bucket of commitments a sorted list; reading and
  writing JSON and the file behind it is not modelled, so that an operation on the database fails only where
  the code returns an error of its own. The ABI encoding of an event is a field of the configuration. The
  votes that the manager gossips are collected in \<open>sm_sent\<close>. The loop of \<^verbatim>\<open>getStateSyncEventsForCommitment\<close> ends at
  \<open>toIndex\<close>; for the last index that a counter can hold it would end only at an absent event.
\<close>

record StateSyncedEvent =
  ev_ID :: int
  ev_Sender :: address
  ev_Receiver :: address
  ev_Data :: "byte list"

record MessageSignature =
  ms_From :: string
  ms_Signature :: "byte list"

record TransportMessage =
  tm_Hash :: "byte list"
  tm_Signature :: "byte list"
  tm_From :: string
  tm_EpochNumber :: uint64

record PendingCommitment =
  pc_Commitment :: StateSyncCommitment
  pc_MerkleTree :: MerkleTree
  pc_Epoch :: uint64

record StateSyncProof =
  sp_Proof :: "hash list"
  sp_StateSync :: StateSyncedEvent

record StateSyncStore =
  db_events :: "uint64 \<rightharpoonup> StateSyncedEvent"
  db_commitments :: "(uint64 \<times> CommitmentMessageSigned) list"
  db_proofs :: "uint64 \<rightharpoonup> StateSyncProof"
  db_votes :: "uint64 \<rightharpoonup> (byte list \<rightharpoonup> MessageSignature list)"

record SyncConfig =
  sy_EncodeEvent :: "StateSyncedEvent \<Rightarrow> byte list option"
  sy_maxCommitmentSize :: uint64
  sy_keyString :: string
  sy_key :: int
  sy_big :: "nat \<Rightarrow> int"

record 'k stateSyncManager =
  sm_store :: StateSyncStore
  sm_pendingCommitments :: "PendingCommitment list"
  sm_validatorSet :: "'k validatorSet option"
  sm_epoch :: uint64
  sm_nextCommittedIndex :: uint64
  sm_sent :: "TransportMessage list"

subsection \<open>The database\<close>

definition insertStateSyncEvent :: "StateSyncedEvent \<Rightarrow> StateSyncStore \<Rightarrow> StateSyncStore" where
  "insertStateSyncEvent event db = db\<lparr>db_events := (db_events db)(big_Uint64 (ev_ID event) \<mapsto> event)\<rparr>"

fun eventsFrom :: "(uint64 \<rightharpoonup> StateSyncedEvent) \<Rightarrow> uint64 \<Rightarrow> nat \<Rightarrow> StateSyncedEvent list \<times> bftError option" where
  "eventsFrom m i 0 = ([], None)"
| "eventsFrom m i (Suc n) =
    (case m i of
       None \<Rightarrow> ([], Some NotEnoughStateSyncs)
     | Some event \<Rightarrow> let (events, e) = eventsFrom m (i + 1) n in (event # events, e))"

definition getStateSyncEventsForCommitment ::
  "uint64 \<Rightarrow> uint64 \<Rightarrow> StateSyncStore \<Rightarrow> StateSyncedEvent list \<times> bftError option" where
  "getStateSyncEventsForCommitment fromIndex toIndex db =
    eventsFrom (db_events db) fromIndex (if fromIndex \<le> toIndex then Suc (unat (toIndex - fromIndex)) else 0)"

definition ContainsStateSync :: "CommitmentMessageSigned \<Rightarrow> uint64 \<Rightarrow> bool" where
  "ContainsStateSync cm stateSyncID \<longleftrightarrow>
    big_Uint64 (sc_StartID (cm_Message cm)) \<le> stateSyncID \<and> stateSyncID \<le> big_Uint64 (sc_EndID (cm_Message cm))"

definition getCommitmentForStateSync :: "uint64 \<Rightarrow> StateSyncStore \<Rightarrow> bftError + CommitmentMessageSigned" where
  "getCommitmentForStateSync stateSyncID db =
    need (find (\<lambda>(k, _). stateSyncID \<le> k) (db_commitments db)) NoCommitmentForStateSync (\<lambda>(_, commitment).
    if \<not> ContainsStateSync commitment stateSyncID then Inl NoCommitmentForStateSync else Inr commitment)"

definition insertCommitmentMessage :: "CommitmentMessageSigned \<Rightarrow> StateSyncStore \<Rightarrow> StateSyncStore" where
  "insertCommitmentMessage commitment db =
    (let k = big_Uint64 (sc_EndID (cm_Message commitment)) in
     db\<lparr>db_commitments := insort_key fst (k, commitment) (filter (\<lambda>x. fst x \<noteq> k) (db_commitments db))\<rparr>)"

definition getCommitmentMessage :: "uint64 \<Rightarrow> StateSyncStore \<Rightarrow> CommitmentMessageSigned option" where
  "getCommitmentMessage toIndex db = map_of (db_commitments db) toIndex"

definition getMessageVotes :: "uint64 \<Rightarrow> byte list \<Rightarrow> StateSyncStore \<Rightarrow> bftError + MessageSignature list" where
  "getMessageVotes epoch hash db =
    need (db_votes db epoch) (NoEpochBucket epoch) (\<lambda>bucket.
    Inr (case bucket hash of None \<Rightarrow> [] | Some signatures \<Rightarrow> signatures))"

definition insertMessageVote ::
  "uint64 \<Rightarrow> byte list \<Rightarrow> MessageSignature \<Rightarrow> StateSyncStore \<Rightarrow> bftError + nat \<times> StateSyncStore" where
  "insertMessageVote epoch key vote db =
    rbind (getMessageVotes epoch key db) (\<lambda>signatures.
    if ms_From vote \<in> set (map ms_From signatures) then Inr (length signatures, db)
    else
      need (db_votes db epoch) (NoEpochBucket epoch) (\<lambda>bucket.
      Inr (length signatures + 1,
           db\<lparr>db_votes := (db_votes db)(epoch \<mapsto> bucket(key \<mapsto> signatures @ [vote]))\<rparr>)))"

definition insertStateSyncProofs :: "StateSyncProof list \<Rightarrow> StateSyncStore \<Rightarrow> StateSyncStore" where
  "insertStateSyncProofs proofs db =
    db\<lparr>db_proofs := foldl (\<lambda>m p. m(big_Uint64 (ev_ID (sp_StateSync p)) \<mapsto> p)) (db_proofs db) proofs\<rparr>"

text \<open>The buckets of epochs, \<^verbatim>\<open>cleanEpochsFromDB\<close> and \<^verbatim>\<open>insertEpoch\<close> of \<^verbatim>\<open>state_store_epoch.go\<close>.\<close>

definition cleanEpochsFromDB :: "StateSyncStore \<Rightarrow> StateSyncStore" where
  "cleanEpochsFromDB db = db\<lparr>db_votes := Map.empty\<rparr>"

definition insertEpoch :: "uint64 \<Rightarrow> StateSyncStore \<Rightarrow> StateSyncStore" where
  "insertEpoch epoch db =
    (case db_votes db epoch of
       None \<Rightarrow> db\<lparr>db_votes := (db_votes db)(epoch \<mapsto> Map.empty)\<rparr>
     | Some _ \<Rightarrow> db)"

subsection \<open>Commitments\<close>

fun encodeEvents :: "SyncConfig \<Rightarrow> StateSyncedEvent list \<Rightarrow> bftError + byte list list" where
  "encodeEvents C [] = Inr []"
| "encodeEvents C (sse # events) =
    need (sy_EncodeEvent C sse) AbiError (\<lambda>data. rbind (encodeEvents C events) (\<lambda>ssh. Inr (data # ssh)))"

definition createMerkleTree :: "('a, 'v) Codec \<Rightarrow> SyncConfig \<Rightarrow> StateSyncedEvent list \<Rightarrow> bftError + MerkleTree" where
  "createMerkleTree R C stateSyncEvents =
    rbind (encodeEvents C stateSyncEvents) (\<lambda>ssh.
    case NewMerkleTree (Keccak R) ssh of Inl e \<Rightarrow> Inl (MerkleErr e) | Inr t \<Rightarrow> Inr t)"

definition NewPendingCommitment ::
  "('a, 'v) Codec \<Rightarrow> SyncConfig \<Rightarrow> uint64 \<Rightarrow> StateSyncedEvent list \<Rightarrow> bftError + PendingCommitment" where
  "NewPendingCommitment R C epoch stateSyncEvents =
    rbind (createMerkleTree R C stateSyncEvents) (\<lambda>tree.
    Inr \<lparr>pc_Commitment = \<lparr>sc_StartID = ev_ID (hd stateSyncEvents), sc_EndID = ev_ID (last stateSyncEvents),
            sc_Root = MerkleTree_Hash tree\<rparr>,
         pc_MerkleTree = tree, pc_Epoch = epoch\<rparr>)"

definition PendingCommitment_Hash ::
  "('a, 'v) Codec \<Rightarrow> ('k, 't, 'i) Backend \<Rightarrow> PendingCommitment \<Rightarrow> bftError + hash" where
  "PendingCommitment_Hash R B cm =
    need (bk_EncodeCommitment B (pc_Commitment cm)) AbiError (\<lambda>data. Inr (Keccak R data))"

definition VerifyStateSyncProof ::
  "('a, 'v) Codec \<Rightarrow> SyncConfig \<Rightarrow> CommitmentMessageSigned \<Rightarrow> hash list \<Rightarrow> StateSyncedEvent option \<Rightarrow> bftError + unit" where
  "VerifyStateSyncProof R C cm proof stateSync =
    need stateSync NoStateSync (\<lambda>stateSync.
    let i = big_Uint64 (ev_ID stateSync); first = big_Uint64 (sc_StartID (cm_Message cm)) in
    if i < first \<or> big_Uint64 (sc_EndID (cm_Message cm)) < i then Inl InvalidStateSyncID
    else
      need (sy_EncodeEvent C stateSync) AbiError (\<lambda>hash.
      case VerifyProof (sy_big C) (Keccak R) (i - first) hash proof (sc_Root (cm_Message cm)) of
        Inl e \<Rightarrow> Inl (MerkleErr e)
      | Inr _ \<Rightarrow> Inr ()))"

fun getCommitmentMessageSignedTx ::
  "('k, 't, 'i) Backend \<Rightarrow> Transaction list \<Rightarrow> bftError + CommitmentMessageSigned option" where
  "getCommitmentMessageSignedTx B [] = Inr None"
| "getCommitmentMessageSignedTx B (tx # txs) =
    (if tx_Type tx \<noteq> StateTx \<or> length (tx_Input tx) < 4 \<or> take 4 (tx_Input tx) \<noteq> bk_CommitFnSig B
     then getCommitmentMessageSignedTx B txs
     else need (bk_DecodeCommitmentSigned B (tx_Input tx)) AbiError (\<lambda>obj. Inr (Some obj)))"

subsection \<open>Votes\<close>

definition verifyVoteSignature ::
  "('a, 'v, 'g1, 'k) BftEnv \<Rightarrow> 'k validatorSet \<Rightarrow> address \<Rightarrow> byte list \<Rightarrow> byte list \<Rightarrow> bftError + unit" where
  "verifyVoteSignature E valSet signer signature hash =
    need (GetValidatorMetadata (vs_validators valSet) signer) (UnresolvedValidator signer) (\<lambda>validator.
    case UnmarshalSignature (be_N E) signature of
      Inl e \<Rightarrow> Inl (BlsErr e)
    | Inr unmarshaledSignature \<Rightarrow>
        (case Signature_VerifyBls (be_N E) unmarshaledSignature (vm_BlsKey validator) hash (DomainStateReceiver (be_R E)) of
           Inl e \<Rightarrow> Inl (BlsErr e)
         | Inr ok \<Rightarrow> if \<not> ok then Inl SignatureNotVerified else Inr ()))"

definition saveVote ::
  "('a, 'v, 'g1, 'k) BftEnv \<Rightarrow> TransportMessage \<Rightarrow> 'k stateSyncManager \<Rightarrow> bftError + 'k stateSyncManager" where
  "saveVote E msg s =
    (case sm_validatorSet s of
       None \<Rightarrow> Inr s
     | Some valSet \<Rightarrow>
         if tm_EpochNumber msg \<noteq> sm_epoch s then Inr s
         else
           rbind (verifyVoteSignature E valSet (StringToAddress (tm_From msg)) (tm_Signature msg) (tm_Hash msg)) (\<lambda>_.
           rbind (insertMessageVote (tm_EpochNumber msg) (tm_Hash msg)
                    \<lparr>ms_From = tm_From msg, ms_Signature = tm_Signature msg\<rparr> (sm_store s)) (\<lambda>(_, db).
           Inr (s\<lparr>sm_store := db\<rparr>))))"

text \<open>The loop over the votes of a commitment: the bitmap, the signatures, the public keys and the signers.\<close>

fun collectVotes ::
  "('g1, 'k) Bn256 \<Rightarrow> (string \<rightharpoonup> nat) \<Rightarrow> 'k AccountSet \<Rightarrow> MessageSignature list
    \<Rightarrow> Bitmap \<times> 'g1 list \<times> byte list list \<times> address set \<Rightarrow> bftError + Bitmap \<times> 'g1 list \<times> byte list list \<times> address set" where
  "collectVotes N validatorAddrToIndex metadata [] acc = Inr acc"
| "collectVotes N validatorAddrToIndex metadata (vote # votes) (bmap, signatures, publicKeys, signers) =
    (case validatorAddrToIndex (ms_From vote) of
       None \<Rightarrow> collectVotes N validatorAddrToIndex metadata votes (bmap, signatures, publicKeys, signers)
     | Some index \<Rightarrow>
         (case UnmarshalSignature N (ms_Signature vote) of
            Inl e \<Rightarrow> Inl (BlsErr e)
          | Inr signature \<Rightarrow>
              collectVotes N validatorAddrToIndex metadata votes
                (Bitmap_Set (of_nat index) bmap, signatures @ [signature],
                 publicKeys @ [G2_Marshal N (vm_BlsKey (metadata ! index))],
                 insert (StringToAddress (ms_From vote)) signers)))"

definition validatorAddrToIndex :: "(byte list \<Rightarrow> hash) \<Rightarrow> 'k AccountSet \<Rightarrow> string \<rightharpoonup> nat" where
  "validatorAddrToIndex K as =
    foldl (\<lambda>m (i, v). m(checksumEncode K (vm_Address v) \<mapsto> i)) Map.empty (zip [0..<length as] as)"

definition getAggSignatureForCommitmentMessage ::
  "('a, 'v, 'g1, 'k) BftEnv \<Rightarrow> ('k, 't, 'i) Backend \<Rightarrow> 'k stateSyncManager \<Rightarrow> PendingCommitment
    \<Rightarrow> bftError + Signature \<times> byte list list" where
  "getAggSignatureForCommitmentMessage E B s commitment =
    need (sm_validatorSet s) NilDereference (\<lambda>validatorSet.
    let metadata = vs_validators validatorSet in
    rbind (PendingCommitment_Hash (be_R E) B commitment) (\<lambda>commitmentHash.
    rbind (getMessageVotes (pc_Epoch commitment) (hashBytes commitmentHash) (sm_store s)) (\<lambda>votes.
    rbind (collectVotes (be_N E) (validatorAddrToIndex (Keccak (be_R E)) metadata) metadata votes ([], [], [], {}))
      (\<lambda>(bmap, signatures, publicKeys, signers).
    if \<not> HasQuorum validatorSet signers then Inl QuorumNotReached
    else
      Inr (\<lparr>sg_AggregatedSignature = G1_Marshal (be_N E) (Signatures_Aggregate (be_N E) signatures), sg_Bitmap = bmap\<rparr>,
           publicKeys)))))"

fun largestCommitment ::
  "('a, 'v, 'g1, 'k) BftEnv \<Rightarrow> ('k, 't, 'i) Backend \<Rightarrow> 'k stateSyncManager \<Rightarrow> PendingCommitment list
    \<Rightarrow> bftError + CommitmentMessageSigned option" where
  "largestCommitment E B s [] = Inr None"
| "largestCommitment E B s (commitment # cs) =
    (case getAggSignatureForCommitmentMessage E B s commitment of
       Inl e \<Rightarrow> if e = QuorumNotReached then largestCommitment E B s cs else Inl e
     | Inr (aggregatedSignature, publicKeys) \<Rightarrow>
         Inr (Some \<lparr>cm_Message = pc_Commitment commitment, cm_AggSignature = aggregatedSignature,
                    cm_PublicKeys = publicKeys\<rparr>))"

text \<open>\<^verbatim>\<open>Commitment\<close> goes through the pending commitments from the last one.\<close>

definition manager_Commitment ::
  "('a, 'v, 'g1, 'k) BftEnv \<Rightarrow> ('k, 't, 'i) Backend \<Rightarrow> 'k stateSyncManager \<Rightarrow> bftError + CommitmentMessageSigned option" where
  "manager_Commitment E B s = largestCommitment E B s (rev (sm_pendingCommitments s))"

subsection \<open>Building\<close>

definition minCommitmentSize :: nat where "minCommitmentSize = 2"

definition buildCommitment ::
  "('a, 'v, 'g1, 'k) BftEnv \<Rightarrow> ('k, 't, 'i) Backend \<Rightarrow> SyncConfig \<Rightarrow> 'k stateSyncManager \<Rightarrow> bftError + 'k stateSyncManager" where
  "buildCommitment E B C s =
    (let R = be_R E; N = be_N E; epoch = sm_epoch s; fromIndex = sm_nextCommittedIndex s;
         (stateSyncEvents, _) =
           getStateSyncEventsForCommitment fromIndex (fromIndex + sy_maxCommitmentSize C - 1) (sm_store s)
     in
     if length stateSyncEvents < minCommitmentSize then Inr s
     else if sm_pendingCommitments s \<noteq> []
       \<and> ev_ID (last stateSyncEvents) \<le> sc_StartID (pc_Commitment (last (sm_pendingCommitments s))) then Inr s
     else
       rbind (NewPendingCommitment R C epoch stateSyncEvents) (\<lambda>commitment.
       rbind (PendingCommitment_Hash R B commitment) (\<lambda>hash.
       case PrivateKey_Sign N (sy_key C) (hashBytes hash) (DomainStateReceiver R) of
         Inl e \<Rightarrow> Inl (BlsErr e)
       | Inr point \<Rightarrow>
           let signature = G1_Marshal N point in
           rbind (insertMessageVote epoch (hashBytes hash) \<lparr>ms_From = sy_keyString C, ms_Signature = signature\<rparr> (sm_store s))
             (\<lambda>(_, db).
           Inr (s\<lparr>sm_store := db,
                  sm_sent := sm_sent s @ [\<lparr>tm_Hash = hashBytes hash, tm_Signature = signature,
                                           tm_From = sy_keyString C, tm_EpochNumber = epoch\<rparr>],
                  sm_pendingCommitments := sm_pendingCommitments s @ [commitment]\<rparr>)))))"

text \<open>A log that does not decode as an event is ignored; errors of the commitment are only logged.\<close>

definition manager_AddLog ::
  "('a, 'v, 'g1, 'k) BftEnv \<Rightarrow> ('k, 't, 'i) Backend \<Rightarrow> SyncConfig \<Rightarrow> StateSyncedEvent option
    \<Rightarrow> 'k stateSyncManager \<Rightarrow> 'k stateSyncManager" where
  "manager_AddLog E B C parsed s =
    (case parsed of
       None \<Rightarrow> s
     | Some event \<Rightarrow>
         let s = s\<lparr>sm_store := insertStateSyncEvent event (sm_store s)\<rparr>
         in case buildCommitment E B C s of Inl e \<Rightarrow> s | Inr s \<Rightarrow> s)"

definition PostEpoch ::
  "('a, 'v, 'g1, 'k) BftEnv \<Rightarrow> ('k, 't, 'i) Backend \<Rightarrow> SyncConfig \<Rightarrow> 'k validatorSet \<Rightarrow> uint64 \<Rightarrow> (bftError + uint64)
    \<Rightarrow> 'k stateSyncManager \<Rightarrow> bftError option \<times> 'k stateSyncManager" where
  "PostEpoch E B C valSet newEpochID getNextCommittedIndex s =
    (let s = s\<lparr>sm_pendingCommitments := [], sm_validatorSet := Some valSet, sm_epoch := newEpochID\<rparr> in
     case getNextCommittedIndex of
       Inl e \<Rightarrow> (Some e, s)
     | Inr nextCommittedIndex \<Rightarrow>
         let s = s\<lparr>sm_nextCommittedIndex := nextCommittedIndex\<rparr>
         in case buildCommitment E B C s of Inl e \<Rightarrow> (Some e, s) | Inr s \<Rightarrow> (None, s))"

subsection \<open>Proofs\<close>

fun eventProofs :: "SyncConfig \<Rightarrow> MerkleTree \<Rightarrow> StateSyncedEvent list \<Rightarrow> bftError + StateSyncProof list" where
  "eventProofs C tree [] = Inr []"
| "eventProofs C tree (event # events) =
    need (sy_EncodeEvent C event) AbiError (\<lambda>leaf.
    case GenerateProof tree leaf of
      Inl e \<Rightarrow> Inl (MerkleErr e)
    | Inr p \<Rightarrow> rbind (eventProofs C tree events) (\<lambda>ps. Inr (\<lparr>sp_Proof = p, sp_StateSync = event\<rparr> # ps)))"

definition buildProofs ::
  "('a, 'v) Codec \<Rightarrow> SyncConfig \<Rightarrow> StateSyncCommitment \<Rightarrow> StateSyncStore \<Rightarrow> bftError + StateSyncStore" where
  "buildProofs R C commitmentMsg db =
    (case getStateSyncEventsForCommitment (big_Uint64 (sc_StartID commitmentMsg)) (big_Uint64 (sc_EndID commitmentMsg)) db of
       (_, Some e) \<Rightarrow> Inl e
     | (events, None) \<Rightarrow>
         rbind (createMerkleTree R C events) (\<lambda>tree.
         rbind (eventProofs C tree events) (\<lambda>stateSyncProofs.
         Inr (insertStateSyncProofs stateSyncProofs db))))"

definition manager_PostBlock ::
  "('a, 'v) Codec \<Rightarrow> ('k, 't, 'i) Backend \<Rightarrow> SyncConfig \<Rightarrow> Transaction list \<Rightarrow> 'k stateSyncManager
    \<Rightarrow> bftError option \<times> 'k stateSyncManager" where
  "manager_PostBlock R B C txs s =
    (case getCommitmentMessageSignedTx B txs of
       Inl e \<Rightarrow> (Some e, s)
     | Inr None \<Rightarrow> (None, s)
     | Inr (Some commitment) \<Rightarrow>
         let s = s\<lparr>sm_store := insertCommitmentMessage commitment (sm_store s)\<rparr>
         in case buildProofs R C (cm_Message commitment) (sm_store s) of
              Inl e \<Rightarrow> (Some e, s)
            | Inr db \<Rightarrow>
                (None, s\<lparr>sm_store := db, sm_nextCommittedIndex := big_Uint64 (sc_EndID (cm_Message commitment)) + 1,
                         sm_pendingCommitments := []\<rparr>))"

text \<open>A proof that is not there is built from the commitment that contains the event.\<close>

definition GetStateSyncProof ::
  "('a, 'v) Codec \<Rightarrow> SyncConfig \<Rightarrow> uint64 \<Rightarrow> 'k stateSyncManager \<Rightarrow> (bftError + StateSyncProof) \<times> 'k stateSyncManager" where
  "GetStateSyncProof R C stateSyncID s =
    (case db_proofs (sm_store s) stateSyncID of
       Some p \<Rightarrow> (Inr p, s)
     | None \<Rightarrow>
         (case rbind (getCommitmentForStateSync stateSyncID (sm_store s)) (\<lambda>commitment.
                 buildProofs R C (cm_Message commitment) (sm_store s)) of
            Inl e \<Rightarrow> (Inl e, s)
          | Inr db \<Rightarrow> (need (db_proofs db stateSyncID) NilDereference Inr, s\<lparr>sm_store := db\<rparr>)))"

end
