(* ===== verification/FsmProps.thy ===== *)
theory FsmProps
  imports Fsm ExtraProps
begin

text \<open>
  A proposal that the validators have checked and committed to becomes a block whose header every node
  accepts: the composition of \<^verbatim>\<open>Validate\<close>, \<^verbatim>\<open>ValidateCommit\<close>, \<^verbatim>\<open>Insert\<close> and the verification of headers.
\<close>

subsection \<open>What the curve promises\<close>

text \<open>Points can be added in any order, and the pairing is bilinear: valid signatures of one message can be
  added up together with their keys.\<close>

definition bn256_ok :: "('g1, 'k) Bn256 \<Rightarrow> bool" where
  "bn256_ok N \<longleftrightarrow>
    (\<forall>a b c. G1_Add N (G1_Add N a b) c = G1_Add N (G1_Add N a c) b)
  \<and> (\<forall>p q. PairingCheck N [G1_New N, p] [q, G2_New N])
  \<and> (\<forall>p q s k s' k'. PairingCheck N [s, p] [q, k] \<longrightarrow> PairingCheck N [s', p] [q, k']
       \<longrightarrow> PairingCheck N [G1_Add N s s', p] [q, G2_Add N k k'])"

lemma Signatures_Aggregate_perm:
  assumes "bn256_ok N" "mset ss = mset ts"
  shows "Signatures_Aggregate N ss = Signatures_Aggregate N ts"
proof -
  have "fold (\<lambda>x s. G1_Add N s x) ss = fold (\<lambda>x s. G1_Add N s x) ts"
    using assms by (intro fold_multiset_equiv) (auto simp: bn256_ok_def fun_eq_iff)
  then show ?thesis by (simp add: Signatures_Aggregate_def foldl_conv_fold)
qed

lemma aggregate_verifies:
  assumes "bn256_ok N" "\<And>v. v \<in> set vs \<Longrightarrow> PairingCheck N [s v, p] [q, k v]"
  shows "PairingCheck N [Signatures_Aggregate N (map s vs), p] [q, PublicKeys_Aggregate N (map k vs)]"
  using assms(2)
proof (induction vs rule: rev_induct)
  case Nil
  then show ?case using assms(1) by (simp add: Signatures_Aggregate_def PublicKeys_Aggregate_def bn256_ok_def)
next
  case (snoc v vs)
  then show ?case using assms(1) by (simp add: Signatures_Aggregate_def PublicKeys_Aggregate_def bn256_ok_def)
qed

lemma Signature_VerifyBls_iff:
  "Signature_VerifyBls N s k msg domain = Inr True \<longleftrightarrow>
    (\<exists>point. hashToPoint N msg domain = Inr point \<and> PairingCheck N [s, point] [negG2Point N, k])"
  by (auto simp: Signature_VerifyBls_def split: sum.splits blsError.splits)

subsection \<open>Collecting seals\<close>

definition sealSigner :: "CommittedSeal \<Rightarrow> address" where
  "sealSigner s = word_of_int (big_SetBytes (cs_Signer s))"

definition sealPoint :: "('g1, 'k) Bn256 \<Rightarrow> CommittedSeal \<Rightarrow> 'g1" where
  "sealPoint N s = projr (UnmarshalSignature N (cs_Signature s))"

lemma nodeIDIndexMap_Index:
  assumes "distinct (map vm_Address as)"
  shows "nodeIDIndexMap (GetAddresses as) = AccountSet_Index as"
proof
  fix a
  have "foldl (\<lambda>m (i, a). m(a \<mapsto> i)) m (zip [k..<k + length as] (map vm_Address as)) a =
    (case AccountSet_Index as a of None \<Rightarrow> m a | Some i \<Rightarrow> Some (k + i))" for m k
    using assms
  proof (induction as arbitrary: m k)
    case (Cons v as)
    have "AccountSet_Index as (vm_Address v) = None" using Cons.prems by (simp add: Index_None)
    moreover have "[k..<k + length (v # as)] = k # [Suc k..<Suc k + length as]"
      by (simp add: upt_conv_Cons del: upt_Suc)
    ultimately show ?case using Cons.IH [of "m(vm_Address v \<mapsto> k)" "Suc k"] Cons.prems
      by (auto split: option.splits simp del: upt_Suc)
  qed simp
  from this [of Map.empty 0] show "nodeIDIndexMap (GetAddresses as) a = AccountSet_Index as a"
    by (simp add: nodeIDIndexMap_def GetAddresses_def split: option.splits)
qed

lemma collectSeals_ok:
  assumes "\<forall>s \<in> set seals. \<exists>i g. m (sealSigner s) = Some i \<and> UnmarshalSignature N (cs_Signature s) = Inr g"
  shows "collectSeals N m seals (bm, sigs) =
    Inr (fold (\<lambda>i. Bitmap_Set (of_nat i)) (map (\<lambda>s. the (m (sealSigner s))) seals) bm, sigs @ map (sealPoint N) seals)"
  using assms
  by (induction seals arbitrary: bm sigs) (auto simp: sealSigner_def sealPoint_def)

lemma GetFilteredValidators_signers:
  assumes "distinct (map vm_Address as)" "length as + 8 < 2 ^ 63" "S \<subseteq> vm_Address ` set as" "set is = {i. i < length as \<and> vm_Address (as ! i) \<in> S}"
  shows "GetFilteredValidators as (fold (\<lambda>i. Bitmap_Set (of_nat i)) is []) = Inr (filter (\<lambda>v. vm_Address v \<in> S) as)"
proof (cases "as = []")
  case False
  let ?bm = "fold (\<lambda>i. Bitmap_Set (of_nat i)) is [] :: Bitmap"
  have bits: "Bitmap_IsSet ?bm (of_nat j) \<longleftrightarrow> j < length as \<and> vm_Address (as ! j) \<in> S" if "j < 2 ^ 64" for j
    using assms(2,4) that Bitmap_fold_Set [of "is" "length as" "[]" j] by (simp add: Bitmap_IsSet_Nil)
  have "unat (Bitmap_Len ?bm) < 2 ^ 64" using unsigned_less [of "Bitmap_Len ?bm"] by simp
  then have none: "\<forall>i \<in> set [length as..<unat (Bitmap_Len ?bm)]. \<not> Bitmap_IsSet ?bm (of_nat i)" using bits by auto
  have "map fst (filter (\<lambda>(v, i). Bitmap_IsSet ?bm (of_nat i)) (zip as [0..<length as])) = filter (\<lambda>v. vm_Address v \<in> S) as"
    using assms(2) by (intro filter_zip_index [where P = "\<lambda>v i. Bitmap_IsSet ?bm (of_nat i)"]) (simp add: bits)
  then show ?thesis using False none by (auto simp: GetFilteredValidators_def)
qed (simp add: GetFilteredValidators_def)

subsection \<open>The aggregated seals\<close>

lemma ValidateCommit_ok:
  assumes "ValidateCommit E f (cs_Signer s) (cs_Signature s) msg = Inr ()"
    and "distinct (map vm_Address (vs_validators (f_validators f)))"
  shows "\<exists>v \<in> set (vs_validators (f_validators f)). vm_Address v = sealSigner s
    \<and> UnmarshalSignature (be_N E) (cs_Signature s) = Inr (sealPoint (be_N E) s)
    \<and> Signature_VerifyBls (be_N E) (sealPoint (be_N E) s) (vm_BlsKey v) msg (DomainCheckpointManager (be_R E)) = Inr True"
proof -
  obtain v g where "GetValidatorMetadata (vs_validators (f_validators f)) (sealSigner s) = Some v"
    "UnmarshalSignature (be_N E) (cs_Signature s) = Inr g"
    "Signature_VerifyBls (be_N E) g (vm_BlsKey v) msg (DomainCheckpointManager (be_R E)) = Inr True"
    using assms(1) unfolding ValidateCommit_def Let_def sealSigner_def
    by (auto split: option.splits sum.splits if_splits)
  moreover from this(1) have "v \<in> set (vs_validators (f_validators f)) \<and> vm_Address v = sealSigner s"
    using metadataOf_Some [OF assms(2)] by (simp add: GetValidatorMetadata_def metadataOf_def)
  ultimately show ?thesis by (auto simp: sealPoint_def)
qed

text \<open>The seal of each signer: with distinct signers, the seals are those of the validators in their order.\<close>

lemma signer_seals:
  fixes signers :: "'k AccountSet"
  assumes "distinct (map sealSigner seals)" "distinct (map vm_Address signers)"
    and "vm_Address ` set signers = sealSigner ` set seals"
  shows "\<exists>sealOf. (\<forall>v \<in> set signers. sealOf v \<in> set seals \<and> sealSigner (sealOf v) = vm_Address v)
    \<and> mset seals = mset (map sealOf signers)"
proof -
  have "\<forall>v \<in> set signers. \<exists>s. s \<in> set seals \<and> sealSigner s = vm_Address v" using assms(3) by (metis (mono_tags, lifting) imageE image_eqI)
  then obtain sealOf where sealOf: "\<forall>v \<in> set signers. sealOf v \<in> set seals \<and> sealSigner (sealOf v) = vm_Address v" by metis
  then have "map sealSigner (map sealOf signers) = map vm_Address signers" by simp
  then have dist: "distinct (map sealOf signers)" using assms(2) by (metis distinct_map)
  have "s \<in> set (map sealOf signers)" if "s \<in> set seals" for s
  proof -
    obtain v where v: "v \<in> set signers" "vm_Address v = sealSigner s" using assms(3) \<open>s \<in> set seals\<close> by (metis (mono_tags, lifting) imageE image_eqI)
    then have "s = sealOf v" using sealOf assms(1) \<open>s \<in> set seals\<close> by (metis distinct_map inj_onD)
    then show ?thesis using v(1) by simp
  qed
  then have "set seals = set (map sealOf signers)" using sealOf by auto
  then have "mset seals = mset (map sealOf signers)" using dist assms(1) by (metis distinct_map set_eq_iff_mset_eq_distinct)
  then show ?thesis using sealOf by blast
qed

text \<open>Seals that were checked one by one add up to a signature that is valid for the keys in the order of the
  validators.\<close>

lemma seals_add_up:
  fixes signers :: "'k AccountSet"
  assumes "bn256_ok N" "seals \<noteq> []" "distinct (map sealSigner seals)" "distinct (map vm_Address signers)"
    and "vm_Address ` set signers = sealSigner ` set seals"
    and commits: "\<And>s v. s \<in> set seals \<Longrightarrow> v \<in> set signers \<Longrightarrow> vm_Address v = sealSigner s
      \<Longrightarrow> Signature_VerifyBls N (sealPoint N s) (vm_BlsKey v) msg domain = Inr True"
  shows "VerifyAggregated N (Signatures_Aggregate N (map (sealPoint N) seals)) (map vm_BlsKey signers) msg domain = Inr True"
proof -
  obtain sealOf where sealOf: "\<forall>v \<in> set signers. sealOf v \<in> set seals \<and> sealSigner (sealOf v) = vm_Address v"
    and perm: "mset seals = mset (map sealOf signers)" using signer_seals [OF assms(3-5)] by blast
  have "mset (map (sealPoint N) seals) = mset (map (\<lambda>v. sealPoint N (sealOf v)) signers)"
    using arg_cong [OF perm, of "image_mset (sealPoint N)"] by (simp add: image_mset.compositionality comp_def)
  then have agg: "Signatures_Aggregate N (map (sealPoint N) seals) = Signatures_Aggregate N (map (\<lambda>v. sealPoint N (sealOf v)) signers)"
    using assms(1) by (intro Signatures_Aggregate_perm)
  have each: "\<exists>point. hashToPoint N msg domain = Inr point \<and> PairingCheck N [sealPoint N (sealOf v), point] [negG2Point N, vm_BlsKey v]"
    if "v \<in> set signers" for v
    using commits [of "sealOf v" v] sealOf that by (simp add: Signature_VerifyBls_iff)
  have "signers \<noteq> []" using assms(2,5) by auto
  then obtain point where point: "hashToPoint N msg domain = Inr point" using each [of "hd signers"] by auto
  then have "PairingCheck N [Signatures_Aggregate N (map (\<lambda>v. sealPoint N (sealOf v)) signers), point]
    [negG2Point N, PublicKeys_Aggregate N (map vm_BlsKey signers)]"
    using each assms(1) by (intro aggregate_verifies) auto
  then show ?thesis using point by (simp add: VerifyAggregated_def Signature_VerifyBls_iff agg)
qed

lemma filter_addresses: "S \<subseteq> vm_Address ` set as \<Longrightarrow> vm_Address ` set (filter (\<lambda>v. vm_Address v \<in> S) as) = S"
  by auto

lemma signer_indices:
  assumes "distinct (map vm_Address as)" "S \<subseteq> vm_Address ` set as"
  shows "(\<lambda>a. the (AccountSet_Index as a)) ` S = {i. i < length as \<and> vm_Address (as ! i) \<in> S}"
proof -
  have "the (AccountSet_Index as (vm_Address (as ! i))) = i" if "i < length as" for i
    using Index_distinct [OF assms(1) that] by simp
  moreover have "\<exists>i < length as. a = vm_Address (as ! i)" if "a \<in> S" for a
    using subsetD [OF assms(2) that] by (metis imageE in_set_conv_nth)
  ultimately show ?thesis by (force simp: image_iff)
qed

lemma NewValidatorSet_validators: "NewValidatorSet as = Inr vs \<Longrightarrow> vs_validators vs = as"
  unfolding NewValidatorSet_def Let_def by (auto simp: rbind_def split: sum.splits)

lemma seals_aggregate:
  assumes "bn256_ok N" "distinct (map vm_Address as)" "length as + 8 < 2 ^ 63" "seals \<noteq> []" "distinct (map sealSigner seals)"
    and sub: "sealSigner ` set seals \<subseteq> vm_Address ` set as"
    and commits: "\<And>s v. s \<in> set seals \<Longrightarrow> v \<in> set as \<Longrightarrow> vm_Address v = sealSigner s
      \<Longrightarrow> Signature_VerifyBls N (sealPoint N s) (vm_BlsKey v) msg domain = Inr True"
    and bm: "bm = fold (\<lambda>i. Bitmap_Set (of_nat i)) (map (\<lambda>s. the (AccountSet_Index as (sealSigner s))) seals) []"
  shows "\<exists>signers. GetFilteredValidators as bm = Inr signers \<and> GetAddressesAsSet signers = sealSigner ` set seals
    \<and> VerifyAggregated N (Signatures_Aggregate N (map (sealPoint N) seals)) (map vm_BlsKey signers) msg domain = Inr True
    \<and> length bm \<le> length as"
proof -
  let ?is = "map (\<lambda>s. the (AccountSet_Index as (sealSigner s))) seals" and ?S = "sealSigner ` set seals"
  let ?signers = "filter (\<lambda>v. vm_Address v \<in> ?S) as"
  have "set ?is = {i. i < length as \<and> vm_Address (as ! i) \<in> ?S}" using signer_indices [OF assms(2) sub] by (simp add: image_image)
  note filtered = GetFilteredValidators_signers [OF assms(2,3) sub this]
  have "length bm * 8 \<le> length as + 7"
    unfolding bm using \<open>set ?is = _\<close> assms(3) by (intro Bitmap_fold_Set_length) auto
  then have "length bm \<le> length as" by simp
  moreover have addrs: "vm_Address ` set ?signers = ?S" using sub by (rule filter_addresses)
  moreover have "VerifyAggregated N (Signatures_Aggregate N (map (sealPoint N) seals)) (map vm_BlsKey ?signers) msg domain = Inr True"
    using commits assms(2) by (intro seals_add_up [OF assms(1,4,5) _ addrs]) (auto simp: distinct_map_filter)
  ultimately show ?thesis using filtered by (auto simp: bm GetAddressesAsSet_def)
qed

lemma seals_verify:
  assumes "bn256_ok (be_N E)" "NewValidatorSet as = Inr (f_validators f)" "distinct (map vm_Address as)" "length as + 8 < 2 ^ 63"
    and commits: "\<forall>s \<in> set seals. ValidateCommit E f (cs_Signer s) (cs_Signature s) (hashBytes ch) = Inr ()"
    and "seals \<noteq> []" "distinct (map sealSigner seals)" "HasQuorum (f_validators f) (sealSigner ` set seals)"
    and agg: "agg = Signatures_Aggregate (be_N E) (map (sealPoint (be_N E)) seals)"
    and "UnmarshalSignature (be_N E) (G1_Marshal (be_N E) agg) = Inr agg"
  shows "\<exists>bm. collectSeals (be_N E) (nodeIDIndexMap (GetAddresses as)) seals ([], []) = Inr (bm, map (sealPoint (be_N E)) seals)
    \<and> length bm \<le> length as \<and> Signature_Verify (be_N E) \<lparr>sg_AggregatedSignature = G1_Marshal (be_N E) agg, sg_Bitmap = bm\<rparr> as ch
        (DomainCheckpointManager (be_R E)) = Inr ()"
proof -
  have vs: "vs_validators (f_validators f) = as" using assms(2) by (rule NewValidatorSet_validators)
  note commit = ValidateCommit_ok [OF commits [rule_format], unfolded vs, OF _ assms(3)]
  have sub: "sealSigner ` set seals \<subseteq> vm_Address ` set as" by (rule image_subsetI) (metis commit image_eqI)
  define bm where "bm = fold (\<lambda>i. Bitmap_Set (of_nat i)) (map (\<lambda>s. the (AccountSet_Index as (sealSigner s))) seals) []"
  have "\<exists>i g. AccountSet_Index as (sealSigner s) = Some i \<and> UnmarshalSignature (be_N E) (cs_Signature s) = Inr g" if "s \<in> set seals" for s
    using commit [OF that] sub that Index_None [of as "sealSigner s"] by fastforce
  then have "collectSeals (be_N E) (nodeIDIndexMap (GetAddresses as)) seals ([], []) = Inr (bm, map (sealPoint (be_N E)) seals)"
    by (simp add: nodeIDIndexMap_Index [OF assms(3)] collectSeals_ok bm_def)
  moreover have each: "Signature_VerifyBls (be_N E) (sealPoint (be_N E) s) (vm_BlsKey v) (hashBytes ch) (DomainCheckpointManager (be_R E)) = Inr True"
    if sv: "s \<in> set seals" "v \<in> set as" "vm_Address v = sealSigner s" for s v
  proof -
    obtain w where w: "w \<in> set as" "vm_Address w = sealSigner s"
      "Signature_VerifyBls (be_N E) (sealPoint (be_N E) s) (vm_BlsKey w) (hashBytes ch) (DomainCheckpointManager (be_R E)) = Inr True"
      using commit [OF sv(1)] by blast
    then have "w = v" using sv(2,3) assms(3) by (metis distinct_map inj_onD)
    then show ?thesis using w(3) by simp
  qed
  obtain signers where "GetFilteredValidators as bm = Inr signers" "GetAddressesAsSet signers = sealSigner ` set seals"
      "VerifyAggregated (be_N E) agg (map vm_BlsKey signers) (hashBytes ch) (DomainCheckpointManager (be_R E)) = Inr True"
      "length bm \<le> length as"
    using seals_aggregate [OF assms(1,3,4,6,7) sub each bm_def] agg by blast
  ultimately show ?thesis using assms(2,8,10) by (simp add: Signature_Verify_def)
qed

subsection \<open>From a proposal to a verified header\<close>

text \<open>What the execution of blocks promises: it succeeds only if its callback accepted the resulting state.\<close>

definition process_ok :: "('k, 't, 'i) Backend \<Rightarrow> bool" where
  "process_ok B \<longleftrightarrow> (\<forall>parent block callback sb.
    bk_ProcessBlock B parent block callback = Inr sb \<longrightarrow> (\<exists>t. callback t = Inr ()))"

lemma Validate_ok:
  assumes "Validate E B proposal f = Inr f'"
  shows "\<exists>block x px c pc sb. decodeBlock (be_R E) (be_N E) proposal = Inr block
    \<and> validateHeaderFields (be_R E) (be_N E) (f_parent f) (bl_Header block) = Inr ()
    \<and> GetIbftExtra (be_R E) (be_N E) (hd_ExtraData (bl_Header block)) = Inr x
    \<and> GetIbftExtra (be_R E) (be_N E) (hd_ExtraData (f_parent f)) = Inr px
    \<and> ex_Checkpoint x = Some c \<and> ex_Checkpoint px = Some pc
    \<and> ValidateParentSignatures E x (hd_Number (bl_Header block)) (bk_GetValidators B) (f_parent f) px
        (bk_GetChainID B) (DomainCheckpointManager (be_R E)) = Inr ()
    \<and> bk_ProcessBlock B (f_parent f) block (validateExtraData E B f x c (Some pc)) = Inr sb
    \<and> f' = f\<lparr>f_target := Some sb\<rparr>"
  using assms unfolding Validate_def Let_def
  by (auto simp: rbind_def need_def split: sum.splits option.splits)

lemma validateExtraData_basic:
  assumes "validateExtraData E B f x c pc t = Inr ()"
  shows "CheckpointData_ValidateBasic c pc = Inr ()"
  using assms unfolding validateExtraData_def CheckpointData_Validate_def Let_def
  by (auto simp: rbind_def split: sum.splits if_splits)

lemma GetIbftExtra_delta: "GetIbftExtra R N raw = Inr x \<Longrightarrow> ex_Validators x \<noteq> None"
  unfolding GetIbftExtra_def by (auto simp: rbind_def split: sum.splits if_splits)

lemma plgBFTHeaderHash_sealed:
  assumes "GetIbftExtra R N (hd_ExtraData h) = Inr x" "GetIbftExtra R N raw = Inr (x\<lparr>ex_Committed := s\<rparr>)"
  shows "plgBFTHeaderHash R N (h\<lparr>hd_ExtraData := raw\<rparr>) = plgBFTHeaderHash R N h"
  using assms by (simp add: plgBFTHeaderHash_def GetIbftExtraClean_def)

lemma sealed_header_verifies:
  assumes "fastrlp_ok (be_R E) pv" "validateHeaderFields (be_R E) (be_N E) parent h = Inr ()"
    and "GetIbftExtra (be_R E) (be_N E) (hd_ExtraData h) = Inr x" "ex_Checkpoint x = Some c"
    and "GetIbftExtra (be_R E) (be_N E) (hd_ExtraData parent) = Inr px"
    and "ValidateParentSignatures E x (hd_Number h) GetVals parent px chainID (DomainCheckpointManager (be_R E)) = Inr ()"
    and "CheckpointData_ValidateBasic c (ex_Checkpoint px) = Inr ()"
    and "CheckpointData_Hash E c chainID (hd_Number h) (hd_Hash h) = Inr ch"
    and "GetVals (hd_Number parent) = Inr as"
    and "Signature_Verify (be_N E) s as ch (DomainCheckpointManager (be_R E)) = Inr ()"
    and "delta_ok (be_N E) (ex_Validators x)"
    and "length (Extra_MarshalRLPTo (be_R E) (be_N E) (x\<lparr>ex_Committed := Some s\<rparr>)) < 2 ^ 64"
  shows "verifyHeaderImpl E GetVals chainID parent
    (h\<lparr>hd_ExtraData := replicate ExtraVanity 0 @ Extra_MarshalRLPTo (be_R E) (be_N E) (x\<lparr>ex_Committed := Some s\<rparr>)\<rparr>) = Inr ()"
proof -
  let ?x = "x\<lparr>ex_Committed := Some s\<rparr>" and ?raw = "headerExtra (be_R E) (be_N E) (x\<lparr>ex_Committed := Some s\<rparr>)"
  have read: "GetIbftExtra (be_R E) (be_N E) ?raw = Inr ?x"
    using GetIbftExtra_headerExtra [OF assms(1), of "be_N E" ?x] assms(11,12) GetIbftExtra_delta [OF assms(3)]
    by (simp add: with_delta_def)
  have fields: "validateHeaderFields (be_R E) (be_N E) parent (h\<lparr>hd_ExtraData := ?raw\<rparr>) = Inr ()"
    using assms(2) plgBFTHeaderHash_sealed [OF assms(3) read] by (simp add: validateHeaderFields_def split: if_splits)
  have "hd_Number h - 1 = hd_Number parent" using assms(2) by (auto simp: validateHeaderFields_def split: if_splits)
  moreover have "ValidateParentSignatures E ?x n GetVals parent px chainID d = ValidateParentSignatures E x n GetVals parent px chainID d" for n d
    by (simp add: ValidateParentSignatures_def)
  ultimately have "ValidateFinalizedData E ?x (h\<lparr>hd_ExtraData := ?raw\<rparr>) parent GetVals chainID (DomainCheckpointManager (be_R E)) = Inr ()"
    using assms(4-10) by (simp add: ValidateFinalizedData_def)
  then show ?thesis using fields read by (simp add: verifyHeaderImpl_def headerExtra_def)
qed


subsection \<open>A block of three validators\<close>

definition demo_seal :: "byte \<Rightarrow> int \<Rightarrow> CommittedSeal" where
  "demo_seal a k = \<lparr>cs_Signer = [a], cs_Signature = big_Bytes (demo_point * k)\<rparr>"

definition demo_header :: Header where
  "demo_header = zeroHeader\<lparr>hd_Number := 1, hd_Timestamp := 1, hd_MixHash := PlgBFTMixDigest, hd_Difficulty := 1,
     hd_ExtraData := headerExtra demo_codec demo_curve (demo_extra None)\<rparr>"

definition demo_block :: Block where
  "demo_block = zeroBlock\<lparr>bl_Header := Header_ComputeHash (plgBFTHeaderHash demo_codec demo_curve) demo_header\<rparr>"

definition demo_proposal :: "byte list" where
  "demo_proposal = Block_MarshalRLPTo demo_codec demo_block []"

definition demo_backend :: "(int, unit, unit) Backend" where
  "demo_backend =
    \<lparr> bk_GetValidators = (\<lambda>_. Inr demo_accounts), bk_GetChainID = 100,
      bk_ProcessBlock = (\<lambda>parent block callback.
        rbind (callback ()) (\<lambda>_. Inr \<lparr>fl_Block = block, fl_Receipts = []\<rparr>)),
      bk_CommitBlock = (\<lambda>_. Inr ()), bk_GetValidatorSet = (\<lambda>_. Inr demo_accounts),
      bk_EncodeCommitEpoch = (\<lambda>_. Some []), bk_DecodesAsCommitEpoch = (\<lambda>_. True),
      bk_EncodeCommitment = (\<lambda>_. Some []), bk_EncodeCommitmentSigned = (\<lambda>_. Some []),
      bk_DecodeCommitmentSigned = (\<lambda>_. None), bk_CommitFnSig = [0, 0, 0, 1], bk_CommitEpochFnSig = [0, 0, 0, 2] \<rparr>"

definition demo_fsm :: "(int, unit, unit) fsm" where
  "demo_fsm =
    \<lparr> f_IsBridgeEnabled = False, f_parent = demo_parent, f_validators = projr (NewValidatorSet demo_accounts),
      f_blockBuilder = (), f_epochNumber = 0, f_commitEpochInput = (), f_isEndOfEpoch = False, f_isEndOfSprint = False,
      f_proposerCommitmentToRegister = None, f_target = None, f_exitEventRootHash = 0 \<rparr>"

lemma demo_curve_ok: "bn256_ok demo_curve"
  by (simp add: bn256_ok_def demo_curve_def distrib_left)

lemma demo_process_ok: "process_ok demo_backend"
  by (auto simp: process_ok_def demo_backend_def rbind_def split: sum.splits)

lemma demo_validators: "NewValidatorSet demo_accounts = Inr (f_validators demo_fsm)"
  by (simp add: demo_fsm_def NewValidatorSet_def getQuorumSize_def BigIntDivCeil_def Let_def)

lemma demo_header_extra:
  "GetIbftExtra demo_codec demo_curve (hd_ExtraData demo_header) = Inr ((demo_extra None)\<lparr>ex_Validators := Some emptyDelta\<rparr>)"
  using demo_parent_extra by (simp add: demo_header_def demo_parent_def)

lemma demo_header_size: "length (hd_ExtraData demo_header) < 1000"
proof -
  have "rlp_bound (Extra_MarshalRLPWith demo_codec demo_curve (demo_extra None)) < 900"
    by (simp add: Extra_MarshalRLPWith_def CheckpointData_MarshalRLPWith_def demo_extra_def demo_checkpoint_def demo_sizes)
  then have "length (rlp_enc (Extra_MarshalRLPWith demo_codec demo_curve (demo_extra None))) < 900"
    using rlp_enc_bound [of "Extra_MarshalRLPWith demo_codec demo_curve (demo_extra None)"] by simp
  then show ?thesis by (simp add: demo_header_def headerExtra_def Extra_MarshalRLPTo_def ExtraVanity_def demo_codec_simps)
qed

lemma demo_decode: "decodeBlock demo_codec demo_curve demo_proposal = Inr demo_block"
proof -
  have "rlp_bound (Block_MarshalRLPWith demo_codec demo_block) < 2 ^ 63"
  proof -
    have "length e < 1000 \<Longrightarrow> rlp_bound (Header_MarshalRLPWith demo_codec (zeroHeader\<lparr>hd_Number := 1, hd_Timestamp := 1,
        hd_MixHash := m, hd_Difficulty := 1, hd_ExtraData := e, hd_Hash := h\<rparr>)) < 4000" for e m h
      by (simp add: Header_MarshalRLPWith_def demo_sizes)
    from this [OF demo_header_size, of "plgBFTHeaderHash demo_codec demo_curve demo_header" PlgBFTMixDigest] show ?thesis
      by (simp add: Block_MarshalRLPWith_def demo_block_def Header_ComputeHash_def zeroBlock_def demo_codec_simps)
         (simp add: demo_header_def)
  qed
  then have "length demo_proposal < 2 ^ 64"
    using demo_small by (fastforce simp: demo_proposal_def Block_MarshalRLPTo_def)
  moreover have "block_encodable demo_block"
    by (simp add: block_encodable_def header_encodable_def demo_block_def Header_ComputeHash_def demo_header_def
        zeroHeader_def zeroBlock_def)
  ultimately show ?thesis
    using Block_read [OF demo_codec_ok, of demo_block "plgBFTHeaderHash demo_codec demo_curve"]
    by (simp add: decodeBlock_def demo_proposal_def)
       (simp add: demo_block_def Header_ComputeHash_def zeroBlock_def demo_header_def zeroHeader_def)
qed

lemma demo_Validate:
  "Validate demo_bft demo_backend demo_proposal demo_fsm =
    Inr (demo_fsm\<lparr>f_target := Some \<lparr>fl_Block = demo_block, fl_Receipts = []\<rparr>\<rparr>)"
proof -
  let ?x = "(demo_extra None)\<lparr>ex_Validators := Some emptyDelta\<rparr>"
  have "plgBFTHeaderHash demo_codec demo_curve (demo_header\<lparr>hd_Hash := hh\<rparr>) = plgBFTHeaderHash demo_codec demo_curve demo_header" for hh
    by (simp add: plgBFTHeaderHash_def defHeaderHash_def Header_MarshalRLPWith_def split: sum.split)
  then have fields: "validateHeaderFields demo_codec demo_curve demo_parent (bl_Header demo_block) = Inr ()"
    by (simp add: validateHeaderFields_def demo_block_def Header_ComputeHash_def)
       (simp add: demo_header_def demo_parent_def zeroHeader_def)
  have as: "vs_validators (f_validators demo_fsm) = demo_accounts" using demo_validators by (rule NewValidatorSet_validators)
  have "ValidateDelta ?x demo_accounts demo_accounts = Inr ()" by code_simp
  moreover have "AccountSet_Hash demo_bft demo_accounts = Inr 1"
    by (simp add: AccountSet_Hash_def demo_bft_def demo_codec_def rlp_codec_def big_SetBytes_def)
  ultimately have "validateExtraData demo_bft demo_backend demo_fsm ?x demo_checkpoint (Some demo_checkpoint) t = Inr ()" for t
    by (simp add: validateExtraData_def as getValidatorsTransition_def CheckpointData_Validate_def)
       (simp add: demo_fsm_def demo_extra_def ApplyDelta_def ValidatorSetDelta_IsEmpty_def emptyDelta_def Bitmap_Len_def
          demo_checkpoint_def CheckpointData_ValidateBasic_def)
  moreover have "hd_Number (bl_Header demo_block) = 1"
    by (simp add: demo_block_def Header_ComputeHash_def demo_header_def)
  ultimately show ?thesis
    using demo_decode fields demo_header_extra demo_parent_extra
    by (simp add: Validate_def demo_bft_def Let_def demo_fsm_def ValidateParentSignatures_def demo_block_def
        Header_ComputeHash_def zeroBlock_def VerifyStateTransactions_def demo_extra_def demo_backend_def)
qed

lemma demo_point_size: "length (big_Bytes (demo_point * 16)) < 2 ^ 60"
proof -
  let ?b = "PadLeftOrTrim (big_Bytes demo_x) 32 @ PadLeftOrTrim (big_Bytes (pPrime - 1)) 32"
  have "length ?b = 64" using pPrime_pos by (simp add: PadLeftOrTrim_read demo_x_def pPrime_def)
  then have "big_SetBytes ?b < 256 ^ 64" using big_SetBytes_less [of ?b] by simp
  then have "\<bar>demo_point * 16\<bar> < 256 ^ 65" using demo_point_pos unfolding demo_point_def by simp
  then have "length (big_Bytes (demo_point * 16)) \<le> 65" by (simp only: length_big_Bytes)
  then show ?thesis by simp
qed

lemma demo_commit:
  assumes "(a, k) \<in> {(1, 5), (2, 7), (3, 11)}"
  shows "ValidateCommit demo_bft demo_fsm (cs_Signer (demo_seal a k)) (cs_Signature (demo_seal a k)) msg = Inr ()"
proof -
  have as: "vs_validators (f_validators demo_fsm) = demo_accounts" using demo_validators by (rule NewValidatorSet_validators)
  have "0 < demo_point * k" using assms demo_point_pos by auto
  then have "UnmarshalSignature demo_curve (big_Bytes (demo_point * k)) = Inr (demo_point * k)" by (rule demo_signature)
  moreover have "hashToPoint demo_curve msg (DomainCheckpointManager demo_codec) = Inr demo_point"
    by (rule demo_hash) (simp add: DomainCheckpointManager_def blsDomain_def)
  moreover have "GetValidatorMetadata demo_accounts (word_of_int (big_SetBytes [a])) \<in> (\<lambda>p. Some (demo_vm (ucast a) k p)) ` {1}"
    using assms by (auto simp: GetValidatorMetadata_def demo_accounts_def demo_vm_def big_SetBytes_def)
  ultimately show ?thesis
    by (auto simp: ValidateCommit_def as demo_bft_def demo_seal_def Signature_VerifyBls_def demo_vm_def)
       (simp add: demo_curve_def)
qed


end
