(* ===== verification/StateSyncProofs.thy ===== *)
theory StateSyncProofs
  imports StateSync FsmProps
begin

text \<open>
  The proofs of state syncs: what \<^verbatim>\<open>buildProofs\<close> stores for the events of a commitment is accepted by
  \<^verbatim>\<open>VerifyStateSyncProof\<close> for that commitment.
\<close>

lemma eventsFrom_nth:
  assumes "eventsFrom m i n = (events, None)"
  shows "length events = n \<and> (\<forall>k < n. m (i + of_nat k) = Some (events ! k))"
  using assms
proof (induction m i n arbitrary: events rule: eventsFrom.induct)
  case (2 m i n)
  then obtain e es where e: "m i = Some e" "eventsFrom m (i + 1) n = (es, None)" "events = e # es"
    by (auto split: option.splits prod.splits)
  then have ih: "length es = n" "\<forall>k < n. m (i + 1 + of_nat k) = Some (es ! k)" using "2.IH" by auto
  have "m (i + of_nat k) = Some (events ! k)" if "k < Suc n" for k
    using ih(2) that e by (cases k) (auto simp: add.assoc)
  then show ?case using ih(1) e(3) by simp
qed simp

lemma encodeEvents_nth:
  assumes "encodeEvents C events = Inr datas"
  shows "length datas = length events \<and> (\<forall>k < length events. sy_EncodeEvent C (events ! k) = Some (datas ! k))"
  using assms
proof (induction events arbitrary: datas)
  case (Cons e events)
  then obtain d ds where d: "sy_EncodeEvent C e = Some d" "encodeEvents C events = Inr ds" "datas = d # ds"
    by (auto simp: need_def rbind_def split: option.splits sum.splits)
  then show ?case using Cons.IH [OF d(2)] by (auto simp: nth_Cons split: nat.splits)
qed simp

lemma eventProofs_ok:
  assumes "\<forall>e \<in> set events. \<exists>leaf. sy_EncodeEvent C e = Some leaf \<and> GenerateProof t leaf = Inr (pf e)"
  shows "eventProofs C t events = Inr (map (\<lambda>e. \<lparr>sp_Proof = pf e, sp_StateSync = e\<rparr>) events)"
  using assms by (induction events) auto

lemma insertProofs_lookup:
  assumes "distinct (map (\<lambda>p. big_Uint64 (ev_ID (sp_StateSync p))) ps)" "p \<in> set ps"
  shows "db_proofs (insertStateSyncProofs ps db) (big_Uint64 (ev_ID (sp_StateSync p))) = Some p"
proof -
  let ?key = "\<lambda>p. big_Uint64 (ev_ID (sp_StateSync p))"
  have "foldl (\<lambda>m p. m(?key p \<mapsto> p)) m ps (?key p) = Some p" for m
    using assms by (induction ps rule: rev_induct) (auto simp: rev_image_eqI)
  then show ?thesis by (simp add: insertStateSyncProofs_def)
qed

text \<open>What the ABI promises of the encoding of events: different events have different encodings, none of them empty.\<close>

definition encoding_ok :: "SyncConfig \<Rightarrow> bool" where
  "encoding_ok C \<longleftrightarrow> (\<forall>e. sy_EncodeEvent C e \<noteq> Some [])
    \<and> (\<forall>e e' d. sy_EncodeEvent C e = Some d \<longrightarrow> sy_EncodeEvent C e' = Some d \<longrightarrow> e = e')"

text \<open>The events of a commitment, one for each index of the range.\<close>

lemma committed_events:
  assumes "getStateSyncEventsForCommitment first lst db = (events, None)" "events \<noteq> []"
    and "\<forall>k e. db_events db k = Some e \<longrightarrow> ev_ID e = uint k"
  shows "first \<le> lst" "length events = Suc (unat (lst - first))"
    "\<And>k. k < length events \<Longrightarrow> ev_ID (events ! k) = uint (first + of_nat k)"
    "\<And>i e. db_events db i = Some e \<Longrightarrow> first \<le> i \<Longrightarrow> i \<le> lst \<Longrightarrow>
      unat (i - first) < length events \<and> events ! unat (i - first) = e"
proof -
  note ev = eventsFrom_nth [OF assms(1) [unfolded getStateSyncEventsForCommitment_def]]
  show "first \<le> lst" using ev assms(2) by (auto split: if_splits)
  then show len: "length events = Suc (unat (lst - first))" using ev by simp
  have nth: "db_events db (first + of_nat k) = Some (events ! k)" if "k < length events" for k using ev that by simp
  then show "ev_ID (events ! k) = uint (first + of_nat k)" if "k < length events" for k
    using that assms(3) by simp
  fix i e assume i: "db_events db i = Some e" "first \<le> i" "i \<le> lst"
  have "unat (i - first) \<le> unat (lst - first)" using i(2,3) \<open>first \<le> lst\<close> by (simp add: unat_sub word_le_nat_alt)
  then have k: "unat (i - first) < length events" using len by simp
  then have "db_events db (first + of_nat (unat (i - first))) = Some (events ! unat (i - first))"
    by (rule nth)
  then show "unat (i - first) < length events \<and> events ! unat (i - first) = e" using i(1) k by simp
qed

lemma big_Uint64_uint [simp]: "big_Uint64 (uint x) = x"
  by (simp add: big_Uint64_def)

text \<open>The proof of the event at index \<open>k\<close> of a commitment is accepted.\<close>

lemma committed_proof:
  assumes "createMerkleTree R C events = Inr t" "encoding_ok C" "distinct events" "length events \<le> 2 ^ 62"
    and "\<forall>lvl \<in> set (butlast (mt_levels t)). MerkleTree_Hash t \<notin> set lvl" "k < length events"
  shows "\<exists>leaf pf. sy_EncodeEvent C (events ! k) = Some leaf \<and> GenerateProof t leaf = Inr pf
    \<and> VerifyProof big (Keccak R) (of_nat k) leaf pf (MerkleTree_Hash t) = Inr ()"
proof -
  obtain datas where d: "encodeEvents C events = Inr datas" "NewMerkleTree (Keccak R) datas = Inr t"
    using assms(1) by (auto simp: createMerkleTree_def rbind_def split: sum.splits)
  note enc = encodeEvents_nth [OF d(1)]
  have "distinct datas"
    unfolding distinct_conv_nth
  proof (intro allI impI)
    fix i j assume ij: "i < length datas" "j < length datas" "i \<noteq> j"
    then have "events ! i \<noteq> events ! j" using assms(3) enc by (simp add: nth_eq_iff_index_eq)
    then show "datas ! i \<noteq> datas ! j" using assms(2) enc ij unfolding encoding_ok_def by metis
  qed
  moreover have "datas ! k \<noteq> []" using assms(2,6) enc unfolding encoding_ok_def by metis
  ultimately show ?thesis
    using leaf_proof [OF d(2) findLeaf_nth, of k big] assms(4,5,6) enc by auto
qed

lemma buildProofs_ok:
  assumes "getStateSyncEventsForCommitment first lst db = (events, None)" "createMerkleTree R C events = Inr t"
    and ids: "\<forall>k e. db_events db k = Some e \<longrightarrow> ev_ID e = uint k" and "encoding_ok C" "unat (lst - first) < 2 ^ 62"
    and "\<forall>lvl \<in> set (butlast (mt_levels t)). MerkleTree_Hash t \<notin> set lvl"
    and m: "m = \<lparr>sc_StartID = ev_ID (hd events), sc_EndID = ev_ID (last events), sc_Root = MerkleTree_Hash t\<rparr>" "cm_Message cm = m"
  shows "\<exists>db'. buildProofs R C m db = Inr db' \<and> (\<forall>i e. db_events db i = Some e \<longrightarrow> first \<le> i \<longrightarrow> i \<le> lst \<longrightarrow>
    (\<exists>pf. db_proofs db' i = Some \<lparr>sp_Proof = pf, sp_StateSync = e\<rparr> \<and> VerifyStateSyncProof R C cm pf (Some e) = Inr ()))"
proof -
  have ne: "events \<noteq> []" using assms(2) by (auto simp: createMerkleTree_def NewMerkleTree_def)
  note ev = committed_events [OF assms(1) ne ids]
  have start: "big_Uint64 (sc_StartID m) = first" using ev(3) [of 0] ne by (simp add: m hd_conv_nth)
  have "last events = events ! unat (lst - first)" using ne ev(2) by (simp add: last_conv_nth)
  then have "big_Uint64 (sc_EndID m) = lst" using ev(2) ev(3) [of "unat (lst - first)"] by (simp add: m)
  note bounds = start this
  have small: "length events \<le> 2 ^ 62" using ev(2) assms(5) by simp
  have "distinct (map ev_ID events)"
    unfolding distinct_conv_nth
  proof (intro allI impI)
    fix j k assume jk: "j < length (map ev_ID events)" "k < length (map ev_ID events)" "j \<noteq> k"
    then have "of_nat j \<noteq> (of_nat k :: uint64)" using small unat_of_nat [of j, where 'a = 64] unat_of_nat [of k, where 'a = 64] by auto
    then show "map ev_ID events ! j \<noteq> map ev_ID events ! k" using ev(3) [of j] ev(3) [of k] jk by (simp flip: word_uint_eq_iff)
  qed
  moreover have "inj_on big_Uint64 (ev_ID ` set events)"
    by (rule inj_on_inverseI [where g = uint]) (use ev(3) in \<open>auto simp: in_set_conv_nth\<close>)
  ultimately have keys: "distinct (map (\<lambda>e. big_Uint64 (ev_ID e)) events)" "distinct events"
    by (simp_all add: distinct_map comp_inj_on [unfolded comp_def])
  have each: "\<exists>leaf pf. sy_EncodeEvent C e = Some leaf \<and> GenerateProof t leaf = Inr pf
      \<and> VerifyProof (sy_big C) (Keccak R) (big_Uint64 (ev_ID e) - first) leaf pf (MerkleTree_Hash t) = Inr ()" if "e \<in> set events" for e
  proof -
    obtain k where "k < length events" "e = events ! k" using \<open>e \<in> set events\<close> by (auto simp: in_set_conv_nth)
    then show ?thesis using committed_proof [OF assms(2,4) keys(2) _ assms(6), of k "sy_big C"] ev(3) small by simp
  qed
  define pf where "pf = (\<lambda>e. projr (GenerateProof t (the (sy_EncodeEvent C e))))"
  define ps where "ps = map (\<lambda>e. \<lparr>sp_Proof = pf e, sp_StateSync = e\<rparr>) events"
  have "eventProofs C t events = Inr ps" unfolding ps_def using each by (intro eventProofs_ok) (fastforce simp: pf_def)
  then have build: "buildProofs R C m db = Inr (insertStateSyncProofs ps db)"
    using assms(1,2) bounds by (simp add: buildProofs_def)
  show ?thesis
  proof (rule exI [of _ "insertStateSyncProofs ps db"], rule conjI, rule build, intro allI impI)
    fix i e assume i: "db_events db i = Some e" "first \<le> i" "i \<le> lst"
    then have e: "e \<in> set events" "big_Uint64 (ev_ID e) = i" using ev(4) [OF i] ids by (auto dest: nth_mem)
    have "db_proofs (insertStateSyncProofs ps db) i = Some \<lparr>sp_Proof = pf e, sp_StateSync = e\<rparr>"
      using insertProofs_lookup [of ps "\<lparr>sp_Proof = pf e, sp_StateSync = e\<rparr>" db] keys(1) e by (simp add: ps_def comp_def)
    moreover have "VerifyStateSyncProof R C cm (pf e) (Some e) = Inr ()"
      using each [OF e(1)] e(2) i(2,3) bounds m by (auto simp: VerifyStateSyncProof_def pf_def Let_def)
    ultimately show "\<exists>pf. db_proofs (insertStateSyncProofs ps db) i = Some \<lparr>sp_Proof = pf, sp_StateSync = e\<rparr>
        \<and> VerifyStateSyncProof R C cm pf (Some e) = Inr ()" by blast
  qed
qed


subsection \<open>Witness\<close>

definition demo_event :: "uint64 \<Rightarrow> StateSyncedEvent" where
  "demo_event i = \<lparr>ev_ID = uint i, ev_Sender = 1, ev_Receiver = 2, ev_Data = []\<rparr>"

text \<open>Only the events of the demonstration can be encoded, so that the encoding is injective.\<close>

definition demo_sync :: SyncConfig where
  "demo_sync = \<lparr>sy_EncodeEvent = (\<lambda>e. if e = demo_event 1 then Some [1] else if e = demo_event 2 then Some [2] else None),
     sy_maxCommitmentSize = 2, sy_keyString = checksumEncode (Keccak demo_codec) 1, sy_key = 5, sy_big = (\<lambda>_. 0)\<rparr>"

definition demo_store :: StateSyncStore where
  "demo_store = \<lparr>db_events = [1 \<mapsto> demo_event 1, 2 \<mapsto> demo_event 2], db_commitments = [], db_proofs = Map.empty, db_votes = Map.empty\<rparr>"

definition demo_manager :: "int stateSyncManager" where
  "demo_manager = \<lparr>sm_store = demo_store, sm_pendingCommitments = [], sm_validatorSet = None, sm_epoch = 0,
     sm_nextCommittedIndex = 1, sm_sent = []\<rparr>"

definition demo_signed :: CommitmentMessageSigned where
  "demo_signed = \<lparr>cm_Message = \<lparr>sc_StartID = 1, sc_EndID = 2, sc_Root = 320\<rparr>,
     cm_AggSignature = \<lparr>sg_AggregatedSignature = [], sg_Bitmap = []\<rparr>, cm_PublicKeys = []\<rparr>"

lemma demo_event_eq [simp]: "demo_event i = demo_event j \<longleftrightarrow> i = j"
  by (simp add: demo_event_def flip: word_uint_eq_iff)

lemma demo_encoding: "encoding_ok demo_sync"
  by (auto simp: encoding_ok_def demo_sync_def)

lemma demo_events: "getStateSyncEventsForCommitment 1 2 demo_store = ([demo_event 1, demo_event 2], None)"
  by (simp add: getStateSyncEventsForCommitment_def demo_store_def)


end
