(* ===== verification/StateSyncProps.thy ===== *)
theory StateSyncProps
  imports StateSyncProofs
begin

text \<open>
  The manager as a transition system: whatever events, votes, epochs and blocks arrive and in whatever order, a
  commitment that it offers is one that the state machine of a block accepts.
\<close>

subsection \<open>Counting votes\<close>

lemma validatorAddrToIndex_snoc:
  "validatorAddrToIndex K (as @ [v]) = (validatorAddrToIndex K as)(checksumEncode K (vm_Address v) \<mapsto> length as)"
  by (simp add: validatorAddrToIndex_def)

lemma validatorAddrToIndex_Some:
  assumes "distinct (map vm_Address as)"
  shows "validatorAddrToIndex K as str = Some i \<longleftrightarrow> i < length as \<and> str = checksumEncode K (vm_Address (as ! i))"
  using assms
proof (induction as arbitrary: i rule: rev_induct)
  case Nil
  then show ?case by (simp add: validatorAddrToIndex_def)
next
  case (snoc v as)
  have "vm_Address (as ! i) \<noteq> vm_Address v" if "i < length as" for i
    using snoc.prems imageI [OF nth_mem [OF that], of vm_Address] by auto
  then show ?case using snoc by (auto simp: validatorAddrToIndex_snoc nth_append checksumEncode_inj less_Suc_eq split: if_splits)
qed

definition voteSeal :: "MessageSignature \<Rightarrow> CommittedSeal" where
  "voteSeal v = \<lparr>cs_Signer = addrBytes (StringToAddress (ms_From v)), cs_Signature = ms_Signature v\<rparr>"

lemma voteSeal_signer [simp]: "sealSigner (voteSeal v) = StringToAddress (ms_From v)"
  by (simp add: voteSeal_def sealSigner_def)

lemma collectVotes_ok:
  assumes "\<And>v. v \<in> set votes \<Longrightarrow> m (ms_From v) \<noteq> None \<Longrightarrow> \<exists>g. UnmarshalSignature N (ms_Signature v) = Inr g"
  shows "\<exists>keys'. collectVotes N m as votes (bm, sigs, keys, signers) =
    (let counted = filter (\<lambda>v. m (ms_From v) \<noteq> None) votes in
     Inr (fold (\<lambda>i. Bitmap_Set (of_nat i)) (map (\<lambda>v. the (m (ms_From v))) counted) bm,
          sigs @ map (sealPoint N \<circ> voteSeal) counted, keys', signers \<union> (sealSigner \<circ> voteSeal) ` set counted))"
  using assms
proof (induction votes arbitrary: bm sigs keys signers)
  case (Cons v votes)
  show ?case
  proof (cases "m (ms_From v)")
    case None
    then show ?thesis using Cons.IH [of bm sigs keys signers] Cons.prems by simp
  next
    case (Some i)
    then obtain g where g: "UnmarshalSignature N (ms_Signature v) = Inr g" using Cons.prems by fastforce
    then have "sealPoint N (voteSeal v) = g" by (simp add: sealPoint_def voteSeal_def)
    then show ?thesis using Cons.IH [of "Bitmap_Set (of_nat i) bm" "sigs @ [g]" _ "insert (StringToAddress (ms_From v)) signers"]
        Cons.prems Some g by (simp add: Let_def)
  qed
qed simp

subsection \<open>Votes in the database\<close>

text \<open>A stored vote under the name of a validator is a valid signature of that validator.\<close>

definition vote_ok :: "('a, 'v, 'g1, 'k) BftEnv \<Rightarrow> 'k AccountSet \<Rightarrow> byte list \<Rightarrow> MessageSignature \<Rightarrow> bool" where
  "vote_ok E as hash v \<longleftrightarrow> (\<forall>w \<in> set as. ms_From v = checksumEncode (Keccak (be_R E)) (vm_Address w) \<longrightarrow>
    (\<exists>g. UnmarshalSignature (be_N E) (ms_Signature v) = Inr g
       \<and> Signature_VerifyBls (be_N E) g (vm_BlsKey w) hash (DomainStateReceiver (be_R E)) = Inr True))"

definition votes_ok :: "('a, 'v, 'g1, 'k) BftEnv \<Rightarrow> 'k AccountSet \<Rightarrow> uint64 \<Rightarrow> StateSyncStore \<Rightarrow> bool" where
  "votes_ok E as epoch db \<longleftrightarrow> (\<forall>bucket hash votes. db_votes db epoch = Some bucket \<longrightarrow> bucket hash = Some votes \<longrightarrow>
    distinct (map ms_From votes) \<and> (\<forall>v \<in> set votes. vote_ok E as hash v))"

lemma insertMessageVote_ok:
  assumes "votes_ok E as epoch db" "vote_ok E as hash vote" "insertMessageVote epoch hash vote db = Inr (n, db')"
  shows "votes_ok E as epoch db'"
  using assms(3,1,2) unfolding insertMessageVote_def getMessageVotes_def votes_ok_def
  by (auto simp: need_def split: option.splits if_splits)

lemma getMessageVotes_ok:
  assumes "votes_ok E as epoch db" "getMessageVotes epoch hash db = Inr votes"
  shows "distinct (map ms_From votes) \<and> (\<forall>v \<in> set votes. vote_ok E as hash v)"
  using assms unfolding getMessageVotes_def votes_ok_def by (auto simp: need_def split: option.splits)

lemma verifyVote_ok:
  assumes "verifyVoteSignature E vs (StringToAddress (ms_From v)) (ms_Signature v) hash = Inr ()"
    and "distinct (map vm_Address (vs_validators vs))"
  shows "vote_ok E (vs_validators vs) hash v"
  unfolding vote_ok_def
proof (intro ballI impI)
  fix w assume w: "w \<in> set (vs_validators vs)" "ms_From v = checksumEncode (Keccak (be_R E)) (vm_Address w)"
  then have from_w: "StringToAddress (ms_From v) = vm_Address w" by (simp add: StringToAddress_checksum)
  obtain u g where u: "GetValidatorMetadata (vs_validators vs) (vm_Address w) = Some u"
      "UnmarshalSignature (be_N E) (ms_Signature v) = Inr g"
      "Signature_VerifyBls (be_N E) g (vm_BlsKey u) hash (DomainStateReceiver (be_R E)) = Inr True"
    using assms(1) unfolding verifyVoteSignature_def from_w
    by (auto simp: need_def split: option.splits sum.splits if_splits)
  then have "u \<in> set (vs_validators vs) \<and> vm_Address u = vm_Address w"
    using metadataOf_Some [OF assms(2)] by (simp add: GetValidatorMetadata_def metadataOf_def)
  then have "u = w" using w(1) assms(2) by (metis distinct_map inj_onD)
  then show "\<exists>g. UnmarshalSignature (be_N E) (ms_Signature v) = Inr g
      \<and> Signature_VerifyBls (be_N E) g (vm_BlsKey w) hash (DomainStateReceiver (be_R E)) = Inr True" using u by blast
qed

subsection \<open>The transition system\<close>

text \<open>What the signature scheme promises of the node's own key: its signatures can be read back and are valid for its
  public key.\<close>

definition signing_ok :: "('a, 'v, 'g1, 'k) BftEnv \<Rightarrow> SyncConfig \<Rightarrow> bool" where
  "signing_ok E C \<longleftrightarrow> (\<forall>msg p. PrivateKey_Sign (be_N E) (sy_key C) msg (DomainStateReceiver (be_R E)) = Inr p \<longrightarrow>
    UnmarshalSignature (be_N E) (G1_Marshal (be_N E) p) = Inr p
    \<and> Signature_VerifyBls (be_N E) p (PrivateKey_PublicKey (be_N E) (sy_key C)) msg (DomainStateReceiver (be_R E)) = Inr True)"

text \<open>A validator set of an epoch: addresses are distinct, there is voting power, and the node is registered with its
  own key.\<close>

definition epochSet_ok :: "('a, 'v, 'g1, 'k) BftEnv \<Rightarrow> SyncConfig \<Rightarrow> 'k AccountSet \<Rightarrow> bool" where
  "epochSet_ok E C as \<longleftrightarrow> distinct (map vm_Address as) \<and> 0 < GetTotalVotingPower as \<and> length as + 8 < 2 ^ 63
    \<and> (\<forall>w \<in> set as. checksumEncode (Keccak (be_R E)) (vm_Address w) = sy_keyString C \<longrightarrow>
         vm_BlsKey w = PrivateKey_PublicKey (be_N E) (sy_key C))"

inductive sync_step ::
  "('a, 'v, 'g1, 'k) BftEnv \<Rightarrow> ('k, 't, 'i) Backend \<Rightarrow> SyncConfig \<Rightarrow> 'k stateSyncManager \<Rightarrow> 'k stateSyncManager \<Rightarrow> bool"
  for E B C where
  add_log: "sync_step E B C s (manager_AddLog E B C event s)"
| save_vote: "saveVote E msg s = Inr s' \<Longrightarrow> sync_step E B C s s'"
| restart: "epochSet_ok E C as \<Longrightarrow> NewValidatorSet as = Inr vs \<Longrightarrow>
    PostEpoch E B C vs epoch next (s\<lparr>sm_store := insertEpoch epoch (cleanEpochsFromDB (sm_store s))\<rparr>) = (r, s') \<Longrightarrow>
    sync_step E B C s s'"
| post_block: "manager_PostBlock (be_R E) B C txs s = (r, s') \<Longrightarrow> sync_step E B C s s'"
| get_proof: "GetStateSyncProof (be_R E) C i s = (r, s') \<Longrightarrow> sync_step E B C s s'"

definition newStateSyncManager :: "StateSyncStore \<Rightarrow> 'k stateSyncManager" where
  "newStateSyncManager db = \<lparr>sm_store = db, sm_pendingCommitments = [], sm_validatorSet = None, sm_epoch = 0,
     sm_nextCommittedIndex = 0, sm_sent = []\<rparr>"

definition sync_inv :: "('a, 'v, 'g1, 'k) BftEnv \<Rightarrow> SyncConfig \<Rightarrow> 'k stateSyncManager \<Rightarrow> bool" where
  "sync_inv E C s \<longleftrightarrow> (\<forall>vs. sm_validatorSet s = Some vs \<longrightarrow>
    epochSet_ok E C (vs_validators vs) \<and> NewValidatorSet (vs_validators vs) = Inr vs
    \<and> votes_ok E (vs_validators vs) (sm_epoch s) (sm_store s)
    \<and> (\<forall>p \<in> set (sm_pendingCommitments s). pc_Epoch p = sm_epoch s))"

lemma buildProofs_votes: "buildProofs R C m db = Inr db' \<Longrightarrow> db_votes db' = db_votes db"
  by (auto simp: buildProofs_def rbind_def insertStateSyncProofs_def split: prod.splits option.splits sum.splits)

lemma buildCommitment_inv:
  assumes "sync_inv E C s" "buildCommitment E B C s = Inr s'" "signing_ok E C"
  shows "sync_inv E C s'"
proof (cases "s' = s")
  case False
  obtain events where events: "fst (getStateSyncEventsForCommitment (sm_nextCommittedIndex s)
      (sm_nextCommittedIndex s + sy_maxCommitmentSize C - 1) (sm_store s)) = events" by blast
  obtain c h p n db sent where c: "NewPendingCommitment (be_R E) C (sm_epoch s) events = Inr c"
      "PrivateKey_Sign (be_N E) (sy_key C) (hashBytes h) (DomainStateReceiver (be_R E)) = Inr p"
      "insertMessageVote (sm_epoch s) (hashBytes h) \<lparr>ms_From = sy_keyString C, ms_Signature = G1_Marshal (be_N E) p\<rparr> (sm_store s) = Inr (n, db)"
      "s' = s\<lparr>sm_store := db, sm_sent := sent, sm_pendingCommitments := sm_pendingCommitments s @ [c]\<rparr>"
    using assms(2) False events unfolding buildCommitment_def Let_def
    by (auto simp: rbind_def split: prod.splits if_splits sum.splits)
  have own: "vote_ok E as (hashBytes h) \<lparr>ms_From = sy_keyString C, ms_Signature = G1_Marshal (be_N E) p\<rparr>"
    if "epochSet_ok E C as" for as
    using that c(2) assms(3) unfolding vote_ok_def epochSet_ok_def signing_ok_def by auto
  have "pc_Epoch c = sm_epoch s" using c(1) by (auto simp: NewPendingCommitment_def rbind_def split: sum.splits)
  then show ?thesis using assms(1) own insertMessageVote_ok [where E = E, OF _ _ c(3)] c(4) unfolding sync_inv_def by auto
qed (use assms(1) in simp)

lemma sync_step_inv:
  assumes "sync_step E B C s s'" "sync_inv E C s" "signing_ok E C"
  shows "sync_inv E C s'"
  using assms(1,2)
proof (induction rule: sync_step.induct)
  case (add_log s event)
  show ?case
  proof (cases event)
    case (Some e)
    define t where "t = s\<lparr>sm_store := insertStateSyncEvent e (sm_store s)\<rparr>"
    have "sync_inv E C t" using add_log by (simp add: sync_inv_def t_def insertStateSyncEvent_def votes_ok_def)
    then show ?thesis using buildCommitment_inv [OF _ _ assms(3)] Some
      by (auto simp: manager_AddLog_def t_def [symmetric] Let_def split: sum.splits)
  qed (use add_log in \<open>simp add: manager_AddLog_def\<close>)
next
  case (save_vote msg s s')
  show ?case
  proof (cases "s' = s")
    case False
    then obtain vs n db where vs: "sm_validatorSet s = Some vs" "tm_EpochNumber msg = sm_epoch s"
        "verifyVoteSignature E vs (StringToAddress (tm_From msg)) (tm_Signature msg) (tm_Hash msg) = Inr ()"
        "insertMessageVote (sm_epoch s) (tm_Hash msg) \<lparr>ms_From = tm_From msg, ms_Signature = tm_Signature msg\<rparr> (sm_store s) = Inr (n, db)"
        "s' = s\<lparr>sm_store := db\<rparr>"
      using save_vote(1) by (auto simp: saveVote_def rbind_def split: option.splits if_splits sum.splits)
    then show ?thesis
      using save_vote(2) verifyVote_ok [of E vs "\<lparr>ms_From = tm_From msg, ms_Signature = tm_Signature msg\<rparr>"]
        insertMessageVote_ok [where E = E, OF _ _ vs(4)] by (auto simp: sync_inv_def epochSet_ok_def)
  qed (use save_vote in simp)
next
  case (restart as vs epoch "next" s r s')
  define db where "db = insertEpoch epoch (cleanEpochsFromDB (sm_store s))"
  have "votes_ok E as epoch db" by (simp add: db_def votes_ok_def insertEpoch_def cleanEpochsFromDB_def)
  moreover have "vs_validators vs = as" using restart(2) by (rule NewValidatorSet_validators)
  ultimately have start: "sync_inv E C (s\<lparr>sm_store := db, sm_pendingCommitments := [], sm_validatorSet := Some vs,
      sm_epoch := epoch, sm_nextCommittedIndex := i\<rparr>)" for i
    using restart(1,2) by (simp add: sync_inv_def)
  show ?case
    using restart(3) start [of "sm_nextCommittedIndex s"] buildCommitment_inv [OF start _ assms(3)]
    unfolding PostEpoch_def db_def [symmetric] by (auto simp: Let_def intro: start split: sum.splits)
next
  case (post_block txs s r s')
  then show ?case
    unfolding manager_PostBlock_def sync_inv_def
    by (auto simp: Let_def insertCommitmentMessage_def votes_ok_def split: sum.splits option.splits dest!: buildProofs_votes)
next
  case (get_proof i s r s')
  then show ?case
    unfolding GetStateSyncProof_def sync_inv_def
    by (auto simp: rbind_def votes_ok_def split: sum.splits option.splits dest!: buildProofs_votes)
qed

lemma sync_reachable_inv:
  assumes "(sync_step E B C)\<^sup>*\<^sup>* (newStateSyncManager db) s" "signing_ok E C"
  shows "sync_inv E C s"
  using assms(1)
proof (induction rule: rtranclp_induct)
  case base
  show ?case by (simp add: sync_inv_def newStateSyncManager_def)
next
  case (step t u)
  then show ?case using sync_step_inv assms(2) by blast
qed

subsection \<open>Commitments are accepted\<close>

text \<open>What the curve promises of the encoding of points: a sum of points that were read can be read back, unless it is
  the point at infinity.\<close>

definition marshal_ok :: "('g1, 'k) Bn256 \<Rightarrow> bool" where
  "marshal_ok N \<longleftrightarrow> (\<forall>ss. ss \<noteq> [] \<longrightarrow> (\<forall>s \<in> set ss. \<exists>raw. UnmarshalSignature N raw = Inr s) \<longrightarrow>
    \<not> G1_IsInfinity N (Signatures_Aggregate N ss) \<longrightarrow>
    UnmarshalSignature N (G1_Marshal N (Signatures_Aggregate N ss)) = Inr (Signatures_Aggregate N ss))"

lemma largestCommitment_Some:
  assumes "largestCommitment E B s cs = Inr (Some cm)"
  shows "\<exists>c \<in> set cs. \<exists>keys. getAggSignatureForCommitmentMessage E B s c = Inr (cm_AggSignature cm, keys) \<and> cm_Message cm = pc_Commitment c"
  using assms by (induction cs) (auto split: sum.splits prod.splits if_splits)

lemma quorum_signers:
  assumes "NewValidatorSet as = Inr vs" "0 < GetTotalVotingPower as" "HasQuorum vs S"
  shows "S \<noteq> {}"
  using assms unfolding NewValidatorSet_def HasQuorum_def getQuorumSize_def BigIntDivCeil_def big_Div_def
  by (auto simp: Let_def)

text \<open>The votes that are counted are seals of distinct validators.\<close>

lemma counted_votes:
  assumes "distinct (map vm_Address as)" "distinct (map ms_From votes)" "\<forall>v \<in> set votes. vote_ok E as hash v"
    and m: "m = validatorAddrToIndex (Keccak (be_R E)) as" and counted: "counted = filter (\<lambda>v. m (ms_From v) \<noteq> None) votes"
  shows "\<forall>v \<in> set counted. \<exists>w \<in> set as. sealSigner (voteSeal v) = vm_Address w \<and> the (m (ms_From v)) = the (AccountSet_Index as (vm_Address w))
      \<and> UnmarshalSignature (be_N E) (ms_Signature v) = Inr (sealPoint (be_N E) (voteSeal v))
      \<and> Signature_VerifyBls (be_N E) (sealPoint (be_N E) (voteSeal v)) (vm_BlsKey w) hash (DomainStateReceiver (be_R E)) = Inr True"
    "distinct (map sealSigner (map voteSeal counted))"
proof -
  let ?K = "Keccak (be_R E)"
  have "\<exists>i < length as. m (ms_From v) = Some i \<and> ms_From v = checksumEncode ?K (vm_Address (as ! i))" if "v \<in> set counted" for v
    using that validatorAddrToIndex_Some [OF assms(1), of ?K "ms_From v"] by (auto simp: counted m)
  then obtain i where i: "\<forall>v \<in> set counted. i v < length as \<and> m (ms_From v) = Some (i v) \<and> ms_From v = checksumEncode ?K (vm_Address (as ! i v))"
    by metis
  have sub: "set counted \<subseteq> set votes" by (auto simp: counted)
  show "\<forall>v \<in> set counted. \<exists>w \<in> set as. sealSigner (voteSeal v) = vm_Address w \<and> the (m (ms_From v)) = the (AccountSet_Index as (vm_Address w))
      \<and> UnmarshalSignature (be_N E) (ms_Signature v) = Inr (sealPoint (be_N E) (voteSeal v))
      \<and> Signature_VerifyBls (be_N E) (sealPoint (be_N E) (voteSeal v)) (vm_BlsKey w) hash (DomainStateReceiver (be_R E)) = Inr True"
  proof
    fix v assume v: "v \<in> set counted"
    note iv = i [rule_format, OF v]
    obtain g where "UnmarshalSignature (be_N E) (ms_Signature v) = Inr g"
        "Signature_VerifyBls (be_N E) g (vm_BlsKey (as ! i v)) hash (DomainStateReceiver (be_R E)) = Inr True"
      using assms(3) v sub iv nth_mem [of "i v" as] unfolding vote_ok_def by blast
    moreover from this have "sealPoint (be_N E) (voteSeal v) = g" by (simp add: sealPoint_def voteSeal_def)
    ultimately show "\<exists>w \<in> set as. sealSigner (voteSeal v) = vm_Address w \<and> the (m (ms_From v)) = the (AccountSet_Index as (vm_Address w))
      \<and> UnmarshalSignature (be_N E) (ms_Signature v) = Inr (sealPoint (be_N E) (voteSeal v))
      \<and> Signature_VerifyBls (be_N E) (sealPoint (be_N E) (voteSeal v)) (vm_BlsKey w) hash (DomainStateReceiver (be_R E)) = Inr True"
      using iv Index_distinct [OF assms(1), of "i v"] nth_mem [of "i v" as]
      by (intro bexI [of _ "as ! i v"]) (auto simp: StringToAddress_checksum)
  qed
  have dist: "distinct (map ms_From counted)" using assms(2) by (simp add: counted distinct_map_filter)
  have same: "ms_From u = ms_From v" if "u \<in> set counted" "v \<in> set counted" "StringToAddress (ms_From u) = StringToAddress (ms_From v)" for u v
    using i [rule_format, OF that(1)] i [rule_format, OF that(2)] that(3) by (metis StringToAddress_checksum)
  have "inj_on (sealSigner \<circ> voteSeal) (set counted)"
  proof (rule inj_onI)
    fix u v assume uv: "u \<in> set counted" "v \<in> set counted" "(sealSigner \<circ> voteSeal) u = (sealSigner \<circ> voteSeal) v"
    then have "ms_From u = ms_From v" using same by simp
    then show "u = v" using uv dist unfolding distinct_map by (meson inj_onD)
  qed
  moreover have "distinct counted" using dist unfolding distinct_map by blast
  ultimately show "distinct (map sealSigner (map voteSeal counted))" unfolding map_map distinct_map by blast
qed

lemma getAgg_verifies:
  assumes "bn256_ok (be_N E)" "epochSet_ok E C as" "NewValidatorSet as = Inr vs" "sm_validatorSet s = Some vs"
    and "votes_ok E as (pc_Epoch c) (sm_store s)"
    and "getAggSignatureForCommitmentMessage E B s c = Inr (sig, keys)" "f_validators f = vs"
    and "marshal_ok (be_N E)" "\<forall>g. G1_Marshal (be_N E) g = sg_AggregatedSignature sig \<longrightarrow> \<not> G1_IsInfinity (be_N E) g"
    and "cm_Message cm = pc_Commitment c" "cm_AggSignature cm = sig"
  shows "verifyCommitment E B f cm = Inr ()"
proof -
  let ?N = "be_N E" and ?D = "DomainStateReceiver (be_R E)"
  have as: "vs_validators vs = as" using assms(3) by (rule NewValidatorSet_validators)
  note ok = assms(2) [unfolded epochSet_ok_def]
  define m where "m = validatorAddrToIndex (Keccak (be_R E)) as"
  obtain h votes where h: "PendingCommitment_Hash (be_R E) B c = Inr h" "getMessageVotes (pc_Epoch c) (hashBytes h) (sm_store s) = Inr votes"
    using assms(4,6) by (auto simp: getAggSignatureForCommitmentMessage_def rbind_def Let_def split: sum.splits)
  define counted where "counted = filter (\<lambda>v. m (ms_From v) \<noteq> None) votes"
  note votes = counted_votes [OF _ _ _ m_def counted_def, of "hashBytes h"]
  have each: "\<forall>v \<in> set counted. \<exists>w \<in> set as. sealSigner (voteSeal v) = vm_Address w \<and> the (m (ms_From v)) = the (AccountSet_Index as (vm_Address w))
      \<and> UnmarshalSignature ?N (ms_Signature v) = Inr (sealPoint ?N (voteSeal v))
      \<and> Signature_VerifyBls ?N (sealPoint ?N (voteSeal v)) (vm_BlsKey w) (hashBytes h) ?D = Inr True"
    and dist: "distinct (map sealSigner (map voteSeal counted))"
    using votes ok getMessageVotes_ok [OF assms(5) h(2)] by auto
  define seals where "seals = map voteSeal counted"
  define bm where "bm = fold (\<lambda>i. Bitmap_Set (of_nat i)) (map (\<lambda>s. the (AccountSet_Index as (sealSigner s))) seals) []"
  have map_is: "map (\<lambda>v. the (m (ms_From v))) counted = map (\<lambda>s. the (AccountSet_Index as (sealSigner s))) seals"
    unfolding seals_def map_map by (rule map_cong) (use each in fastforce)+
  have "\<exists>g. UnmarshalSignature ?N (ms_Signature v) = Inr g" if "v \<in> set votes" "m (ms_From v) \<noteq> None" for v
  proof -
    have "v \<in> set counted" using that by (simp add: counted_def)
    then show ?thesis using each by blast
  qed
  then obtain keys' where "collectVotes ?N m as votes ([], [], [], {}) =
      Inr (fold (\<lambda>i. Bitmap_Set (of_nat i)) (map (\<lambda>v. the (m (ms_From v))) counted) [],
        [] @ map (sealPoint ?N \<circ> voteSeal) counted, keys', {} \<union> (sealSigner \<circ> voteSeal) ` set counted)"
    using collectVotes_ok [of votes m ?N as "[]" "[]" "[]" "{}"] unfolding Let_def counted_def [symmetric] by blast
  then have collect: "collectVotes ?N m as votes ([], [], [], {}) = Inr (bm, map (sealPoint ?N) seals, keys', sealSigner ` set seals)"
    unfolding map_is bm_def [symmetric] by (simp add: seals_def image_image)
  have sig: "HasQuorum vs (sealSigner ` set seals)"
      "sig = \<lparr>sg_AggregatedSignature = G1_Marshal ?N (Signatures_Aggregate ?N (map (sealPoint ?N) seals)), sg_Bitmap = bm\<rparr>"
    using assms(6) unfolding getAggSignatureForCommitmentMessage_def Let_def assms(4) need_simps as h m_def [symmetric]
    by (simp_all add: h collect split: if_splits)
  have ne: "seals \<noteq> []" using quorum_signers [OF assms(3) _ sig(1)] ok by auto
  have sub: "sealSigner ` set seals \<subseteq> vm_Address ` set as" using each by (fastforce simp: seals_def)
  have "Signature_VerifyBls ?N (sealPoint ?N x) (vm_BlsKey v) (hashBytes h) ?D = Inr True"
    if "x \<in> set seals" "v \<in> set as" "vm_Address v = sealSigner x" for x v
  proof -
    have "x \<in> voteSeal ` set counted" using that(1) by (simp add: seals_def)
    then obtain w where "w \<in> set as" "sealSigner x = vm_Address w" "Signature_VerifyBls ?N (sealPoint ?N x) (vm_BlsKey w) (hashBytes h) ?D = Inr True"
      using each by (metis imageE)
    moreover from this have "v = w" using that ok by (metis distinct_map inj_onD)
    ultimately show ?thesis by simp
  qed
  then obtain signers where "GetFilteredValidators as bm = Inr signers" "GetAddressesAsSet signers = sealSigner ` set seals"
      "VerifyAggregated ?N (Signatures_Aggregate ?N (map (sealPoint ?N) seals)) (map vm_BlsKey signers) (hashBytes h) ?D = Inr True"
    using seals_aggregate [OF assms(1) _ _ ne _ sub _ bm_def, where msg = "hashBytes h" and domain = ?D] ok dist by (auto simp: seals_def)
  moreover have "CommitmentMessageSigned_Hash (be_R E) B cm = Inr h"
    using h(1) assms(10) by (simp add: CommitmentMessageSigned_Hash_def PendingCommitment_Hash_def)
  moreover have "\<exists>raw. UnmarshalSignature ?N raw = Inr (sealPoint ?N x)" if "x \<in> set seals" for x
    using each that by (auto simp: seals_def)
  then have "UnmarshalSignature ?N (sg_AggregatedSignature sig) = Inr (Signatures_Aggregate ?N (map (sealPoint ?N) seals))"
    using assms(8,9) sig(2) ne by (simp add: marshal_ok_def)
  ultimately show ?thesis using assms(7,11) sig as by (simp add: verifyCommitment_def GetBlsKeys_def)
qed

text \<open>C18. A commitment that the manager offers is valid: whatever logs, votes (also forged ones), epochs, blocks and proof
  requests a manager has gone through since it was created, if \<^verbatim>\<open>Commitment\<close> returns a signed commitment, then the
  state machine of a block with the manager's validator set accepts it (\<^verbatim>\<open>verifyBridgeCommitmentTx\<close>): its bitmap
  selects a quorum and the aggregated signature is that of the selected keys.\<close>

theorem commitment_accepted:
  assumes "bn256_ok (be_N E)" "marshal_ok (be_N E)" "signing_ok E C"
    and "(sync_step E B C)\<^sup>*\<^sup>* (newStateSyncManager db) s" "manager_Commitment E B s = Inr (Some cm)"
    and "sm_validatorSet s = Some (f_validators f)"
    and "\<forall>g. G1_Marshal (be_N E) g = sg_AggregatedSignature (cm_AggSignature cm) \<longrightarrow> \<not> G1_IsInfinity (be_N E) g"
  shows "verifyCommitment E B f cm = Inr ()"
proof -
  obtain c keys where c: "c \<in> set (sm_pendingCommitments s)" "cm_Message cm = pc_Commitment c"
      "getAggSignatureForCommitmentMessage E B s c = Inr (cm_AggSignature cm, keys)"
    using largestCommitment_Some [OF assms(5) [unfolded manager_Commitment_def]] by auto
  have inv: "epochSet_ok E C (vs_validators (f_validators f))" "NewValidatorSet (vs_validators (f_validators f)) = Inr (f_validators f)"
      "votes_ok E (vs_validators (f_validators f)) (pc_Epoch c) (sm_store s)"
    using sync_reachable_inv [OF assms(4,3)] assms(6) c(1) unfolding sync_inv_def by auto
  show ?thesis by (rule getAgg_verifies [OF assms(1) inv(1,2) assms(6) inv(3) c(3) refl assms(2,7) c(2) refl])
qed

subsection \<open>Witness\<close>

text \<open>The curve of the demonstrations with keys that are their own public keys, and a node that is the only validator:
  its own vote is a quorum.\<close>

definition sync_curve :: "(int, int) Bn256" where
  "sync_curve = demo_curve\<lparr>G2_ScalarMult := \<lambda>_ k. k\<rparr>"

definition sync_bft :: "(Item, Item, int, int) BftEnv" where
  "sync_bft = demo_bft\<lparr>be_N := sync_curve\<rparr>"

definition sync_set :: "int validatorSet" where
  "sync_set = projr (NewValidatorSet [demo_vm 1 5 1])"

definition sync_start :: "int stateSyncManager" where
  "sync_start = demo_manager\<lparr>sm_store := insertEpoch 1 demo_store, sm_validatorSet := Some sync_set, sm_epoch := 1\<rparr>"

definition sync_signature :: "byte list" where
  "sync_signature = big_Bytes (demo_point * 5)"

lemma sync_env: "be_R sync_bft = demo_codec" "be_N sync_bft = sync_curve"
  by (simp_all add: sync_bft_def demo_bft_def)

lemma sync_hash: "hashToPoint sync_curve msg (DomainStateReceiver demo_codec) = Inr demo_point"
proof -
  have "hashToPoint sync_curve = hashToPoint demo_curve"
    by (simp add: fun_eq_iff sync_curve_def hashToPoint_def mapToG1Point_def split: sum.split option.split)
  then show ?thesis using demo_hash by (simp add: DomainStateReceiver_def blsDomain_def)
qed

lemma sync_Unmarshal: "UnmarshalSignature sync_curve = UnmarshalSignature demo_curve"
  by (simp add: fun_eq_iff sync_curve_def UnmarshalSignature_def split: option.split)

lemma sync_Marshal: "G1_Marshal sync_curve = big_Bytes"
  by (simp add: sync_curve_def demo_curve_def)

lemma sync_Aggregate: "Signatures_Aggregate sync_curve ss = sum_list ss"
  by (induction ss rule: rev_induct) (simp_all add: Signatures_Aggregate_def sync_curve_def demo_curve_def)

lemma sync_curve_ok: "bn256_ok sync_curve" "marshal_ok sync_curve"
proof -
  show "bn256_ok sync_curve" by (simp add: bn256_ok_def sync_curve_def demo_curve_def distrib_left)
  have pos: "0 < s" if "UnmarshalSignature demo_curve raw = Inr s" for raw s
    using that big_SetBytes_nonneg [of raw] by (auto simp: UnmarshalSignature_def demo_curve_def less_le split: if_splits)
  have "0 < sum_list ss" if "ss \<noteq> []" "\<forall>s \<in> set ss. \<exists>raw. UnmarshalSignature demo_curve raw = Inr s" for ss
    using that by (induction ss rule: list_nonempty_induct) (auto dest: pos simp: add_pos_pos)
  then show "marshal_ok sync_curve"
    unfolding marshal_ok_def sync_Unmarshal sync_Marshal sync_Aggregate using demo_signature by blast
qed

lemma sync_signing: "signing_ok sync_bft demo_sync"
  using demo_signature [of "demo_point * 5"] demo_point_pos
  by (simp add: signing_ok_def sync_env PrivateKey_Sign_def sync_hash sync_Unmarshal sync_Marshal Signature_VerifyBls_def
      PrivateKey_PublicKey_def demo_sync_def) (simp add: sync_curve_def demo_curve_def)

lemma sync_validators: "NewValidatorSet [demo_vm 1 5 1] = Inr sync_set" "vs_validators sync_set = [demo_vm 1 5 1]"
  "HasQuorum sync_set {1}"
  by (simp_all add: sync_set_def NewValidatorSet_def getQuorumSize_def BigIntDivCeil_def big_Div_def Let_def GetTotalVotingPower_def
      demo_vm_def HasQuorum_def)

lemma sync_epochSet: "epochSet_ok sync_bft demo_sync [demo_vm 1 5 1]"
  by (simp add: epochSet_ok_def GetTotalVotingPower_def demo_vm_def sync_env PrivateKey_PublicKey_def demo_sync_def sync_curve_def)

lemma sync_build:
  "\<exists>c s. buildCommitment sync_bft demo_backend demo_sync sync_start = Inr s \<and> sm_pendingCommitments s = [c] \<and> pc_Epoch c = 1
    \<and> sm_validatorSet s = Some sync_set
    \<and> getMessageVotes 1 (hashBytes (Keccak demo_codec [])) (sm_store s) = Inr [\<lparr>ms_From = checksumEncode (Keccak demo_codec) 1, ms_Signature = sync_signature\<rparr>]"
proof -
  have events: "getStateSyncEventsForCommitment 1 2 (sm_store sync_start) = ([demo_event 1, demo_event 2], None)"
    using demo_events by (simp add: sync_start_def insertEpoch_def demo_store_def getStateSyncEventsForCommitment_def)
  have "\<exists>t. createMerkleTree demo_codec demo_sync [demo_event 1, demo_event 2] = Inr t"
    by (simp add: createMerkleTree_def demo_sync_def NewMerkleTree_def)
  then obtain c where "NewPendingCommitment demo_codec demo_sync 1 [demo_event 1, demo_event 2] = Inr c" "pc_Epoch c = 1"
    by (auto simp: NewPendingCommitment_def)
  then show ?thesis
    using events sync_hash
    by (simp add: buildCommitment_def sync_env sync_start_def demo_manager_def demo_sync_def minCommitmentSize_def
        PendingCommitment_Hash_def demo_backend_def PrivateKey_Sign_def sync_Marshal insertMessageVote_def getMessageVotes_def
        insertEpoch_def demo_store_def sync_signature_def) (simp add: sync_curve_def demo_curve_def Let_def)
qed

theorem commitment_accepted_witness:
  "\<exists>s cm. (sync_step sync_bft demo_backend demo_sync)\<^sup>*\<^sup>* (newStateSyncManager demo_store) s
    \<and> manager_Commitment sync_bft demo_backend s = Inr (Some cm)
    \<and> verifyCommitment sync_bft demo_backend (demo_fsm\<lparr>f_validators := sync_set\<rparr>) cm = Inr ()"
proof -
  obtain c s where s: "buildCommitment sync_bft demo_backend demo_sync sync_start = Inr s" "sm_pendingCommitments s = [c]" "pc_Epoch c = 1"
      "sm_validatorSet s = Some sync_set"
      "getMessageVotes 1 (hashBytes (Keccak demo_codec [])) (sm_store s) = Inr [\<lparr>ms_From = checksumEncode (Keccak demo_codec) 1, ms_Signature = sync_signature\<rparr>]"
    using sync_build by blast
  have "PostEpoch sync_bft demo_backend demo_sync sync_set 1 (Inr 1)
      (newStateSyncManager demo_store\<lparr>sm_store := insertEpoch 1 (cleanEpochsFromDB (sm_store (newStateSyncManager demo_store)))\<rparr>) = (None, s)"
    using s(1) by (simp add: PostEpoch_def newStateSyncManager_def sync_start_def demo_manager_def cleanEpochsFromDB_def demo_store_def)
  then have run: "(sync_step sync_bft demo_backend demo_sync)\<^sup>*\<^sup>* (newStateSyncManager demo_store) s"
    by (intro r_into_rtranclp sync_step.restart [OF sync_epochSet sync_validators(1)])
  have sig: "UnmarshalSignature sync_curve sync_signature = Inr (demo_point * 5)"
    using demo_signature [of "demo_point * 5"] demo_point_pos by (simp add: sync_Unmarshal sync_signature_def)
  have index: "validatorAddrToIndex (Keccak demo_codec) [demo_vm 1 5 1] (checksumEncode (Keccak demo_codec) 1) = Some 0"
    by (simp add: validatorAddrToIndex_def demo_vm_def)
  have "\<exists>cm. manager_Commitment sync_bft demo_backend s = Inr (Some cm) \<and> sg_AggregatedSignature (cm_AggSignature cm) = sync_signature"
    using s(2-5) sig index sync_validators(2,3)
    by (simp add: manager_Commitment_def getAggSignatureForCommitmentMessage_def sync_env PendingCommitment_Hash_def demo_backend_def
        StringToAddress_checksum sync_Marshal sync_Aggregate sync_signature_def)
  then obtain cm where cm: "manager_Commitment sync_bft demo_backend s = Inr (Some cm)" "sg_AggregatedSignature (cm_AggSignature cm) = sync_signature"
    by blast
  have "sync_signature \<noteq> []" using sig by (auto simp: UnmarshalSignature_def)
  then have "\<forall>g. G1_Marshal sync_curve g = sync_signature \<longrightarrow> \<not> G1_IsInfinity sync_curve g"
    using length_big_Bytes [of 0 0] by (auto simp: sync_curve_def demo_curve_def)
  then have "verifyCommitment sync_bft demo_backend (demo_fsm\<lparr>f_validators := sync_set\<rparr>) cm = Inr ()"
    using commitment_accepted [OF _ _ sync_signing run cm(1), of "demo_fsm\<lparr>f_validators := sync_set\<rparr>"] sync_curve_ok s(4) cm(2)
    by (simp add: sync_env)
  then show ?thesis using run cm(1) by blast
qed

end
