(* ===== verification/Spec2Isabelle.thy ===== *)
theory Spec2Isabelle
  imports StaticCalls EvmProps RlpProps PoolExecutor ProposerProps StateSyncProps
begin

text \<open>
  A verification of the go-plgchain node, a blockchain client in Go with an Ethereum virtual machine and the PlgBFT
  consensus. Transactions enter the pool, the proposer of a round executes them and proposes a block, validators
  execute it again, check its extra field and commit to it with BLS signatures, and the aggregated
  signatures make the block final. A bridge brings events of a root chain into blocks: validators vote for commitments to
  ranges of events, and the events are then executed with Merkle proofs.

  \<^bold>\<open>Conventions.\<close> Go structures are records and enumerations datatypes, with the names of the source; a field carries
  a prefix for its structure. Fixed-width integers are words and wrap; \<^verbatim>\<open>big.Int\<close> is \<^typ>\<open>int\<close>, with the
  conversions of \<^verbatim>\<open>math/big\<close> written out. An error is the left side of a sum type. A panic is an error value as well
  (\<open>NilDereference\<close>, \<open>DivisionByZero\<close>), or \<^const>\<open>None\<close> in the virtual machine and the executor, where errors are part of the
  result. Where the source shares pointers and the result depends on it, there is an explicit store (\<open>Cells\<close> of \<open>Proposer\<close>).

  \<^bold>\<open>Vocabulary.\<close> \<open>Prelude\<close> has the integers, the shared lemmas and the monads. \<open>Types\<close> models transactions, logs, receipts and bloom
  filters (\<^verbatim>\<open>types/transaction.go\<close>, \<^verbatim>\<open>types/receipt.go\<close>); its theorems say that a bloom filter has exactly the bits of its
  logs and that the membership test misses some of them. \<open>Address\<close> models addresses as strings (\<^verbatim>\<open>types/types.go\<close>,
  \<^verbatim>\<open>helper/hex/hex.go\<close>).

  \<^bold>\<open>Encodings.\<close> \<open>Rlp\<close> models every encoder and decoder of \<^verbatim>\<open>types/rlp_*.go\<close>. The byte format belongs to the library
  fastrlp, the parameter \<open>Codec\<close>; \<open>RlpSpec\<close> states its documented behaviour (\<open>fastrlp_ok\<close>) and proves it of an RLP codec of its
  own. \<open>RlpProps\<close> has the round trips and the panic of the decoder on a trailing type byte.

  \<^bold>\<open>Virtual machine.\<close> \<open>Runtime\<close> models \<^verbatim>\<open>state/runtime/runtime.go\<close> and \<^verbatim>\<open>chain/params.go\<close>, \<open>EvmState\<close>, \<open>EvmArith\<close>, \<open>EvmInstr\<close> and
  \<open>EvmRun\<close> the files \<^verbatim>\<open>state.go\<close>, \<^verbatim>\<open>bitmap.go\<close>, \<^verbatim>\<open>instructions.go\<close> and \<^verbatim>\<open>dispatch_table.go\<close> of \<^verbatim>\<open>state/runtime/evm/\<close>,
  with every opcode. The arithmetic instructions refine word operations through the interpretations of the locale \<open>u256_binop\<close>. \<open>EvmCode\<close> and
  \<open>EvmProps\<close> cover jump destinations, memory and the gas of calls. The interpreter relies on its host through the locale \<open>evm_host\<close> of \<open>EvmSafety\<close>:
  \<open>EvmSafetyInstr\<close> and \<open>EvmSafetyRun\<close> prove in it that a run returns without a panic and does not gain gas.

  \<^bold>\<open>State and execution.\<close> \<open>Txn\<close> models the transient state (\<^verbatim>\<open>state/txn.go\<close>), \<open>AllowList\<close> the allow lists and the dispatch of precompiles, \<open>Executor\<close> the
  file \<^verbatim>\<open>state/executor.go\<close>. \<open>TxnSupply\<close> and \<open>TxnProps\<close> say what the operations do to balances, storage and refunds, \<open>ExecutorProps\<close> what
  a failed frame leaves, \<open>ExecutorSafety\<close> interprets \<open>evm_host\<close> on the executor and \<open>StaticCalls\<close> does so again for frames that
  must not write. \<open>BlockSafety\<close> puts it together: transactions settle their gas exactly, and an accepted block creates no money.

  \<^bold>\<open>Transaction pool.\<close> \<open>GoHeap\<close> models \<^verbatim>\<open>container/heap\<close> with the locale \<open>heap_order\<close>, \<open>TxPool\<close> the package \<^verbatim>\<open>txpool/\<close> as a transition
  system in which requests are handled in any order. \<open>TxPoolQueues\<close>, \<open>TxPoolInv\<close> and \<open>TxPoolProps\<close> have the invariants of queues and gauge, the
  draining of requests and the overrun of the limit; \<open>PoolExecutor\<close> says that the executor takes what the pool has let in.

  \<^bold>\<open>Consensus.\<close> \<open>Bls\<close> models \<^verbatim>\<open>consensus/plgbft/signer/\<close> (properties in \<open>BlsProps\<close>), \<open>Validators\<close> the validator sets, deltas and quorums (lemmas in
  \<open>ValidatorsProps\<close>), \<open>Extra\<close> the file \<^verbatim>\<open>extra.go\<close>, \<open>Fsm\<close> the files \<^verbatim>\<open>fsm.go\<close>, \<^verbatim>\<open>state_transaction.go\<close> and the verification of headers of
  \<^verbatim>\<open>plgbft.go\<close>, \<open>Proposer\<close> the file \<^verbatim>\<open>proposer_calculator.go\<close>. \<open>ExtraProps\<close> shows that two finalised blocks of one height expose a third of
  the voting power and that a validated delta leads to the announced set; \<open>FsmProps\<close> that a validated and committed proposal becomes a block that
  every node accepts; \<open>ProposerProps\<close> that nodes agree on proposers and every validator is elected.

  \<^bold>\<open>Bridge.\<close> \<open>Merkle\<close> models \<^verbatim>\<open>merkle-tree/merkle_tree.go\<close> with completeness and soundness of its proofs, \<open>StateSync\<close> the manager of
  \<^verbatim>\<open>state_sync_manager.go\<close> and its database. \<open>StateSyncProofs\<close> shows that every event of a commitment gets a valid proof, \<open>StateSyncProps\<close> that a
  commitment which the manager offers, after any steps including forged votes, is accepted by \<open>Fsm\<close>.

  \<^bold>\<open>Bounds.\<close> The loop of the interpreter is a partial function and proved to return: each round spends gas or stops. The host of a frame is
  built by recursion on the remaining depth; the executor refuses frames deeper than 1025, so 1025 levels are enough. Other loops are
  structural or terminate by a measure: heaps by index, queues by length, the Jacobi symbol and Euclid's algorithm by their arguments,
  the levels of a Merkle tree by their number of nodes.

  \<^bold>\<open>Code outside the repository.\<close> The RLP library, the curve and its pairing (\<open>Bn256\<close>), hash functions, the ABI codec, the account trie
  behind \<open>Txn\<close>, precompiled cryptography, transaction signers and the block builder are parameters. Theorems name what they need of
  them (\<open>fastrlp_ok\<close>, \<open>bn256_ok\<close>, \<open>marshal_ok\<close>, \<open>signing_ok\<close>, \<open>encoding_ok\<close>, \<open>process_ok\<close>), and witnesses satisfy these with concrete
  functions (\<open>demo_codec\<close>, \<open>demo_curve\<close> and others, see \<open>BlsDemo\<close>).

  \<^bold>\<open>Not modelled.\<close> Networking, JSON-RPC, synchronisation and gRPC services, the server and its commands: I/O. Storage and the state trie: reached
  through interfaces. The consensus runtime and the rounds of go-ibft: goroutines around the components above. The block builder, the checkpoint manager,
  the tracker and the relayers: they drive other components or send transactions to another chain. Snapshots of validators, the older
  IBFT engine, generated bindings, JSON forms and tracing.
\<close>

end
